(* ===== verification/Prelude.thy ===== *)
theory Prelude
  imports Complex_Main "HOL-Library.Word"
begin

text \<open>
  What every other theory of the development shares: the result type, text and the string
  operations of the Rust standard library that the program uses, saturating machine integers,
  the comparison of 64-bit floats, and the collections of facts the component proofs name.

  Text is a list of characters, each standing for one of the code points U+0000 to U+00FF:
  \<open>chars()\<close> is the list itself, \<open>len()\<close> is \<open>utf8_len\<close>, the length of its UTF-8 form.
  White space is Unicode's in that range, which is what \<open>str::trim\<close> and
  \<open>split_whitespace\<close> drop.
\<close>

named_theorems text_simps \<open>equations of the text operations\<close>
named_theorems gate_defs \<open>definitions of the gate predicates\<close>

section \<open>Results\<close>

type_synonym ('e, 'a) result = "'e + 'a"
type_synonym u32 = "32 word"
type_synonym u64 = "64 word"

definition is_ok :: "('e, 'a) result \<Rightarrow> bool" where
  "is_ok r = (case r of Inl _ \<Rightarrow> False | Inr _ \<Rightarrow> True)"

lemma is_ok_simps [simp]: "is_ok (Inr a)" "\<not> is_ok (Inl e)"
  by (simp_all add: is_ok_def)

lemma is_ok_iff: "is_ok r \<longleftrightarrow> (\<exists>a. r = Inr a)"
  by (cases r) auto

text \<open>The operator \<open>?\<close> of Rust: the error returns early, the value goes on.\<close>

definition and_then :: "('e, 'a) result \<Rightarrow> ('a \<Rightarrow> ('e, 'b) result) \<Rightarrow> ('e, 'b) result" where
  "and_then r f = (case r of Inl e \<Rightarrow> Inl e | Inr a \<Rightarrow> f a)"

lemma and_then_simps [simp]: "and_then (Inl e) f = Inl e" "and_then (Inr a) f = f a"
  by (simp_all add: and_then_def)

lemma and_then_Inr_iff: "and_then r f = Inr b \<longleftrightarrow> (\<exists>a. r = Inr a \<and> f a = Inr b)"
  by (cases r) auto

lemma and_then_Inl_iff: "and_then r f = Inl e \<longleftrightarrow> r = Inl e \<or> (\<exists>a. r = Inr a \<and> f a = Inl e)"
  by (cases r) auto

text \<open>\<open>Result::map_err\<close>.\<close>

definition map_err :: "('e \<Rightarrow> 'f) \<Rightarrow> ('e, 'a) result \<Rightarrow> ('f, 'a) result" where
  "map_err f r = (case r of Inl e \<Rightarrow> Inl (f e) | Inr a \<Rightarrow> Inr a)"

lemma map_err_simps [simp]: "map_err f (Inl e) = Inl (f e)" "map_err f (Inr a) = Inr a"
  by (simp_all add: map_err_def)

lemma map_err_Inr_iff [simp]: "map_err f r = Inr a \<longleftrightarrow> r = Inr a"
  by (cases r) auto

lemma sum_unit_cases: "(r :: 'e + unit) = Inr () \<or> (\<exists>e. r = Inl e)"
  by (cases r) auto

section \<open>Lists\<close>

text \<open>The values in the order given, each once: the loop that the program writes as
  \<open>if !kept.contains(x) \<^bold>{ kept.push(x) \<^bold>}\<close>.\<close>

fun keep_new :: "'a list \<Rightarrow> 'a list \<Rightarrow> 'a list" where
  "keep_new kept [] = kept"
| "keep_new kept (x # xs) = keep_new (if x \<in> set kept then kept else kept @ [x]) xs"

definition each_once :: "'a list \<Rightarrow> 'a list" where
  "each_once xs = keep_new [] xs"

lemma set_keep_new: "set (keep_new kept xs) = set kept \<union> set xs"
  by (induction kept xs rule: keep_new.induct) auto

lemma distinct_keep_new: "distinct kept \<Longrightarrow> distinct (keep_new kept xs)"
  by (induction kept xs rule: keep_new.induct) auto

lemma keep_new_distinct:
  "distinct (kept @ xs) \<Longrightarrow> keep_new kept xs = kept @ xs"
  by (induction kept xs rule: keep_new.induct) auto

lemma set_each_once [simp]: "set (each_once xs) = set xs"
  by (simp add: each_once_def set_keep_new)

lemma distinct_each_once [simp]: "distinct (each_once xs)"
  by (simp add: each_once_def distinct_keep_new)

lemma each_once_Nil_iff [simp]: "each_once xs = [] \<longleftrightarrow> xs = []"
  by (metis set_each_once set_empty)

lemma each_once_distinct [simp]: "distinct xs \<Longrightarrow> each_once xs = xs"
  by (simp add: each_once_def keep_new_distinct)

lemma each_once_idem [simp]: "each_once (each_once xs) = each_once xs"
  by simp

lemma count_list_pos_iff: "0 < count_list xs x \<longleftrightarrow> x \<in> set xs"
  by (simp add: count_list_0_iff zero_less_iff_neq_zero)

lemma distinct_iff_count: "distinct xs \<longleftrightarrow> (\<forall>x. count_list xs x \<le> 1)"
proof (induction xs)
  case (Cons y ys)
  have "count_list (y # ys) x \<le> 1 \<longleftrightarrow> (if x = y then y \<notin> set ys else count_list ys x \<le> 1)" for x
    by (simp add: count_list_0_iff)
  moreover have "y \<notin> set ys \<Longrightarrow> count_list ys y \<le> 1"
    by (simp add: count_list_0_iff)
  ultimately show ?case
    using Cons by (metis distinct.simps(2))
qed simp

text \<open>\<open>Iterator::filter_map\<close> and \<open>Iterator::find_map\<close>.\<close>

fun filter_map :: "('a \<Rightarrow> 'b option) \<Rightarrow> 'a list \<Rightarrow> 'b list" where
  "filter_map f [] = []"
| "filter_map f (x # xs) = (case f x of None \<Rightarrow> filter_map f xs | Some y \<Rightarrow> y # filter_map f xs)"

fun find_map :: "('a \<Rightarrow> 'b option) \<Rightarrow> 'a list \<Rightarrow> 'b option" where
  "find_map f [] = None"
| "find_map f (x # xs) = (case f x of None \<Rightarrow> find_map f xs | Some y \<Rightarrow> Some y)"

lemma filter_map_Nil_iff: "filter_map f xs = [] \<longleftrightarrow> (\<forall>x \<in> set xs. f x = None)"
  by (induction xs) (auto split: option.splits)

lemma set_filter_map: "set (filter_map f xs) = {y. \<exists>x \<in> set xs. f x = Some y}"
  by (induction xs) (auto split: option.splits)

lemma filter_map_append [simp]: "filter_map f (xs @ ys) = filter_map f xs @ filter_map f ys"
  by (induction xs) (auto split: option.splits)

lemma find_map_None_iff: "find_map f xs = None \<longleftrightarrow> (\<forall>x \<in> set xs. f x = None)"
  by (induction xs) (auto split: option.splits)

lemma find_map_SomeD: "find_map f xs = Some y \<Longrightarrow> \<exists>x \<in> set xs. f x = Some y"
  by (induction xs) (auto split: option.splits)

lemma find_Some_in: "List.find P xs = Some x \<Longrightarrow> x \<in> set xs \<and> P x"
  by (auto simp: find_Some_iff)

section \<open>Text\<close>

definition code_point :: "char \<Rightarrow> nat" where
  "code_point c = of_char c"

definition is_white_space :: "char \<Rightarrow> bool" where
  "is_white_space c =
     (let n = code_point c in (9 \<le> n \<and> n \<le> 13) \<or> n = 32 \<or> n = 133 \<or> n = 160)"

definition trim_start :: "(char \<Rightarrow> bool) \<Rightarrow> string \<Rightarrow> string" where
  "trim_start p s = dropWhile p s"

definition trim_end :: "(char \<Rightarrow> bool) \<Rightarrow> string \<Rightarrow> string" where
  "trim_end p s = rev (dropWhile p (rev s))"

definition trim_matches :: "(char \<Rightarrow> bool) \<Rightarrow> string \<Rightarrow> string" where
  "trim_matches p s = trim_end p (trim_start p s)"

definition trim :: "string \<Rightarrow> string" where
  "trim s = trim_matches is_white_space s"

definition is_blank :: "string \<Rightarrow> bool" where
  "is_blank s \<longleftrightarrow> trim s = []"

lemma trim_matches_Nil_iff: "trim_matches p s = [] \<longleftrightarrow> (\<forall>c \<in> set s. p c)"
proof
  assume "trim_matches p s = []"
  then have "dropWhile p (rev (dropWhile p s)) = []"
    by (simp add: trim_matches_def trim_end_def trim_start_def)
  then have "\<forall>c \<in> set (dropWhile p s). p c"
    by simp
  then show "\<forall>c \<in> set s. p c"
    by (metis Un_iff set_append set_takeWhileD takeWhile_dropWhile_id)
next
  assume "\<forall>c \<in> set s. p c"
  then show "trim_matches p s = []"
    by (auto simp: trim_matches_def trim_end_def trim_start_def dest: set_dropWhileD)
qed

lemma is_blank_iff: "is_blank s \<longleftrightarrow> (\<forall>c \<in> set s. is_white_space c)"
  by (simp add: is_blank_def trim_def trim_matches_Nil_iff)

lemma set_trim_matches: "set (trim_matches p s) \<subseteq> set s"
proof
  fix c assume "c \<in> set (trim_matches p s)"
  then have "c \<in> set (dropWhile p (rev (dropWhile p s)))"
    by (simp add: trim_matches_def trim_end_def trim_start_def)
  then have "c \<in> set (rev (dropWhile p s))" by (rule set_dropWhileD)
  then show "c \<in> set s" using set_dropWhileD [of c p s] by simp
qed

lemma set_trim: "set (trim s) \<subseteq> set s"
  by (simp add: trim_def set_trim_matches)

lemma trim_matches_hd:
  assumes "trim_matches p s \<noteq> []"
  shows "\<not> p (hd (trim_matches p s))"
proof -
  let ?t = "dropWhile p s"
  have ne: "?t \<noteq> []"
  proof
    assume *: "?t = []"
    from * have "trim_matches p s = []"
      unfolding trim_matches_def trim_start_def trim_end_def * by simp
    with assms show False ..
  qed
  then have hd: "\<not> p (hd ?t)"
    by (simp add: hd_dropWhile)
  obtain d where d: "rev ?t = takeWhile p (rev ?t) @ d" "d = dropWhile p (rev ?t)"
    by simp
  have "?t = rev d @ rev (takeWhile p (rev ?t))"
    using d(1) by (metis rev_append rev_rev_ident)
  moreover have "rev d \<noteq> []"
    using assms d(2) by (simp add: trim_matches_def trim_start_def trim_end_def)
  ultimately have "hd (rev d) = hd ?t"
    by (metis hd_append2)
  with hd d(2) show ?thesis
    by (simp add: trim_matches_def trim_start_def trim_end_def)
qed

lemma trim_matches_last:
  assumes "trim_matches p s \<noteq> []"
  shows "\<not> p (last (trim_matches p s))"
  using assms by (simp add: trim_matches_def trim_end_def trim_start_def last_rev hd_dropWhile)

lemma trim_matches_id:
  "s = [] \<or> (\<not> p (hd s) \<and> \<not> p (last s)) \<Longrightarrow> trim_matches p s = s"
proof (elim disjE conjE)
  assume "\<not> p (hd s)" "\<not> p (last s)"
  show ?thesis
  proof (cases "s = []")
    case False
    have "dropWhile p s = s" using \<open>\<not> p (hd s)\<close> False by (cases s) auto
    moreover have "dropWhile p (rev s) = rev s"
      using \<open>\<not> p (last s)\<close> False by (cases "rev s") (auto simp: last_rev[symmetric] dest: arg_cong[of _ _ rev])
    ultimately show ?thesis by (simp add: trim_matches_def trim_end_def trim_start_def)
  qed (simp add: trim_matches_def trim_end_def trim_start_def)
qed (simp add: trim_matches_def trim_end_def trim_start_def)

lemma trim_matches_idem [simp]: "trim_matches p (trim_matches p s) = trim_matches p s"
  using trim_matches_hd trim_matches_last by (blast intro: trim_matches_id)

lemma trim_idem [simp]: "trim (trim s) = trim s"
  by (simp add: trim_def)

text \<open>\<open>str::split\<close> by one kind of character: never empty, and \<open>''''\<close> gives \<open>['''']\<close>.\<close>

fun split_on :: "(char \<Rightarrow> bool) \<Rightarrow> string \<Rightarrow> string list" where
  "split_on p [] = [[]]"
| "split_on p (c # cs) =
     (if p c then [] # split_on p cs
      else (case split_on p cs of [] \<Rightarrow> [[c]] | s # ss \<Rightarrow> (c # s) # ss))"

fun join :: "string \<Rightarrow> string list \<Rightarrow> string" where
  "join sep [] = []"
| "join sep [s] = s"
| "join sep (s # t # ss) = s @ sep @ join sep (t # ss)"

definition slash_split :: "string \<Rightarrow> string list" where
  "slash_split s = split_on (\<lambda>c. c = CHR ''/'') s"

lemma split_on_not_Nil [simp]: "split_on p s \<noteq> []"
  by (induction s) (auto split: list.splits)

lemma split_on_no_sep: "x \<in> set (split_on p s) \<Longrightarrow> c \<in> set x \<Longrightarrow> \<not> p c \<and> c \<in> set s"
proof (induction s arbitrary: x)
  case (Cons d s)
  show ?case
  proof (cases "p d")
    case True
    with Cons show ?thesis by auto
  next
    case False
    obtain y ys where ys: "split_on p s = y # ys" by (cases "split_on p s") auto
    with False Cons show ?thesis by fastforce
  qed
qed simp

lemma split_on_single: "(\<forall>c \<in> set s. \<not> p c) \<Longrightarrow> split_on p s = [s]"
  by (induction s) auto

lemma split_on_append_sep:
  "(\<forall>c \<in> set s. \<not> p c) \<Longrightarrow> p d \<Longrightarrow> split_on p (s @ d # t) = s # split_on p t"
  by (induction s) auto

lemma split_on_join:
  assumes "xs \<noteq> []" and "\<forall>x \<in> set xs. \<forall>c \<in> set x. \<not> p c" and "p d"
  shows "split_on p (join [d] xs) = xs"
  using assms
proof (induction "[d]" xs rule: join.induct)
  case (3 s t ss)
  then show ?case by (simp add: split_on_append_sep)
qed (auto simp: split_on_single)

lemma join_split_on: "join [d] (split_on (\<lambda>c. c = d) s) = s"
proof (induction s)
  case (Cons c s)
  obtain y ys where ys: "split_on (\<lambda>c. c = d) s = y # ys"
    by (cases "split_on (\<lambda>c. c = d) s") auto
  with Cons show ?case by (cases ys) auto
qed simp

lemma set_join: "set (join sep xs) \<subseteq> (\<Union>x \<in> set xs. set x) \<union> set sep"
  by (induction sep xs rule: join.induct) auto

lemma join_Nil_iff: "join [d] xs = [] \<longleftrightarrow> xs = [] \<or> xs = [[]]"
  by (cases "([d], xs)" rule: join.cases) auto

lemma hd_join: "xs \<noteq> [] \<Longrightarrow> hd xs \<noteq> [] \<Longrightarrow> hd (join sep xs) = hd (hd xs)"
  by (induction sep xs rule: join.induct) auto

definition starts_with :: "string \<Rightarrow> string \<Rightarrow> bool" where
  "starts_with s pre \<longleftrightarrow> take (length pre) s = pre"

definition ends_with :: "string \<Rightarrow> string \<Rightarrow> bool" where
  "ends_with s post \<longleftrightarrow> starts_with (rev s) (rev post)"

definition strip_prefix :: "string \<Rightarrow> string \<Rightarrow> string option" where
  "strip_prefix pre s = (if starts_with s pre then Some (drop (length pre) s) else None)"

definition strip_suffix :: "string \<Rightarrow> string \<Rightarrow> string option" where
  "strip_suffix post s = (if ends_with s post then Some (take (length s - length post) s) else None)"

lemma starts_with_iff: "starts_with s pre \<longleftrightarrow> (\<exists>t. s = pre @ t)"
  by (metis append_eq_conv_conj append_take_drop_id starts_with_def)

lemma starts_with_append [simp]: "starts_with (pre @ t) pre"
  by (auto simp: starts_with_iff)

lemma ends_with_iff: "ends_with s post \<longleftrightarrow> (\<exists>t. s = t @ post)"
  unfolding ends_with_def starts_with_iff
  by (metis rev_append rev_rev_ident)

lemma strip_prefix_Some_iff: "strip_prefix pre s = Some t \<longleftrightarrow> s = pre @ t"
  by (auto simp: strip_prefix_def starts_with_iff)

lemma strip_suffix_Some_iff: "strip_suffix post s = Some t \<longleftrightarrow> s = t @ post"
  by (auto simp: strip_suffix_def ends_with_iff)

lemma strip_suffix_append [simp]: "strip_suffix post (t @ post) = Some t"
  by (simp add: strip_suffix_Some_iff)

definition contains_any :: "char list \<Rightarrow> string \<Rightarrow> bool" where
  "contains_any cs s \<longleftrightarrow> list_ex (\<lambda>c. c \<in> set cs) s"

lemma contains_any_iff: "contains_any cs s \<longleftrightarrow> (\<exists>c \<in> set s. c \<in> set cs)"
  by (simp add: contains_any_def list_ex_iff)

text \<open>Whether a text holds another, as \<open>str::contains\<close> of a string asks.\<close>

fun has_substring :: "string \<Rightarrow> string \<Rightarrow> bool" where
  "has_substring pat [] \<longleftrightarrow> pat = []"
| "has_substring pat (c # s) \<longleftrightarrow> starts_with (c # s) pat \<or> has_substring pat s"

definition replace_char :: "char \<Rightarrow> char \<Rightarrow> string \<Rightarrow> string" where
  "replace_char a b s = map (\<lambda>c. if c = a then b else c) s"

definition is_upper_ascii :: "char \<Rightarrow> bool" where
  "is_upper_ascii c = (65 \<le> code_point c \<and> code_point c \<le> 90)"

definition is_lower_ascii :: "char \<Rightarrow> bool" where
  "is_lower_ascii c = (97 \<le> code_point c \<and> code_point c \<le> 122)"

definition is_digit_ascii :: "char \<Rightarrow> bool" where
  "is_digit_ascii c = (48 \<le> code_point c \<and> code_point c \<le> 57)"

definition is_alphanumeric_ascii :: "char \<Rightarrow> bool" where
  "is_alphanumeric_ascii c = (is_upper_ascii c \<or> is_lower_ascii c \<or> is_digit_ascii c)"

definition to_lower_ascii :: "char \<Rightarrow> char" where
  "to_lower_ascii c = (if is_upper_ascii c then char_of (code_point c + 32) else c)"

text \<open>\<open>str::to_lowercase\<close> in the range of the model: the letters A to Z, and U+00C0 to U+00DE
  but the multiplication sign U+00D7.\<close>

definition to_lower_char :: "char \<Rightarrow> char" where
  "to_lower_char c =
     (if is_upper_ascii c \<or> (192 \<le> code_point c \<and> code_point c \<le> 222 \<and> code_point c \<noteq> 215)
      then char_of (code_point c + 32) else c)"

definition eq_ignore_ascii_case :: "string \<Rightarrow> string \<Rightarrow> bool" where
  "eq_ignore_ascii_case a b \<longleftrightarrow> map to_lower_ascii a = map to_lower_ascii b"

definition utf8_len :: "string \<Rightarrow> nat" where
  "utf8_len s = (\<Sum>c \<leftarrow> s. if code_point c < 128 then 1 else 2)"

lemma length_le_utf8_len: "length s \<le> utf8_len s"
  by (induction s) (auto simp: utf8_len_def)

lemma to_lower_ascii_idem [simp]: "to_lower_ascii (to_lower_ascii c) = to_lower_ascii c"
proof (cases "is_upper_ascii c")
  case True
  then have "code_point (char_of (code_point c + 32)) = code_point c + 32"
    by (simp add: is_upper_ascii_def code_point_def of_char_of)
  with True show ?thesis by (simp add: to_lower_ascii_def is_upper_ascii_def)
qed (simp add: to_lower_ascii_def)

lemma eq_ignore_ascii_case_refl [simp]: "eq_ignore_ascii_case a a"
  by (simp add: eq_ignore_ascii_case_def)

lemma eq_ignore_ascii_case_sym: "eq_ignore_ascii_case a b = eq_ignore_ascii_case b a"
  by (auto simp: eq_ignore_ascii_case_def)

section \<open>Machine integers\<close>

text \<open>\<open>saturating_add\<close>, \<open>checked_mul\<close>, and a \<open>u64\<close> read as a \<open>u32\<close> that saturates.\<close>

definition saturating_add :: "'l::len word \<Rightarrow> 'l word \<Rightarrow> 'l word" where
  "saturating_add a b = (if unat a + unat b < 2 ^ LENGTH('l) then a + b else -1)"

definition checked_mul :: "'l::len word \<Rightarrow> 'l word \<Rightarrow> 'l word option" where
  "checked_mul a b = (if unat a * unat b < 2 ^ LENGTH('l) then Some (a * b) else None)"

definition u32_saturating :: "u64 \<Rightarrow> u32" where
  "u32_saturating w = (if unat w < 2 ^ 32 then ucast w else -1)"

lemma unat_minus_1: "unat (-1 :: 'l::len word) = 2 ^ LENGTH('l) - 1"
  by (simp add: unsigned_minus_1_eq_mask mask_eq_exp_minus_1)

lemma unat_saturating_add:
  "unat (saturating_add a (b :: 'l::len word)) = min (unat a + unat b) (2 ^ LENGTH('l) - 1)"
  by (auto simp: saturating_add_def unat_word_ariths unat_minus_1 min_def)

lemma saturating_add_ge: "(a :: 'l::len word) \<le> saturating_add a b"
proof -
  have "unat a < 2 ^ LENGTH('l)" by (rule unsigned_less)
  then have "unat a \<le> 2 ^ LENGTH('l) - 1" by linarith
  then show ?thesis by (simp add: word_le_nat_alt unat_saturating_add)
qed

lemma checked_mul_Some: "checked_mul a b = Some c \<Longrightarrow> unat c = unat a * unat b"
  by (auto simp: checked_mul_def unat_word_ariths split: if_splits)

lemma unat_u32_saturating: "unat (u32_saturating w) = min (unat w) (2 ^ 32 - 1)"
  by (auto simp: u32_saturating_def unsigned_ucast_eq unat_minus_1 min_def take_bit_nat_eq_self)

section \<open>64-bit floats\<close>

text \<open>A float as its value: a finite float is the rational number it is, so comparing two is
  comparing those. Nothing here rounds; where the program adds floats the sum is a parameter.\<close>

datatype f64 = Finite rat | Pos_Infinity | Neg_Infinity | Not_a_number

fun partial_less :: "f64 \<Rightarrow> f64 \<Rightarrow> bool option" where
  "partial_less Not_a_number _ = None"
| "partial_less _ Not_a_number = None"
| "partial_less (Finite a) (Finite b) = Some (a < b)"
| "partial_less Neg_Infinity b = Some (b \<noteq> Neg_Infinity)"
| "partial_less a Neg_Infinity = Some False"
| "partial_less a Pos_Infinity = Some (a \<noteq> Pos_Infinity)"
| "partial_less Pos_Infinity b = Some False"

text \<open>\<open>partial_cmp\<close> answers \<open>Less\<close>, and \<open>Less\<close> or \<open>Equal\<close>.\<close>

definition float_less :: "f64 \<Rightarrow> f64 \<Rightarrow> bool" where
  "float_less a b \<longleftrightarrow> partial_less a b = Some True"

definition float_le :: "f64 \<Rightarrow> f64 \<Rightarrow> bool" where
  "float_le a b \<longleftrightarrow> partial_less b a = Some False"

lemma float_less_simps [simp]:
  "\<not> float_less Not_a_number b" "\<not> float_less a Not_a_number"
  "float_less (Finite x) (Finite y) \<longleftrightarrow> x < y"
  by (cases a; simp add: float_less_def)+

lemma float_le_simps [simp]:
  "\<not> float_le Not_a_number b" "\<not> float_le a Not_a_number"
  "float_le (Finite x) (Finite y) \<longleftrightarrow> x \<le> y"
  by (cases b; cases a; auto simp add: float_le_def)+

lemma float_less_or_le:
  "a \<noteq> Not_a_number \<Longrightarrow> b \<noteq> Not_a_number \<Longrightarrow> float_less a b \<longleftrightarrow> \<not> float_le b a"
  by (cases a; cases b) (auto simp: float_less_def float_le_def)

lemma float_le_trans: "float_le a b \<Longrightarrow> float_le b c \<Longrightarrow> float_le a c"
  by (cases a; cases b; cases c) (auto simp: float_le_def)

end
