(* ===== verification/Texts.thy ===== *)
theory Texts
  imports Prelude
begin

text \<open>
  crates/core/src/text.rs: the shared pieces of English that refusals are built from, and the
  count of a text's tokens.
\<close>

text \<open>A quarter of the characters, rounded up (\<open>div_ceil(4)\<close>).\<close>

definition tokens :: "string \<Rightarrow> nat" where
  "tokens text = (length text + 3) div 4"

definition without_repeats :: "string list \<Rightarrow> string list" where
  "without_repeats values = each_once values"

definition distinct_text :: "string list \<Rightarrow> string" where
  "distinct_text values = join '', '' (without_repeats values)"

definition listed :: "string \<Rightarrow> string \<Rightarrow> string list \<Rightarrow> string" where
  "listed singular plural values =
     (let named = without_repeats values;
          word = (if length named = 1 then singular else plural)
      in word @ '' '' @ join '', '' named)"

lemma tokens_bounds: "length t \<le> 4 * tokens t \<and> 4 * tokens t < length t + 4"
  unfolding tokens_def by presburger

lemma tokens_append_le: "tokens (s @ t) \<le> tokens s + tokens t"
  unfolding tokens_def by simp

lemma listed_singular:
  "without_repeats values = [v] \<Longrightarrow> listed s p values = s @ '' '' @ v"
  by (simp add: listed_def)

end
