(* ===== verification/Contract.thy ===== *)
theory Contract
  imports Texts
begin

text \<open>
  crates/core/src/contract.rs and the types it re-exports: the task contract of
  docs/schemas/task-contract.schema.json, from which \<open>typify\<close> generates the Rust types when the
  crate is built. A field the schema makes optional is an option, a bounded or unbounded
  non-negative integer a \<open>u64\<close>, a number a float, an array a list.

  Not here: the JSON Schema validator itself, which is a library's. What \<open>validate_contract\<close>
  adds to it, that no two criteria or requirements share an id, is \<open>repeated_ids\<close>.
\<close>

section \<open>The schema's types\<close>

datatype task_status =
    Draft | Refining | Ready | Assigned | InProgress | Blocked | Verifying | Rejected
  | Accepted | Escalated | Cancelled

datatype role =
    ProductManager | ScrumMaster | Architect | SoftwareDeveloper | MarketingSpecialist
  | UiUxDesigner | FinanceSpecialist | ProcurementSpecialist | HumanRole

datatype kind = Epic | Task

datatype risk = Low | Medium | High

datatype change = Feature | Fix

text \<open>A verification on the wire: the shape its fields have, numbered as the generated enum
  numbers it, and the \<open>method\<close> written beside them, which is a plain JSON value there and so need
  not be a string and need not name that shape.\<close>

datatype verification_wire =
    Variant0 "string option" string int "string option" "string option"
      \<comment> \<open>method, command, expect.exit_code, stdout_contains, stdout_not_contains\<close>
  | Variant1 "string option" string bool \<comment> \<open>method, command, new_tests_required\<close>
  | Variant2 "string option" string "string list" \<comment> \<open>method, path, must_contain\<close>
  | Variant3 "string option" "string list" \<comment> \<open>method, rubric\<close>
  | Variant4 "string option" string \<comment> \<open>method, question\<close>

record exit_criterion =
  criterion_id :: string
  criterion_text :: string
  satisfies :: "string list"
  criterion_verification :: verification_wire

record requirement =
  requirement_id :: string
  requirement_text :: string
  rationale :: "string option"

record budget =
  max_cost_usd :: f64
  max_sessions :: u64
  max_iterations_field :: u64

record task_contract =
  task_id :: string
  title :: string
  kind_of :: kind
  parent :: "string option"
  intent :: string
  in_scope :: "string list"
  out_of_scope :: "string list"
  requirements :: "requirement list"
  exit_criteria :: "exit_criterion list"
  dependencies :: "string list"
  assignee_role :: role
  reviewer_role :: role
  contract_risk :: risk
  contract_change :: "change option"
  ui_change :: "bool option"
  plan :: "string option"
  lane :: "u64 option"
  repo :: "string option"
  branch :: "string option"
  contract_budget :: budget
  allowed_paths :: "string list"
  status :: task_status
  locked :: bool
  assignee :: "string option"
  reviewer :: "string option"
  iteration_field :: u64

text \<open>The fields of the schema that no modelled function reads are left out: \<open>summary\<close>,
  \<open>constraints\<close>, \<open>references\<close>, \<open>sprint\<close>, \<open>notes\<close>, \<open>created_by\<close>, \<open>created_at\<close>, \<open>updated_at\<close>.\<close>

section \<open>The verification methods\<close>

datatype verification =
    Command string int "string option" "string option"
  | Test string bool
  | Artifact string "string list"
  | Review "string list"
  | Human string

fun verification_from :: "verification_wire \<Rightarrow> verification" where
  "verification_from (Variant0 _ command exit_code has lacks) = Command command exit_code has lacks"
| "verification_from (Variant1 _ command new_tests) = Test command new_tests"
| "verification_from (Variant2 _ path must_contain) = Artifact path must_contain"
| "verification_from (Variant3 _ rubric) = Review rubric"
| "verification_from (Variant4 _ question) = Human question"

fun verification_method :: "verification \<Rightarrow> string" where
  "verification_method (Command _ _ _ _) = ''command''"
| "verification_method (Test _ _) = ''test''"
| "verification_method (Artifact _ _) = ''artifact''"
| "verification_method (Review _) = ''review''"
| "verification_method (Human _) = ''human''"

fun wire_method :: "verification_wire \<Rightarrow> string option" where
  "wire_method (Variant0 method _ _ _ _) = method"
| "wire_method (Variant1 method _ _) = method"
| "wire_method (Variant2 method _ _) = method"
| "wire_method (Variant3 method _) = method"
| "wire_method (Variant4 method _) = method"

text \<open>A verification whose \<open>method\<close> names the shape its fields have: what
  \<open>CriteriaMethodsValid\<close> asks of each criterion.\<close>

definition method_fits :: "verification_wire \<Rightarrow> bool" where
  "method_fits v \<longleftrightarrow> wire_method v = Some (verification_method (verification_from v))"

definition criterion_method :: "exit_criterion \<Rightarrow> string option" where
  "criterion_method c = wire_method (criterion_verification c)"

definition criterion_shape :: "exit_criterion \<Rightarrow> verification" where
  "criterion_shape c = verification_from (criterion_verification c)"

definition reviews_its_own :: "role \<Rightarrow> bool" where
  "reviews_its_own r \<longleftrightarrow> r = ProductManager"

section \<open>Ids that repeat\<close>

text \<open>The loop of \<open>repeated_ids\<close>: \<open>seen\<close> and \<open>reported\<close> are its two sets, \<open>repeated\<close> what it has
  pushed. \<open>insert\<close> answers whether the value is new, and \<open>reported\<close> is asked only when it is not.\<close>

fun repeated_ids_loop :: "string list \<Rightarrow> string list \<Rightarrow> string list \<Rightarrow> string list \<Rightarrow> string list" where
  "repeated_ids_loop seen reported repeated [] = repeated"
| "repeated_ids_loop seen reported repeated (i # ids) =
     (if i \<notin> set seen then repeated_ids_loop (i # seen) reported repeated ids
      else if i \<notin> set reported
           then repeated_ids_loop seen (i # reported) (repeated @ [i]) ids
           else repeated_ids_loop seen reported repeated ids)"

definition repeated_ids :: "string list \<Rightarrow> string list" where
  "repeated_ids ids = repeated_ids_loop [] [] [] ids"

definition named :: "string list \<Rightarrow> string" where
  "named ids =
     listed ''the id'' ''the ids'' ids @ '' '' @ (if length ids = 1 then ''names'' else ''name'')"

text \<open>What \<open>validate_contract\<close> asks once the schema passed and the typed contract was built: the
  two arrays in which an id may not repeat, one error each, at the array's path.\<close>

datatype validation_error = RepeatedIds string string \<comment> \<open>path, the ids as the message names them\<close>

definition validate_ids :: "task_contract \<Rightarrow> (validation_error list, task_contract) result" where
  "validate_ids contract =
     (let criteria = repeated_ids (map criterion_id (exit_criteria contract));
          reqs = repeated_ids (map requirement_id (requirements contract));
          errors = (if criteria = [] then [] else [RepeatedIds ''/exit_criteria'' (named criteria)])
                 @ (if reqs = [] then [] else [RepeatedIds ''/requirements'' (named reqs)])
      in if errors \<noteq> [] then Inl errors else Inr contract)"

lemma repeated_ids_loop_set:
  assumes "set repeated = set reported" and "distinct repeated" and "set reported \<subseteq> set seen"
  shows "set (repeated_ids_loop seen reported repeated ids)
           = set repeated \<union> {i. (i \<in> set seen \<and> i \<in> set ids) \<or> 1 < count_list ids i}
         \<and> distinct (repeated_ids_loop seen reported repeated ids)"
  using assms
proof (induction seen reported repeated ids rule: repeated_ids_loop.induct)
  case (1 seen reported repeated)
  then show ?case by auto
next
  case (2 seen reported repeated i ids)
  have more: "1 < count_list ids j \<Longrightarrow> j \<in> set ids" for j
    by (simp flip: count_list_pos_iff)
  show ?case
  proof (cases "i \<in> set seen")
    case False
    then show ?thesis using 2 by (auto simp: count_list_pos_iff count_list_0_iff subset_insertI2 dest: more)
  next
    case seen: True
    show ?thesis
    proof (cases "i \<in> set reported")
      case True
      then show ?thesis using 2 seen by (auto simp: count_list_pos_iff count_list_0_iff subset_insertI2 dest: more)
    next
      case False
      then show ?thesis using 2 seen by (auto simp: count_list_pos_iff count_list_0_iff subset_insertI2 dest: more)
    qed
  qed
qed

lemma repeated_ids_spec:
  "set (repeated_ids ids) = {i. 1 < count_list ids i}" "distinct (repeated_ids ids)"
  using repeated_ids_loop_set [of "[]" "[]" "[]" ids] by (simp_all add: repeated_ids_def)

lemma repeated_ids_Nil_iff: "repeated_ids ids = [] \<longleftrightarrow> distinct ids"
proof -
  have "repeated_ids ids = [] \<longleftrightarrow> {i. 1 < count_list ids i} = {}"
    by (metis repeated_ids_spec(1) set_empty)
  also have "\<dots> \<longleftrightarrow> distinct ids"
    by (auto simp: distinct_iff_count not_less)
  finally show ?thesis .
qed

end
