(* ===== verification/Task_Status.thy ===== *)
theory Task_Status
  imports Contract
begin

text \<open>
  crates/core/src/governor/task\_status.rs: the statuses of the lifecycle in the schema's order,
  which of them are terminal, and which count towards an assignee's work-in-progress limit.
\<close>

definition TASK_STATUSES :: "task_status list" where
  "TASK_STATUSES =
     [Draft, Refining, Ready, Assigned, InProgress, Blocked, Verifying, Rejected, Accepted,
      Escalated, Cancelled]"

fun is_terminal :: "task_status \<Rightarrow> bool" where
  "is_terminal Accepted = True"
| "is_terminal Cancelled = True"
| "is_terminal _ = False"

fun counts_towards_wip :: "task_status \<Rightarrow> bool" where
  "counts_towards_wip Assigned = True"
| "counts_towards_wip InProgress = True"
| "counts_towards_wip Rejected = True"
| "counts_towards_wip _ = False"

lemma is_terminal_iff: "is_terminal s \<longleftrightarrow> s = Accepted \<or> s = Cancelled"
  by (cases s) auto

lemma TASK_STATUSES_complete: "s \<in> set TASK_STATUSES" "distinct TASK_STATUSES"
  by (cases s) (simp_all add: TASK_STATUSES_def)

lemma all_task_status: "(\<forall>s. P s) \<longleftrightarrow> list_all P TASK_STATUSES"
  using TASK_STATUSES_complete(1) by (auto simp: list_all_iff)

end
