(* ===== verification/Paths.thy ===== *)
theory Paths
  imports Prelude
begin

text \<open>
  crates/core/src/governor/paths.rs: which files a task may change, and which no tool may touch.

  The glob engine is the crate \<open>globset\<close>, whose code is not in the repository: it is the parameter
  \<open>glob_engine\<close>, what building one pattern answers and what a built pattern matches, for the
  two options the program sets (\<open>literal_separator\<close>, \<open>case_insensitive\<close>).
\<close>

section \<open>The glob engine\<close>

record glob_engine =
  glob_fault :: "bool \<Rightarrow> bool \<Rightarrow> string \<Rightarrow> string option"
    \<comment> \<open>literal separator, case insensitive, pattern: the engine's words when it does not compile\<close>
  glob_match :: "bool \<Rightarrow> bool \<Rightarrow> string \<Rightarrow> string \<Rightarrow> bool"
    \<comment> \<open>literal separator, case insensitive, pattern, path\<close>
  globset_fault :: "bool \<Rightarrow> bool \<Rightarrow> string list \<Rightarrow> (string \<times> string) option"
    \<comment> \<open>the set's own error, its pattern and words: the regular expression engine's size limit\<close>

section \<open>Refusals\<close>

record path_violation = violating_path :: string

datatype glob_error = Invalid string string \<comment> \<open>pattern, detail\<close>

datatype path_refusal = Violations "path_violation list" | Glob glob_error

definition refuse :: "string list \<Rightarrow> (path_refusal, unit) result" where
  "refuse violations =
     (let vs = map (\<lambda>p. \<lparr>violating_path = p\<rparr>) violations
      in if vs = [] then Inr () else Inl (Violations vs))"

text \<open>A compiled set: whether letter case is ignored, and its patterns.\<close>

type_synonym glob_set = "bool \<times> string list"

fun first_fault :: "glob_engine \<Rightarrow> bool \<Rightarrow> string list \<Rightarrow> glob_error option" where
  "first_fault g ci [] = None"
| "first_fault g ci (pattern # patterns) =
     (case glob_fault g True ci pattern of
        Some detail \<Rightarrow> Some (Invalid pattern detail)
      | None \<Rightarrow> first_fault g ci patterns)"

definition compile :: "glob_engine \<Rightarrow> string list \<Rightarrow> bool \<Rightarrow> (path_refusal, glob_set) result" where
  "compile g globs ci =
     (case first_fault g ci globs of
        Some e \<Rightarrow> Inl (Glob e)
      | None \<Rightarrow> (case globset_fault g True ci globs of
                  Some (pattern, detail) \<Rightarrow> Inl (Glob (Invalid pattern detail))
                | None \<Rightarrow> Inr (ci, globs)))"

definition is_match :: "glob_engine \<Rightarrow> glob_set \<Rightarrow> string \<Rightarrow> bool" where
  "is_match g gs path = list_ex (\<lambda>glob. glob_match g True (fst gs) glob path) (snd gs)"

section \<open>Paths\<close>

definition backslash :: char where "backslash = CHR 0x5C"

definition unified :: "string \<Rightarrow> string" where
  "unified path = replace_char backslash (CHR ''/'') path"

text \<open>The segments of a path, the empty and \<open>.\<close> ones dropped.\<close>

definition segments :: "string \<Rightarrow> string list" where
  "segments path = filter (\<lambda>s. s \<noteq> [] \<and> s \<noteq> ''.'') (slash_split path)"

definition is_absolute :: "string \<Rightarrow> bool" where
  "is_absolute u \<longleftrightarrow> starts_with u ''/'' \<or> (1 < length u \<and> u ! 1 = CHR '':'')"

definition normalise :: "string \<Rightarrow> string option" where
  "normalise path =
     (let u = unified path; segs = segments u in
      if is_absolute u \<or> segs = [] \<or> ''..'' \<in> set segs then None
      else Some (join ''/'' segs))"

section \<open>The two checks\<close>

definition check_allowed_paths ::
  "glob_engine \<Rightarrow> string list \<Rightarrow> string list \<Rightarrow> (path_refusal, unit) result" where
  "check_allowed_paths g changed allowed_globs =
     and_then (compile g allowed_globs False) (\<lambda>allowed.
       refuse (filter (\<lambda>path. case normalise path of
                                None \<Rightarrow> True
                              | Some p \<Rightarrow> \<not> is_match g allowed p) changed))"

definition ENV_TEMPLATES :: "string list" where
  "ENV_TEMPLATES = [''.env.example'', ''.env.sample'', ''.env.template'']"

definition is_env_template :: "string \<Rightarrow> bool" where
  "is_env_template path =
     (let name = last (slash_split path)
      in list_ex (\<lambda>template. eq_ignore_ascii_case name template) ENV_TEMPLATES)"

definition named_exactly :: "string \<Rightarrow> string list \<Rightarrow> bool" where
  "named_exactly path globs =
     list_ex (\<lambda>glob. case normalise glob of
                       None \<Rightarrow> False
                     | Some gl \<Rightarrow> eq_ignore_ascii_case gl path) globs"

definition is_protected :: "glob_engine \<Rightarrow> string list \<Rightarrow> glob_set \<Rightarrow> string \<Rightarrow> bool" where
  "is_protected g protected_globs protected path =
     (if is_env_template path then named_exactly path protected_globs
      else is_match g protected path \<or> is_match g protected (path @ ''/x''))"

definition check_protected_paths ::
  "glob_engine \<Rightarrow> string list \<Rightarrow> string list \<Rightarrow> (path_refusal, unit) result" where
  "check_protected_paths g paths protected_globs =
     and_then (compile g protected_globs True) (\<lambda>protected.
       refuse (filter (\<lambda>path. case normalise path of
                                None \<Rightarrow> True
                              | Some p \<Rightarrow> is_protected g protected_globs protected p) paths))"

definition matches_an_unnamed_env_template :: "glob_engine \<Rightarrow> string \<Rightarrow> string list \<Rightarrow> bool" where
  "matches_an_unnamed_env_template g glob protected_globs =
     (case glob_fault g True True glob of
        Some _ \<Rightarrow> False
      | None \<Rightarrow>
          list_ex (\<lambda>template.
            (glob_match g True True glob template \<or> glob_match g True True glob (''dir/'' @ template))
            \<and> \<not> named_exactly template protected_globs) ENV_TEMPLATES)"

section \<open>Brace alternatives\<close>

text \<open>A text cut at the first of a character: before it and after it.\<close>

definition break_at :: "char \<Rightarrow> string \<Rightarrow> (string \<times> string) option" where
  "break_at c s =
     (if c \<in> set s then Some (takeWhile (\<lambda>d. d \<noteq> c) s, tl (dropWhile (\<lambda>d. d \<noteq> c) s)) else None)"

lemma break_at_Some:
  assumes "break_at c s = Some (a, b)"
  shows "s = a @ c # b" and "c \<notin> set a"
proof -
  from assms have c: "c \<in> set s" and a: "a = takeWhile (\<lambda>d. d \<noteq> c) s"
    and b: "b = tl (dropWhile (\<lambda>d. d \<noteq> c) s)"
    by (auto simp: break_at_def split: if_splits)
  from c obtain e t where d: "dropWhile (\<lambda>d. d \<noteq> c) s = e # t" and "e = c"
    by (cases "dropWhile (\<lambda>d. d \<noteq> c) s") (auto simp: dropWhile_eq_Cons_conv dest: set_dropWhileD)
  with a b show "s = a @ c # b"
    by (metis list.sel(3) takeWhile_dropWhile_id)
  show "c \<notin> set a" using a by (auto dest: set_takeWhileD)
qed

lemma break_at_None_iff: "break_at c s = None \<longleftrightarrow> c \<notin> set s"
  by (simp add: break_at_def)

lemma choice_has_fewer_braces:
  assumes "break_at (CHR ''{'') glob = Some (before, rest)"
    and "break_at (CHR ''}'') rest = Some (inside, after)"
    and choice: "choice \<in> set (split_on (\<lambda>c. c = CHR '','') inside)"
  shows "count_list (before @ choice @ after) (CHR ''}'') < count_list glob (CHR ''}'')"
proof -
  from assms(1,2) have glob: "glob = before @ CHR ''{'' # inside @ CHR ''}'' # after"
    and inside: "CHR ''}'' \<notin> set inside"
    using break_at_Some by blast+
  from inside choice have "CHR ''}'' \<notin> set choice"
    using split_on_no_sep by blast
  with glob inside show ?thesis by (simp add: count_list_0_iff)
qed

function expand_braces :: "string \<Rightarrow> string list" where
  "expand_braces glob =
     (case break_at (CHR ''{'') glob of
        None \<Rightarrow> [glob]
      | Some (before, rest) \<Rightarrow>
          (case break_at (CHR ''}'') rest of
             None \<Rightarrow> [glob]
           | Some (inside, after) \<Rightarrow>
               concat (map (\<lambda>choice. expand_braces (before @ choice @ after))
                         (split_on (\<lambda>c. c = CHR '','') inside))))"
  by pat_completeness auto
termination
  by (relation "measure (\<lambda>glob. count_list glob (CHR ''}''))")
    (auto simp del: count_list_append intro: choice_has_fewer_braces)

declare expand_braces.simps [simp del]

section \<open>What a glob could reach\<close>

definition is_a_wildcard :: "string \<Rightarrow> bool" where
  "is_a_wildcard segment = contains_any [CHR ''*'', CHR ''?'', CHR ''[''] segment"

definition CATERVAS_DIRECTORY :: string where
  "CATERVAS_DIRECTORY = ''.catervas''"

definition reaches_the_catervas_directory :: "glob_engine \<Rightarrow> string \<Rightarrow> bool" where
  "reaches_the_catervas_directory g glob =
     list_ex (\<lambda>alternative.
       (case segments alternative of
          [] \<Rightarrow> False
        | first # rest \<Rightarrow>
            if has_substring ''**'' first then True
            else
              let names_it = (case glob_fault g False True first of
                                Some _ \<Rightarrow> True
                              | None \<Rightarrow> glob_match g False True first CATERVAS_DIRECTORY);
                  is_wildcard = is_a_wildcard first
              in names_it \<and> (rest \<noteq> [] \<or> \<not> is_wildcard)))
       (expand_braces (unified glob))"

definition compiles :: "glob_engine \<Rightarrow> string \<Rightarrow> bool" where
  "compiles g segment \<longleftrightarrow> glob_fault g False False segment = None"

definition names :: "glob_engine \<Rightarrow> string \<Rightarrow> string \<Rightarrow> bool" where
  "names g segment directory \<longleftrightarrow>
     glob_fault g False True segment = None \<and> glob_match g False True segment directory"

text \<open>The loop over the segments and the folder's, with its two early returns.\<close>

fun walk_folder :: "glob_engine \<Rightarrow> string list \<Rightarrow> string list \<Rightarrow> bool option" where
  "walk_folder g (segment # segs) (directory # dirs) =
     (if has_substring ''**'' segment \<or> \<not> compiles g segment then Some True
      else if \<not> names g segment directory then Some False
      else walk_folder g segs dirs)"
| "walk_folder g _ _ = None"

definition reaches_the_folder :: "glob_engine \<Rightarrow> string \<Rightarrow> string \<Rightarrow> bool" where
  "reaches_the_folder g glob folder =
     (let dirs = slash_split folder in
      list_ex (\<lambda>alternative.
        (let segs = segments alternative in
         if segs = [] then False
         else (case walk_folder g segs dirs of
                 Some answer \<Rightarrow> answer
               | None \<Rightarrow> length dirs < length segs \<or> \<not> is_a_wildcard (last segs))))
        (expand_braces (unified glob)))"

definition literal_folder :: "string \<Rightarrow> string" where
  "literal_folder glob =
     (let segs = segments glob;
          wild = takeWhile (\<lambda>s. \<not> contains_any [CHR ''*'', CHR ''?'', CHR ''['', CHR ''{''] s) segs
      in join ''/'' (if length wild < length segs then wild else butlast segs))"

section \<open>Whether two globs could meet\<close>

definition alternatives :: "string \<Rightarrow> string list option list" where
  "alternatives glob =
     map (\<lambda>alternative.
            (let segs = segments alternative in
             if ''..'' \<notin> set segs
             then Some (map (map to_lower_char) (takeWhile (\<lambda>s. \<not> is_a_wildcard s) segs))
             else None))
       (expand_braces (unified glob))"

fun prefixes_meet :: "string list option \<Rightarrow> string list option \<Rightarrow> bool" where
  "prefixes_meet (Some a) (Some b) = list_all (\<lambda>(x, y). x = y) (zip a b)"
| "prefixes_meet _ _ = True"

definition could_overlap :: "string \<Rightarrow> string \<Rightarrow> bool" where
  "could_overlap a b =
     list_ex (\<lambda>x. list_ex (\<lambda>y. prefixes_meet x y) (alternatives b)) (alternatives a)"

section \<open>What a normalised path is\<close>

definition clean_segment :: "string \<Rightarrow> bool" where
  "clean_segment s \<longleftrightarrow>
     s \<noteq> [] \<and> s \<noteq> ''.'' \<and> s \<noteq> ''..'' \<and> CHR ''/'' \<notin> set s \<and> backslash \<notin> set s"

definition clean_path :: "string \<Rightarrow> bool" where
  "clean_path q \<longleftrightarrow> (\<exists>segs. segs \<noteq> [] \<and> q = join ''/'' segs \<and> (\<forall>s \<in> set segs. clean_segment s))"

lemma unified_no_backslash: "backslash \<notin> set (unified p)"
  by (auto simp: unified_def replace_char_def backslash_def split: if_splits)

lemma unified_id: "backslash \<notin> set p \<Longrightarrow> unified p = p"
  unfolding unified_def replace_char_def by (rule map_idI) auto

lemma unified_unified [simp]: "unified (unified p) = unified p"
  by (simp add: unified_id unified_no_backslash)

lemma segments_clean:
  "s \<in> set (segments u) \<Longrightarrow> s \<noteq> [] \<and> s \<noteq> ''.'' \<and> CHR ''/'' \<notin> set s \<and> set s \<subseteq> set u"
  unfolding segments_def slash_split_def using split_on_no_sep [of s "\<lambda>c. c = CHR ''/''" u] by auto

lemma segments_join:
  assumes "segs \<noteq> []" and "\<forall>s \<in> set segs. s \<noteq> [] \<and> s \<noteq> ''.'' \<and> CHR ''/'' \<notin> set s"
  shows "segments (join ''/'' segs) = segs"
proof -
  have "slash_split (join [CHR ''/''] segs) = segs"
    unfolding slash_split_def using assms by (intro split_on_join) auto
  with assms(2) show ?thesis by (simp add: segments_def)
qed

lemma normalise_Some:
  assumes "normalise p = Some q"
  shows "segments (unified p) \<noteq> []" and "q = join ''/'' (segments (unified p))"
    and "\<forall>s \<in> set (segments (unified p)). clean_segment s"
proof -
  from assms show 1: "segments (unified p) \<noteq> []" and "q = join ''/'' (segments (unified p))"
    by (auto simp: normalise_def Let_def split: if_splits)
  from assms have "''..'' \<notin> set (segments (unified p))"
    by (auto simp: normalise_def Let_def split: if_splits)
  then show "\<forall>s \<in> set (segments (unified p)). clean_segment s"
    using segments_clean [of _ "unified p"] unified_no_backslash [of p]
    by (auto simp: clean_segment_def)
qed

lemma normalise_clean: "normalise p = Some q \<Longrightarrow> clean_path q"
  unfolding clean_path_def using normalise_Some by blast

lemma clean_path_props:
  assumes "clean_path q"
  shows "q \<noteq> []" and "\<not> starts_with q ''/''" and "backslash \<notin> set q" and "unified q = q"
    and "''..'' \<notin> set (segments q)" and "segments q \<noteq> []" and "join ''/'' (segments q) = q"
proof -
  from assms obtain segs where segs: "segs \<noteq> []" "q = join ''/'' segs"
      "\<forall>s \<in> set segs. clean_segment s"
    by (auto simp: clean_path_def)
  from segs(1,3) have hd: "clean_segment (hd segs)" by simp
  then have hd_ne: "hd segs \<noteq> []" by (simp add: clean_segment_def)
  then have "segs \<noteq> [[]]" by auto
  with segs(1,2) show ne: "q \<noteq> []" by (simp add: join_Nil_iff)
  have "hd q = hd (hd segs)" using segs(1,2) hd_ne by (simp add: hd_join)
  moreover have "hd (hd segs) \<in> set (hd segs)" using hd_ne by simp
  ultimately have "hd q \<noteq> CHR ''/''" using hd unfolding clean_segment_def by metis
  with ne show "\<not> starts_with q ''/''"
    by (cases q) (auto simp: starts_with_def)
  show bs: "backslash \<notin> set q"
  proof
    assume "backslash \<in> set q"
    then have "(\<exists>s \<in> set segs. backslash \<in> set s) \<or> backslash = CHR ''/''"
      using segs(2) set_join [of "''/''" segs] by auto
    with segs(3) show False by (auto simp: clean_segment_def backslash_def)
  qed
  then show "unified q = q" by (rule unified_id)
  have "segments q = segs"
    unfolding segs(2) using segs(1,3) by (intro segments_join) (simp_all add: clean_segment_def)
  moreover have "''..'' \<notin> set segs"
    using segs(3) by (auto simp only: clean_segment_def)
  ultimately show "''..'' \<notin> set (segments q)" "segments q \<noteq> []" "join ''/'' (segments q) = q"
    using segs(1,2) by simp_all
qed

lemma normalise_clean_path:
  "clean_path q \<Longrightarrow> \<not> (1 < length q \<and> q ! 1 = CHR '':'') \<Longrightarrow> normalise q = Some q"
  by (auto simp: normalise_def Let_def clean_path_props is_absolute_def)

text \<open>
  A normalised path never climbs: it is non-empty, relative, has no backslash and no empty,
  \<open>.\<close> or \<open>..\<close> segment; normalising it again changes nothing, but where dropping a leading \<open>.\<close>
  segment has brought a drive letter to the front.
\<close>

theorem normalise_is_safe:
  assumes "normalise p = Some q"
  shows "q \<noteq> [] \<and> \<not> starts_with q ''/'' \<and> backslash \<notin> set q
    \<and> (\<forall>s \<in> set (slash_split q). clean_segment s)
    \<and> (normalise q = Some q \<or> q ! 1 = CHR '':'')"
proof -
  have clean: "clean_path q" using assms by (rule normalise_clean)
  then obtain segs where segs: "segs \<noteq> []" "q = join ''/'' segs" "\<forall>s \<in> set segs. clean_segment s"
    by (auto simp: clean_path_def)
  then have "slash_split q = segs"
    unfolding slash_split_def segs(2) by (intro split_on_join) (auto simp only: clean_segment_def)
  with segs(3) have "\<forall>s \<in> set (slash_split q). clean_segment s" by simp
  moreover have "normalise q = Some q \<or> q ! 1 = CHR '':''"
    using normalise_clean_path [OF clean] by blast
  ultimately show ?thesis
    using clean_path_props [OF clean] by blast
qed

theorem normalise_is_safe_witness:
  "normalise ''./src/a.rs'' = Some ''src/a.rs''
   \<and> list_all clean_segment (slash_split ''src/a.rs'')"
proof -
  have h: "normalise ''./src/a.rs'' = Some ''src/a.rs''" by code_simp
  show ?thesis using h normalise_is_safe [OF h] by (simp add: list_all_iff)
qed

text \<open>
  Dropping \<open>.\<close> segments is done after the drive letter is looked for, so \<open>./C:/x\<close> is
  accepted as the path \<open>C:/x\<close>, which \<open>normalise\<close> itself refuses as absolute.
\<close>

theorem normalise_lets_a_drive_through:
  "normalise ''./C:/x'' = Some ''C:/x'' \<and> normalise ''C:/x'' = None"
  by code_simp

section \<open>Path guards\<close>

text \<open>
  What every client of the two checks relies on: a check over a list of globs either cannot read the
  globs, or permits each path on its own, and refuses with exactly the paths it does not permit, in
  the order given.
\<close>

locale path_guard =
  fixes check :: "string list \<Rightarrow> string list \<Rightarrow> (path_refusal, unit) result"
    and readable :: "string list \<Rightarrow> bool"
    and permits :: "string list \<Rightarrow> string \<Rightarrow> bool"
  assumes unreadable: "\<not> readable globs \<Longrightarrow> \<exists>e. check paths globs = Inl (Glob e)"
    and judged: "readable globs \<Longrightarrow> check paths globs = refuse (filter (\<lambda>p. \<not> permits globs p) paths)"
begin

lemma ok_iff: "check paths globs = Inr () \<longleftrightarrow> readable globs \<and> (\<forall>p \<in> set paths. permits globs p)"
  using unreadable [of globs paths] judged [of globs paths]
  by (cases "readable globs") (auto simp: refuse_def Let_def filter_empty_conv)

lemma is_ok_iff_permits: "is_ok (check paths globs) \<longleftrightarrow> readable globs \<and> (\<forall>p \<in> set paths. permits globs p)"
  by (auto simp: is_ok_iff ok_iff)

lemma violations_exact:
  "check paths globs = Inl (Violations vs) \<Longrightarrow>
     readable globs \<and> map violating_path vs = filter (\<lambda>p. \<not> permits globs p) paths \<and> vs \<noteq> []"
  using unreadable [of globs paths] judged [of globs paths]
  by (cases "readable globs") (auto simp: refuse_def Let_def comp_def split: if_splits)

lemma violation_of_a_path:
  "check paths globs = Inl (Violations vs) \<Longrightarrow> v \<in> set vs \<Longrightarrow>
     violating_path v \<in> set paths \<and> \<not> permits globs (violating_path v)"
proof -
  assume "check paths globs = Inl (Violations vs)" and v: "v \<in> set vs"
  then have "map violating_path vs = filter (\<lambda>p. \<not> permits globs p) paths"
    using violations_exact by blast
  moreover have "violating_path v \<in> set (map violating_path vs)" using v by simp
  ultimately show ?thesis by simp
qed

lemma ok_subset: "check paths globs = Inr () \<Longrightarrow> set ps \<subseteq> set paths \<Longrightarrow> check ps globs = Inr ()"
  by (auto simp: ok_iff)

lemma ok_append: "check (ps @ qs) globs = Inr () \<longleftrightarrow> check ps globs = Inr () \<and> check qs globs = Inr ()"
  by (auto simp: ok_iff)

lemma ok_each: "check paths globs = Inr () \<longleftrightarrow>
    check [] globs = Inr () \<and> (\<forall>p \<in> set paths. check [p] globs = Inr ())"
  by (auto simp: ok_iff)

end

definition globs_readable :: "glob_engine \<Rightarrow> bool \<Rightarrow> string list \<Rightarrow> bool" where
  "globs_readable g ci globs \<longleftrightarrow>
     list_all (\<lambda>glob. glob_fault g True ci glob = None) globs \<and> globset_fault g True ci globs = None"

definition permits_allowed :: "glob_engine \<Rightarrow> string list \<Rightarrow> string \<Rightarrow> bool" where
  "permits_allowed g globs path =
     (case normalise path of None \<Rightarrow> False | Some p \<Rightarrow> is_match g (False, globs) p)"

definition permits_unprotected :: "glob_engine \<Rightarrow> string list \<Rightarrow> string \<Rightarrow> bool" where
  "permits_unprotected g globs path =
     (case normalise path of None \<Rightarrow> False | Some p \<Rightarrow> \<not> is_protected g globs (True, globs) p)"

lemma first_fault_None_iff: "first_fault g ci globs = None \<longleftrightarrow> list_all (\<lambda>p. glob_fault g True ci p = None) globs"
  by (induction globs) (auto split: option.splits)

lemma compile_Inr_iff: "compile g globs ci = Inr gs \<longleftrightarrow> globs_readable g ci globs \<and> gs = (ci, globs)"
  by (auto simp: compile_def globs_readable_def first_fault_None_iff[symmetric] split: option.splits)

lemma compile_readable: "globs_readable g ci globs \<Longrightarrow> compile g globs ci = Inr (ci, globs)"
  by (simp add: compile_Inr_iff)

lemma compile_unreadable: "\<not> globs_readable g ci globs \<Longrightarrow> \<exists>e. compile g globs ci = Inl (Glob e)"
  by (auto simp: compile_def globs_readable_def first_fault_None_iff[symmetric] split: option.splits)

interpretation allowed: path_guard "check_allowed_paths g" "globs_readable g False" "permits_allowed g"
  for g
proof unfold_locales
  fix globs paths
  assume "\<not> globs_readable g False globs"
  then show "\<exists>e. check_allowed_paths g paths globs = Inl (Glob e)"
    using compile_unreadable by (fastforce simp: check_allowed_paths_def)
next
  fix globs paths
  assume r: "globs_readable g False globs"
  have "(case normalise p of None \<Rightarrow> True | Some q \<Rightarrow> \<not> is_match g (False, globs) q)
      = (\<not> permits_allowed g globs p)" for p
    by (simp add: permits_allowed_def split: option.splits)
  with r show "check_allowed_paths g paths globs
      = refuse (filter (\<lambda>p. \<not> permits_allowed g globs p) paths)"
    by (simp add: check_allowed_paths_def compile_readable cong: filter_cong)
qed

interpretation protected: path_guard "check_protected_paths g" "globs_readable g True"
  "permits_unprotected g" for g
proof unfold_locales
  fix globs paths
  assume "\<not> globs_readable g True globs"
  then show "\<exists>e. check_protected_paths g paths globs = Inl (Glob e)"
    using compile_unreadable by (fastforce simp: check_protected_paths_def)
next
  fix globs paths
  assume r: "globs_readable g True globs"
  have "(case normalise p of None \<Rightarrow> True | Some q \<Rightarrow> is_protected g globs (True, globs) q)
      = (\<not> permits_unprotected g globs p)" for p
    by (simp add: permits_unprotected_def split: option.splits)
  with r show "check_protected_paths g paths globs
      = refuse (filter (\<lambda>p. \<not> permits_unprotected g globs p) paths)"
    by (simp add: check_protected_paths_def compile_readable cong: filter_cong)
qed

text \<open>With no allowed glob nothing may change.\<close>

lemma no_allowed_glob: "check_allowed_paths g paths [] = Inr () \<Longrightarrow> paths = []"
  by (cases paths) (auto simp: allowed.ok_iff permits_allowed_def is_match_def split: option.splits)

text \<open>More allowed globs allow more, more protected globs protect more.\<close>

lemma allowed_mono:
  "check_allowed_paths g paths globs = Inr () \<Longrightarrow> set globs \<subseteq> set globs2 \<Longrightarrow>
     globs_readable g False globs2 \<Longrightarrow> check_allowed_paths g paths globs2 = Inr ()"
  by (fastforce simp: allowed.ok_iff permits_allowed_def is_match_def list_ex_iff split: option.splits)

lemma named_exactly_mono: "named_exactly p globs \<Longrightarrow> set globs \<subseteq> set globs2 \<Longrightarrow> named_exactly p globs2"
  by (auto simp: named_exactly_def list_ex_iff)

lemma is_protected_mono:
  "is_protected g globs (True, globs) p \<Longrightarrow> set globs \<subseteq> set globs2 \<Longrightarrow>
     is_protected g globs2 (True, globs2) p"
  by (auto simp: is_protected_def is_match_def list_ex_iff dest: named_exactly_mono split: if_splits)

lemma protected_antimono:
  "check_protected_paths g paths globs2 = Inr () \<Longrightarrow> set globs \<subseteq> set globs2 \<Longrightarrow>
     globs_readable g True globs \<Longrightarrow> check_protected_paths g paths globs = Inr ()"
  using is_protected_mono [of g globs _ globs2]
  by (fastforce simp: protected.ok_iff permits_unprotected_def split: option.splits)

section \<open>Braces and overlaps\<close>

text \<open>A brace group with nothing left to expand: no \<open>{\<close>, or one that is never closed.\<close>

definition expanded :: "string \<Rightarrow> bool" where
  "expanded s \<longleftrightarrow> (case break_at (CHR ''{'') s of None \<Rightarrow> True | Some (_, rest) \<Rightarrow> CHR ''}'' \<notin> set rest)"

lemma expand_braces_unfold:
  "break_at (CHR ''{'') s = None \<Longrightarrow> expand_braces s = [s]"
  "break_at (CHR ''{'') s = Some (before, rest) \<Longrightarrow> break_at (CHR ''}'') rest = None \<Longrightarrow>
     expand_braces s = [s]"
  "break_at (CHR ''{'') s = Some (before, rest) \<Longrightarrow>
     break_at (CHR ''}'') rest = Some (inside, after) \<Longrightarrow>
     expand_braces s = concat (map (\<lambda>choice. expand_braces (before @ choice @ after))
                         (split_on (\<lambda>c. c = CHR '','') inside))"
  by (simp_all add: expand_braces.simps [of s])

lemma brace_cases:
  obtains (none) "break_at (CHR ''{'') s = None"
  | (unclosed) before rest where "break_at (CHR ''{'') s = Some (before, rest)"
      "break_at (CHR ''}'') rest = None"
  | (group) before rest inside after where "break_at (CHR ''{'') s = Some (before, rest)"
      "break_at (CHR ''}'') rest = Some (inside, after)"
  by (metis not_None_eq surj_pair)

lemma expand_braces_expanded: "x \<in> set (expand_braces s) \<Longrightarrow> expanded x"
proof (induction s arbitrary: x rule: expand_braces.induct)
  case (1 s)
  show ?case
  proof (cases s rule: brace_cases)
    case none
    with "1.prems" show ?thesis by (simp add: expand_braces_unfold(1) expanded_def)
  next
    case (unclosed before rest)
    then have "x = s" using "1.prems" by (simp add: expand_braces_unfold(2))
    with unclosed show ?thesis by (simp add: expanded_def break_at_None_iff)
  next
    case (group before rest inside after)
    with "1.prems" obtain choice where "choice \<in> set (split_on (\<lambda>c. c = CHR '','') inside)"
      and "x \<in> set (expand_braces (before @ choice @ after))"
      by (auto simp: expand_braces_unfold(3))
    with "1.IH" [OF group(1) refl group(2) refl] show ?thesis by blast
  qed
qed

lemma expand_braces_not_Nil: "expand_braces s \<noteq> []"
proof (induction s rule: expand_braces.induct)
  case (1 s)
  show ?case
  proof (cases s rule: brace_cases)
    case (group before rest inside after)
    obtain c where c: "c \<in> set (split_on (\<lambda>c. c = CHR '','') inside)"
      using split_on_not_Nil by (metis list.set_intros(1) neq_Nil_conv)
    with "1.IH" [OF group(1) refl group(2) refl] have "expand_braces (before @ c @ after) \<noteq> []"
      by blast
    with c show ?thesis by (auto simp: expand_braces_unfold(3) [OF group])
  qed (simp_all add: expand_braces_unfold(1,2))
qed

lemma expand_braces_plain: "CHR ''{'' \<notin> set s \<Longrightarrow> expand_braces s = [s]"
  by (subst expand_braces.simps) (simp add: break_at_def)

lemma prefixes_meet_sym: "prefixes_meet a b = prefixes_meet b a"
proof -
  have "list_all (\<lambda>(x, y). x = y) (zip u v) = list_all (\<lambda>(x, y). x = y) (zip v u)"
    for u v :: "string list"
    by (induction u v rule: list_induct2') auto
  then show ?thesis by (cases a; cases b) auto
qed

lemma prefixes_meet_refl: "prefixes_meet a a"
  by (cases a) (auto simp: list_all_iff zip_same)

text \<open>
  \<open>could_overlap\<close> is symmetric and every glob overlaps itself, and expanding braces, which
  terminates, always leaves at least one alternative, none with a brace group left to expand.
\<close>

theorem could_overlap_symmetric_reflexive:
  "could_overlap a b = could_overlap b a \<and> could_overlap a a
   \<and> alternatives a \<noteq> [] \<and> list_all expanded (expand_braces a)"
proof -
  have "alternatives x \<noteq> []" for x
    by (simp add: alternatives_def expand_braces_not_Nil)
  moreover from this obtain x where "x \<in> set (alternatives a)"
    by (metis list.set_intros(1) neq_Nil_conv)
  then have "could_overlap a a"
    using prefixes_meet_refl by (auto simp: could_overlap_def list_ex_iff)
  moreover have "could_overlap a b = could_overlap b a"
    using prefixes_meet_sym by (auto simp: could_overlap_def list_ex_iff)
  ultimately show ?thesis
    using expand_braces_expanded by (simp add: list_all_iff)
qed

end
