(* ===== verification/Folders.thy ===== *)
theory Folders
  imports Contract Paths
begin

text \<open>
  crates/core/src/folders.rs: the folder each role owns under docs/catervas/, the documents written
  twice (for people and, as \<open>.agent\<close> twins, for agents), the paths the folder tools may write, the
  slugs of attached documents, bug hunts and plans.

  Not here: the sentences built for prompts, the names shown for documents, the parsing of commit
  subjects, and the line comparison of two versions.
\<close>

section \<open>Folders and their owners\<close>

definition ROLE_FOLDERS :: "(role \<times> string) list" where
  "ROLE_FOLDERS = [
     (ProductManager, ''docs/catervas/product''),
     (Architect, ''docs/catervas/architecture''),
     (SoftwareDeveloper, ''docs/catervas/engineering''),
     (UiUxDesigner, ''docs/catervas/design''),
     (ScrumMaster, ''docs/catervas/delivery''),
     (MarketingSpecialist, ''docs/catervas/marketing'')]"

definition TWIN_MARK :: string where "TWIN_MARK = ''.agent''"
definition PLANS :: string where "PLANS = ''docs/catervas/marketing/plans/''"

definition role_folder :: "role \<Rightarrow> string option" where
  "role_folder r = find_map (\<lambda>(owner, folder). if owner = r then Some folder else None) ROLE_FOLDERS"

definition MEMBER_FOLDERS :: "(role \<times> string) list" where
  "MEMBER_FOLDERS = [
     (Architect, ''architecture''), (SoftwareDeveloper, ''engineering''), (UiUxDesigner, ''design'')]"

definition MEMBERS_ROOT :: string where "MEMBERS_ROOT = ''docs/catervas/repos''"

definition member_folder :: "role \<Rightarrow> string \<Rightarrow> string option" where
  "member_folder r repo_name =
     find_map (\<lambda>(owner, segment).
       if owner = r then Some (MEMBERS_ROOT @ ''/'' @ repo_name @ ''/'' @ segment) else None) MEMBER_FOLDERS"

definition is_below :: "string \<Rightarrow> string \<Rightarrow> bool" where
  "is_below path folder =
     (case strip_prefix folder path of
        None \<Rightarrow> False
      | Some rest \<Rightarrow> starts_with rest ''/'' \<and> 1 < length rest)"

definition folder_of :: "string \<Rightarrow> string list \<Rightarrow> (role \<times> string) option" where
  "folder_of p members =
     (case normalise p of
        None \<Rightarrow> None
      | Some path \<Rightarrow>
          (case List.find (\<lambda>(_, folder). is_below path folder) ROLE_FOLDERS of
             Some found \<Rightarrow> Some found
           | None \<Rightarrow>
               find_map (\<lambda>name.
                 find_map (\<lambda>(owner, _).
                   (case member_folder owner name of
                      None \<Rightarrow> None
                    | Some folder \<Rightarrow> if is_below path folder then Some (owner, folder) else None))
                 MEMBER_FOLDERS) members))"

section \<open>Formats, stems and plans\<close>

datatype document_format = Markdown | Html

fun extension :: "document_format \<Rightarrow> string" where
  "extension Markdown = ''md''"
| "extension Html = ''html''"

definition format_of :: "string \<Rightarrow> document_format option" where
  "format_of path =
     (if strip_suffix ''.md'' path \<noteq> None then Some Markdown
      else if strip_suffix ''.html'' path \<noteq> None then Some Html
      else None)"

fun other_format :: "document_format \<Rightarrow> document_format" where
  "other_format Markdown = Html"
| "other_format Html = Markdown"

definition stem_of :: "string \<Rightarrow> string option" where
  "stem_of path =
     (case strip_suffix ''.md'' path of
        Some stem \<Rightarrow> Some stem
      | None \<Rightarrow> strip_suffix ''.html'' path)"

definition with_format :: "string \<Rightarrow> document_format \<Rightarrow> string" where
  "with_format stem format = stem @ ''.'' @ extension format"

definition plan_stem :: "string \<Rightarrow> string" where
  "plan_stem epic = ''docs/catervas/architecture/plans/'' @ epic"

definition is_plan_task :: "task_contract \<Rightarrow> bool" where
  "is_plan_task contract =
     (case plan contract of None \<Rightarrow> False | Some own \<Rightarrow> allowed_paths contract = [own])"

definition hunt_report :: "role \<Rightarrow> document_format \<Rightarrow> string option" where
  "hunt_report r format =
     (case r of
        SoftwareDeveloper \<Rightarrow> Some (with_format ''docs/catervas/engineering/bug-hunt'' format)
      | UiUxDesigner \<Rightarrow> Some (with_format ''docs/catervas/design/ui-bug-hunt'' format)
      | _ \<Rightarrow> None)"

definition is_hunt :: "task_contract \<Rightarrow> bool" where
  "is_hunt contract \<longleftrightarrow>
     kind_of contract = Task
     \<and> list_ex (\<lambda>report. allowed_paths contract = [report])
         (filter_map (hunt_report (assignee_role contract)) [Markdown, Html])"

definition is_plan_of :: "string \<Rightarrow> string \<Rightarrow> bool" where
  "is_plan_of path epic =
     (case stem_of path of None \<Rightarrow> False | Some stem \<Rightarrow> stem = plan_stem epic)"

section \<open>Attached documents\<close>

datatype attach_kind = ProductDocument | ArchitectureDocument

fun attach_folder :: "attach_kind \<Rightarrow> string" where
  "attach_folder ProductDocument = ''docs/catervas/product''"
| "attach_folder ArchitectureDocument = ''docs/catervas/architecture''"

definition ATTACHED_DIR :: string where "ATTACHED_DIR = ''attached/''"
definition ATTACHED_SLUG_MAX :: nat where "ATTACHED_SLUG_MAX = 60"

text \<open>\<open>rsplit_once\<close>: cut at the last of a character.\<close>

definition rsplit_once :: "char \<Rightarrow> string \<Rightarrow> (string \<times> string) option" where
  "rsplit_once c s =
     (case break_at c (rev s) of None \<Rightarrow> None | Some (after, before) \<Rightarrow> Some (rev before, rev after))"

fun attached_loop :: "string \<Rightarrow> string \<Rightarrow> string" where
  "attached_loop slug [] = slug"
| "attached_loop slug (c # cs) =
     (if is_alphanumeric_ascii c then attached_loop (slug @ [to_lower_ascii c]) cs
      else if slug \<noteq> [] \<and> \<not> ends_with slug ''-'' then attached_loop (slug @ ''-'') cs
      else attached_loop slug cs)"

definition attached_slug :: "string \<Rightarrow> string" where
  "attached_slug file_name =
     (let stem = (case rsplit_once (CHR ''.'') file_name of None \<Rightarrow> file_name | Some (s, _) \<Rightarrow> s);
          slug = trim_end (\<lambda>c. c = CHR ''-'') (take ATTACHED_SLUG_MAX (attached_loop [] stem))
      in if slug = [] then ''document'' else slug)"

definition attached_path :: "attach_kind \<Rightarrow> string \<Rightarrow> string" where
  "attached_path k slug = attach_folder k @ ''/'' @ ATTACHED_DIR @ slug @ ''.md''"

definition is_slug :: "string \<Rightarrow> bool" where
  "is_slug s \<longleftrightarrow>
     s \<noteq> [] \<and> list_all (\<lambda>part. part \<noteq> [] \<and> list_all (\<lambda>b. is_lower_ascii b \<or> is_digit_ascii b) part)
                (split_on (\<lambda>c. c = CHR ''-'') s)"

definition is_attached_path :: "string \<Rightarrow> bool" where
  "is_attached_path p =
     (case normalise p of
        None \<Rightarrow> False
      | Some path \<Rightarrow>
          list_ex (\<lambda>k.
            (case Option.bind (strip_prefix (attach_folder k) path) (\<lambda>rest.
                    Option.bind (strip_prefix ''/'' rest) (strip_prefix ATTACHED_DIR)) of
               None \<Rightarrow> False
             | Some name \<Rightarrow>
                 format_of name \<noteq> None
                 \<and> (case rsplit_once (CHR ''.'') name of None \<Rightarrow> False | Some (slug, _) \<Rightarrow> is_slug slug)))
            [ProductDocument, ArchitectureDocument])"

section \<open>Human documents and their twins\<close>

definition OWNER_ACCEPTED_STEMS :: "string list" where
  "OWNER_ACCEPTED_STEMS = [''docs/catervas/product/spec'', ''docs/catervas/product/roadmap'']"

definition PRODUCT_PLAN_STEMS :: "string list" where
  "PRODUCT_PLAN_STEMS = [''docs/catervas/product/spec'', ''docs/catervas/product/roadmap'']"

definition owner_accepts :: "string \<Rightarrow> string \<Rightarrow> bool" where
  "owner_accepts path stem \<longleftrightarrow> stem \<in> set OWNER_ACCEPTED_STEMS \<or> is_attached_path path"

definition is_plan_number :: "string \<Rightarrow> bool" where
  "is_plan_number n \<longleftrightarrow> list_all is_digit_ascii n \<and> n \<noteq> [] \<and> \<not> starts_with n ''0''"

definition is_human_document :: "string \<Rightarrow> bool" where
  "is_human_document p =
     (case normalise p of
        None \<Rightarrow> False
      | Some path \<Rightarrow>
          if is_attached_path path then True
          else (case stem_of path of
                  None \<Rightarrow> False
                | Some stem \<Rightarrow>
                    if stem \<in> set PRODUCT_PLAN_STEMS then True
                    else (case Option.bind (strip_prefix PLANS stem) (strip_prefix ''MP-'') of
                            None \<Rightarrow> False
                          | Some n \<Rightarrow> is_plan_number n)))"

definition agent_twin :: "string \<Rightarrow> string option" where
  "agent_twin p =
     (if \<not> is_human_document p then None
      else Option.bind (normalise p) (\<lambda>path.
           Option.bind (format_of path) (\<lambda>format.
           Option.bind (stem_of path) (\<lambda>stem. Some (with_format (stem @ TWIN_MARK) format)))))"

definition human_of_twin :: "string \<Rightarrow> string option" where
  "human_of_twin p =
     Option.bind (normalise p) (\<lambda>path.
     Option.bind (stem_of path) (\<lambda>marked.
     Option.bind (strip_suffix TWIN_MARK marked) (\<lambda>stem.
     Option.bind (format_of path) (\<lambda>format.
       let human = with_format stem format
       in if is_human_document human then Some human else None))))"

definition partner_of :: "string \<Rightarrow> string option" where
  "partner_of path = (case agent_twin path of Some t \<Rightarrow> Some t | None \<Rightarrow> human_of_twin path)"

definition changed_alone :: "string list \<Rightarrow> string list \<Rightarrow> string \<Rightarrow> bool" where
  "changed_alone changed stale path \<longleftrightarrow>
     (case partner_of path of None \<Rightarrow> False | Some partner \<Rightarrow> partner \<notin> set changed)
     \<and> path \<notin> set stale"

text \<open>The loop pushes a path that is alone and not pushed yet.\<close>

fun pairs_loop :: "string list \<Rightarrow> string list \<Rightarrow> string list \<Rightarrow> string list \<Rightarrow> string list" where
  "pairs_loop changed stale alone [] = alone"
| "pairs_loop changed stale alone (path # paths) =
     pairs_loop changed stale
       (if changed_alone changed stale path \<and> path \<notin> set alone then alone @ [path] else alone) paths"

definition pair_changed_alone :: "string list \<Rightarrow> string list \<Rightarrow> string list" where
  "pair_changed_alone changed_paths stale_twins =
     (let changed = filter_map normalise changed_paths;
          stale = filter_map normalise stale_twins
      in pairs_loop changed stale [] changed)"

section \<open>What the folder tools may write\<close>

record folder_doc_path =
  doc_path :: string
  owner_accepted :: bool

datatype folder_doc_path_refusal = NoFolder | Outside | NotADocument | AgentTwin | MarketingPlan

definition check_folder_doc_path ::
  "role \<Rightarrow> string \<Rightarrow> string list \<Rightarrow> (folder_doc_path_refusal, folder_doc_path) result" where
  "check_folder_doc_path r p members =
     (case role_folder r of None \<Rightarrow> Inl NoFolder | Some _ \<Rightarrow>
     (case normalise p of None \<Rightarrow> Inl Outside | Some path \<Rightarrow>
      if (case folder_of path members of None \<Rightarrow> True | Some (owner, _) \<Rightarrow> owner \<noteq> r) then Inl Outside
      else
     (case stem_of path of None \<Rightarrow> Inl NotADocument | Some stem \<Rightarrow>
      if ends_with stem TWIN_MARK then Inl AgentTwin
      else
        let accepted = owner_accepts path stem in
        if is_human_document path \<and> \<not> accepted then Inl MarketingPlan
        else Inr \<lparr>doc_path = path, owner_accepted = accepted\<rparr>)))"

datatype format_refusal = WrongFormat string | OtherFormatExists string

definition check_document_format ::
  "string \<Rightarrow> document_format \<Rightarrow> (string \<Rightarrow> bool) \<Rightarrow> (format_refusal, string option) result" where
  "check_document_format p format on_branch =
     (let path = (case normalise p of Some q \<Rightarrow> q | None \<Rightarrow> p) in
      case (stem_of path, format_of path) of
        (Some stem, Some written) \<Rightarrow>
          if written = format then
            (let other = with_format stem (other_format format) in
             if \<not> on_branch other then Inr None
             else if stem \<in> set OWNER_ACCEPTED_STEMS then Inl (OtherFormatExists other)
             else Inr (Some other))
          else if on_branch path then Inr None
          else Inl (WrongFormat (with_format stem format))
      | _ \<Rightarrow> Inr None)"

end
