(* ===== verification/Team.thy ===== *)
theory Team
  imports Folders
begin

text \<open>
  The part of crates/core/src/team.rs that the governor reads: what each role may build, review and
  change, the private folders and what a path in one may be, and which contracts an agent reviews.
  Then crates/core/src/governor/team\_rules.rs: the rules a team is held to and their defaults.

  Not here: the team file's validator and its carrying to another project, which are checks of the
  schema's types rather than rules of the governor.
\<close>

section \<open>Roles\<close>

fun plain_role :: "role \<Rightarrow> string" where
  "plain_role ProductManager = ''Product Manager''"
| "plain_role ScrumMaster = ''Scrum Master''"
| "plain_role Architect = ''Architect''"
| "plain_role SoftwareDeveloper = ''Software Developer''"
| "plain_role MarketingSpecialist = ''Marketing Specialist''"
| "plain_role UiUxDesigner = ''UI/UX Designer''"
| "plain_role FinanceSpecialist = ''Finance Specialist''"
| "plain_role ProcurementSpecialist = ''Procurement Specialist''"
| "plain_role HumanRole = ''human''"

definition changes_code :: "role \<Rightarrow> bool" where
  "changes_code r \<longleftrightarrow> r = SoftwareDeveloper \<or> r = UiUxDesigner"

definition may_build :: "role \<Rightarrow> role \<Rightarrow> bool" where
  "may_build agent_role task_role \<longleftrightarrow>
     agent_role = task_role \<or> (agent_role = Architect \<and> task_role = SoftwareDeveloper)"

definition may_review :: "role \<Rightarrow> role \<Rightarrow> role \<Rightarrow> bool" where
  "may_review reviewer_r contract_reviewer_r assignee_r \<longleftrightarrow>
     reviewer_r = contract_reviewer_r
     \<or> (contract_reviewer_r = Architect \<and> assignee_r = Architect \<and> reviewer_r = SoftwareDeveloper)"

definition reviewed_by_an_agent :: "task_contract \<Rightarrow> bool" where
  "reviewed_by_an_agent contract \<longleftrightarrow>
     kind_of contract = Task \<and> changes_code (assignee_role contract) \<and> \<not> is_hunt contract"

datatype agent_status = Active | Paused | Retired

section \<open>Private folders\<close>

definition private_folder :: "role \<Rightarrow> string option" where
  "private_folder r =
     (case r of
        FinanceSpecialist \<Rightarrow> Some ''.catervas/local/finance''
      | ProcurementSpecialist \<Rightarrow> Some ''.catervas/local/procurement''
      | _ \<Rightarrow> None)"

definition task_private_folder :: "task_contract \<Rightarrow> string option" where
  "task_private_folder contract =
     (if kind_of contract = Task then private_folder (assignee_role contract) else None)"

definition MOST_WORKBOOK_PATH :: nat where "MOST_WORKBOOK_PATH = 200"
definition MOST_WORKBOOK_PART :: nat where "MOST_WORKBOOK_PART = 100"
definition MOST_WORKBOOK_PARTS :: nat where "MOST_WORKBOOK_PARTS = 3"

definition is_a_workbook_name :: "string \<Rightarrow> bool" where
  "is_a_workbook_name part \<longleftrightarrow>
     utf8_len part \<le> MOST_WORKBOOK_PART
     \<and> (case part of
          [] \<Rightarrow> False
        | first # bytes \<Rightarrow>
            is_alphanumeric_ascii first
            \<and> list_all (\<lambda>byte. is_alphanumeric_ascii byte \<or> byte \<in> set '' ._-'') bytes)"

datatype path_fault =
    NotAShortPath \<comment> \<open>is not a path of 1 to 200 characters and at most 3 parts\<close>
  | NotAName \<comment> \<open>has a part that is not a name\<close>
  | NotAWorkbookOrNote \<comment> \<open>is not a workbook or a note: it ends in .xlsx or .md\<close>
  | NotAWorkbook \<comment> \<open>is not a workbook: it ends in .xlsx\<close>

definition path_fault_of :: "string \<Rightarrow> bool \<Rightarrow> path_fault option" where
  "path_fault_of path notes =
     (let parts = slash_split path in
      if path = [] \<or> MOST_WORKBOOK_PATH < length path \<or> MOST_WORKBOOK_PARTS < length parts
      then Some NotAShortPath
      else if \<not> list_all is_a_workbook_name parts then Some NotAName
      else
        let l = last parts; ends_in = (\<lambda>ext. strip_suffix ext l \<noteq> None) in
        if ends_in ''.xlsx'' \<or> (notes \<and> ends_in ''.md'') then None
        else Some (if notes then NotAWorkbookOrNote else NotAWorkbook))"

definition workbook_path_fault :: "string \<Rightarrow> path_fault option" where
  "workbook_path_fault path = path_fault_of path False"

definition private_file_fault :: "string \<Rightarrow> string \<Rightarrow> path_fault option" where
  "private_file_fault folder path =
     path_fault_of path (private_folder ProcurementSpecialist = Some folder)"

lemma workbook_name_chars:
  assumes "is_a_workbook_name part"
  shows "part \<noteq> [] \<and> is_alphanumeric_ascii (hd part)"
    and "c \<in> set part \<Longrightarrow> is_alphanumeric_ascii c \<or> c \<in> set '' ._-''"
  using assms by (cases part; auto simp: is_a_workbook_name_def list_all_iff)+

text \<open>
  A path a private folder may hold stays in the folder: it has at most three parts joined by
  single slashes, each starting with a letter or digit, so no part is empty, hidden, \<open>.\<close> or \<open>..\<close>, and
  normalising it changes nothing.
\<close>

theorem private_file_stays_inside:
  assumes "private_file_fault folder path = None"
  shows "normalise path = Some path \<and> length (slash_split path) \<le> 3 \<and> length path \<le> 200
    \<and> (\<forall>part \<in> set (slash_split path). part \<noteq> [] \<and> is_alphanumeric_ascii (hd part))"
proof -
  let ?parts = "slash_split path"
  from assms have short: "path \<noteq> []" "length path \<le> 200" "length ?parts \<le> 3"
    and parts: "list_all is_a_workbook_name ?parts"
    by (auto simp: private_file_fault_def path_fault_of_def MOST_WORKBOOK_PATH_def
        MOST_WORKBOOK_PARTS_def Let_def split: if_splits)
  have allowed: "is_alphanumeric_ascii c \<or> c \<in> set '' ._-''"
    if "part \<in> set ?parts" "c \<in> set part" for part c
    using that parts workbook_name_chars(2) unfolding list_all_iff by blast
  have first: "part \<noteq> [] \<and> is_alphanumeric_ascii (hd part)" if "part \<in> set ?parts" for part
    using that parts workbook_name_chars(1) unfolding list_all_iff by blast
  have special: "\<not> is_alphanumeric_ascii (CHR ''.'')" "\<not> is_alphanumeric_ascii (CHR '':'')"
    "\<not> is_alphanumeric_ascii backslash" "\<not> is_alphanumeric_ascii (CHR ''/'')"
    by (simp_all add: is_alphanumeric_ascii_def is_upper_ascii_def is_lower_ascii_def
        is_digit_ascii_def code_point_def backslash_def)
  have clean: "clean_segment part" if "part \<in> set ?parts" for part
    using first [OF that] allowed [OF that] special
    by (auto simp: clean_segment_def backslash_def)
  have path: "path = join ''/'' ?parts"
    by (simp add: slash_split_def join_split_on)
  have "clean_path path"
    unfolding clean_path_def using clean path by (metis slash_split_def split_on_not_Nil)
  moreover have "path ! 1 \<noteq> CHR '':''" if "1 < length path"
  proof
    assume "path ! 1 = CHR '':''"
    with that have "CHR '':'' \<in> set path" by (metis nth_mem)
    then have "CHR '':'' \<in> (\<Union>part \<in> set ?parts. set part) \<union> set ''/''"
      using path set_join by (metis subsetD)
    then show False using allowed special(2) by auto
  qed
  ultimately have "normalise path = Some path"
    using normalise_clean_path by blast
  with short first show ?thesis by blast
qed

theorem private_file_stays_inside_witness:
  "private_file_fault ''.catervas/local/finance'' ''2026/books.xlsx'' = None
   \<and> normalise ''2026/books.xlsx'' = Some ''2026/books.xlsx''"
proof -
  have h: "private_file_fault ''.catervas/local/finance'' ''2026/books.xlsx'' = None" by code_simp
  show ?thesis using h private_file_stays_inside [OF h] by blast
qed

section \<open>Team rules\<close>

definition DEFAULT_PROTECTED_PATHS :: "string list" where
  "DEFAULT_PROTECTED_PATHS =
     [''.env'', ''.env.*'', ''**/*.pem'', ''**/*.key'', ''.catervas/local/**'']"

definition CATERVAS_STATE :: string where "CATERVAS_STATE = ''.catervas/local/**''"

definition CATERVAS_KEYS :: "string list" where
  "CATERVAS_KEYS = [''.catervas/local/daemon.json'', ''.catervas/local/sessions/**'']"

definition DEFAULT_DOCUMENT_PATHS :: "string list" where
  "DEFAULT_DOCUMENT_PATHS = [''docs/**'', ''**/*.md'', ''CHANGELOG.md'']"

definition DEFAULT_UI_PATHS :: "string list" where
  "DEFAULT_UI_PATHS =
     [''**/*.tsx'', ''**/*.jsx'', ''**/*.vue'', ''**/*.svelte'', ''**/*.css'', ''**/*.scss'', ''**/*.html'']"

record team_rules =
  protected_paths :: "string list"
  read_only_paths :: "string list"
  git_subcommands :: "string list"
  keeps_local :: bool
  allowed_paths_ceiling :: "string list"
  required_criteria :: "string list"
  require_new_tests :: bool
  max_task_budget_usd :: "f64 option"
  forbidden_commands :: "string list"
  document_paths :: "string list"
  ui_paths :: "string list"

definition default_team_rules :: team_rules where
  "default_team_rules =
     \<lparr>protected_paths = DEFAULT_PROTECTED_PATHS, read_only_paths = [], git_subcommands = [],
      keeps_local = False, allowed_paths_ceiling = [], required_criteria = [],
      require_new_tests = False, max_task_budget_usd = None, forbidden_commands = [],
      document_paths = DEFAULT_DOCUMENT_PATHS, ui_paths = DEFAULT_UI_PATHS\<rparr>"

definition unwritable :: "team_rules \<Rightarrow> string list" where
  "unwritable rules = keep_new (protected_paths rules) (read_only_paths rules)"

definition TEAM_DOCUMENTS :: string where "TEAM_DOCUMENTS = ''docs/catervas/''"

definition is_ui_change ::
  "glob_engine \<Rightarrow> task_contract \<Rightarrow> role \<Rightarrow> string list \<Rightarrow> string list \<Rightarrow> bool" where
  "is_ui_change g contract assignee_r changed_paths ui_globs =
     (let outside_the_documents =
            filter (\<lambda>path. \<not> starts_with path TEAM_DOCUMENTS
                           \<or> list_ex (\<lambda>part. part = ''..'') (slash_split path)) changed_paths
      in assignee_r = SoftwareDeveloper
         \<and> (ui_change contract = Some True
            \<or> \<not> is_ok (check_protected_paths g outside_the_documents ui_globs)))"

lemma set_unwritable: "set (unwritable rules) = set (protected_paths rules) \<union> set (read_only_paths rules)"
  by (simp add: unwritable_def set_keep_new)

text \<open>A UI check fails closed: a climbing path, or a glob that cannot be read, is a UI change.\<close>

lemma is_ui_change_fails_closed:
  assumes "\<not> globs_readable g True ui_globs"
  shows "is_ui_change g contract SoftwareDeveloper changed ui_globs"
  using assms by (simp add: is_ui_change_def Let_def protected.is_ok_iff_permits)

end
