(* ===== verification/Samples.thy ===== *)
theory Samples
  imports Team
begin

text \<open>
  Concrete inputs for the witnesses: a glob engine that reads \<open>dir/**\<close> as what is below \<open>dir\<close> and
  any other pattern as the path it spells, and a small contract with one command criterion. They
  model no code; they show that the hypotheses of a property can hold.
\<close>

definition prefix_globs :: glob_engine where
  "prefix_globs =
     \<lparr>glob_fault = (\<lambda>_ _ _. None),
      glob_match = (\<lambda>_ _ pattern path.
        case strip_suffix ''**'' pattern of
          Some below \<Rightarrow> starts_with path below
        | None \<Rightarrow> path = pattern),
      globset_fault = (\<lambda>_ _ _. None)\<rparr>"

definition sample_criterion :: exit_criterion where
  "sample_criterion =
     \<lparr>criterion_id = ''EC-1'', criterion_text = ''the tests pass'', satisfies = [],
      criterion_verification = Variant0 (Some ''command'') ''cargo test'' 0 None None\<rparr>"

definition sample_contract :: task_contract where
  "sample_contract =
     \<lparr>task_id = ''task_7'', title = ''Fix the parser'', kind_of = Task, parent = Some ''task_1'',
      intent = ''parse it'', in_scope = [''the parser''], out_of_scope = [''the printer''],
      requirements = [], exit_criteria = [sample_criterion], dependencies = [],
      assignee_role = SoftwareDeveloper, reviewer_role = Architect, contract_risk = Low,
      contract_change = Some Fix, ui_change = None, plan = None, lane = Some 1, repo = None,
      branch = None,
      contract_budget = \<lparr>max_cost_usd = Finite 2, max_sessions = 4, max_iterations_field = 3\<rparr>,
      allowed_paths = [''src/parser/**''], status = Refining, locked = False, assignee = None,
      reviewer = None, iteration_field = 0\<rparr>"

lemmas sample_defs = sample_criterion_def sample_contract_def prefix_globs_def

end
