(* ===== verification/Checklist.thy ===== *)
theory Checklist
  imports Prelude
begin

text \<open>
  The shape that the Definition of Ready and the Definition of Done share: a list of checks over a
  contract and a context, each of which gives nothing or one failure of a rule of its own, run in
  the order of the rules, every failure reported. \<open>readiness.rs\<close> and \<open>done.rs\<close> write the evaluation
  out once each; here it is one definition, and the locale states what holds of any such list.
\<close>

type_synonym ('c, 'x, 'f) check = "'c \<Rightarrow> 'x \<Rightarrow> 'f option"

definition evaluate_checks ::
  "('c, 'x, 'f) check list \<Rightarrow> 'c \<Rightarrow> 'x \<Rightarrow> ('f list, unit) result" where
  "evaluate_checks checks contract context =
     (let failures = filter_map (\<lambda>check. check contract context) checks
      in if failures = [] then Inr () else Inl failures)"

text \<open>Each check reports only its own rule.\<close>

definition reports :: "('f \<Rightarrow> 'r) \<Rightarrow> ('c, 'x, 'f) check \<Rightarrow> 'r \<Rightarrow> bool" where
  "reports rule_of check rule \<longleftrightarrow> (\<forall>c x f. check c x = Some f \<longrightarrow> rule_of f = rule)"

lemma reportsI: "(\<And>c x f. check c x = Some f \<Longrightarrow> rule_of f = rule) \<Longrightarrow> reports rule_of check rule"
  by (simp add: reports_def)

text \<open>The checks of a rule all give nothing: the contract passes it.\<close>

definition passes_rule ::
  "('c, 'x, 'f) check list \<Rightarrow> 'r list \<Rightarrow> 'c \<Rightarrow> 'x \<Rightarrow> 'r \<Rightarrow> bool" where
  "passes_rule checks rules c x r \<longleftrightarrow>
     list_all (\<lambda>(check, rule). rule = r \<longrightarrow> check c x = None) (zip checks rules)"

locale checklist =
  fixes rule_of :: "'f \<Rightarrow> 'r"
    and checks :: "('c \<Rightarrow> 'x \<Rightarrow> 'f option) list"
    and rules :: "'r list"
  assumes own_rules: "list_all2 (reports rule_of) checks rules"
    and once_each_rule: "distinct rules"
begin

lemma ok_iff: "evaluate_checks checks c x = Inr () \<longleftrightarrow> (\<forall>check \<in> set checks. check c x = None)"
  by (auto simp: evaluate_checks_def Let_def filter_map_Nil_iff)

lemma zip_fst: "check \<in> set checks \<Longrightarrow> \<exists>r. (check, r) \<in> set (zip checks rules)"
proof -
  assume "check \<in> set checks"
  then obtain i where i: "i < length checks" "check = checks ! i"
    by (auto simp: in_set_conv_nth)
  moreover have "length checks = length rules"
    using own_rules by (rule list_all2_lengthD)
  ultimately have "(check, rules ! i) \<in> set (zip checks rules)"
    by (auto simp: set_zip)
  then show ?thesis ..
qed

lemma ok_iff_passes: "evaluate_checks checks c x = Inr () \<longleftrightarrow> (\<forall>r \<in> set rules. passes_rule checks rules c x r)"
proof
  assume "evaluate_checks checks c x = Inr ()"
  then show "\<forall>r \<in> set rules. passes_rule checks rules c x r"
    by (auto simp: ok_iff passes_rule_def list_all_iff dest: set_zip_leftD)
next
  assume p: "\<forall>r \<in> set rules. passes_rule checks rules c x r"
  have "check c x = None" if "check \<in> set checks" for check
  proof -
    from zip_fst [OF that] obtain r where r: "(check, r) \<in> set (zip checks rules)" by blast
    then have "r \<in> set rules" by (rule set_zip_rightD)
    with p r show ?thesis by (auto simp: passes_rule_def list_all_iff)
  qed
  then show "evaluate_checks checks c x = Inr ()" by (simp add: ok_iff)
qed

lemma failures_in_rule_order_aux:
  assumes "list_all2 (reports rule_of) cs rs" and "distinct rs"
  shows "map rule_of (filter_map (\<lambda>check. check c x) cs)
     = filter (\<lambda>r. \<exists>(check, rule) \<in> set (zip cs rs). rule = r \<and> check c x \<noteq> None) rs"
  using assms
proof (induction cs rs rule: list_all2_induct)
  case (Cons check cs r rs)
  then have r: "r \<notin> set rs" by simp
  then have rest: "filter (\<lambda>q. \<exists>(k, rule) \<in> set (zip (check # cs) (r # rs)). rule = q \<and> k c x \<noteq> None) rs
      = filter (\<lambda>q. \<exists>(k, rule) \<in> set (zip cs rs). rule = q \<and> k c x \<noteq> None) rs"
    by (intro filter_cong) auto
  have head: "(\<exists>(k, rule) \<in> set (zip (check # cs) (r # rs)). rule = r \<and> k c x \<noteq> None)
      \<longleftrightarrow> check c x \<noteq> None"
    using r by (auto dest: set_zip_rightD)
  from Cons show ?case
    by (simp only: filter.simps head rest) (auto simp: reports_def)
qed simp

lemma failures_in_rule_order:
  assumes "evaluate_checks checks c x = Inl failures"
  shows "map rule_of failures = filter (\<lambda>r. \<not> passes_rule checks rules c x r) rules"
proof -
  from assms have "failures = filter_map (\<lambda>check. check c x) checks"
    by (auto simp: evaluate_checks_def Let_def split: if_splits)
  then show ?thesis
    using failures_in_rule_order_aux [OF own_rules once_each_rule, of c x]
    by (simp add: passes_rule_def list_all_iff case_prod_beta)
qed

lemma failure_never_empty: "evaluate_checks checks c x = Inl failures \<Longrightarrow> failures \<noteq> []"
  by (auto simp: evaluate_checks_def Let_def split: if_splits)

lemma failure_distinct: "evaluate_checks checks c x = Inl failures \<Longrightarrow> distinct (map rule_of failures)"
  using once_each_rule by (simp add: failures_in_rule_order)

lemma failure_from_check:
  "evaluate_checks checks c x = Inl failures \<Longrightarrow> f \<in> set failures \<Longrightarrow> \<exists>check \<in> set checks. check c x = Some f"
  by (auto simp: evaluate_checks_def Let_def set_filter_map split: if_splits)

end

end
