(* ===== verification/Done.thy ===== *)
theory Done
  imports Task_Status Samples Checklist
begin

text \<open>
  crates/core/src/governor/done.rs: the Definition of Done, ten checks over a contract and the
  evidence gathered for it. A failure's message is a constructor that carries what the text
  interpolates; its words are the comment beside it.
\<close>

datatype run_by = ByAssignee | ByReviewer | ByHuman

record criterion_result =
  result_criterion_id :: string
  passed :: bool
  evidence_text :: string
  result_run_by :: run_by

datatype design_review_need = NotNeeded | Missing | Passed

record done_evidence =
  results :: "criterion_result list"
  changed_paths :: "string list"
  completion_note :: "string option"
  review_note :: "string option"
  human_accepted :: bool
  evidence_protected_paths :: "string list"
  design_review :: design_review_need
  stale_twins :: "string list"

datatype done_rule =
    CriterionRunByReviewer | CriterionPassed | HumanCriterionAccepted | PathsWithinAllowed
  | NoProtectedPathChanged | NoCatervasPathChanged | PairChangedAlone | CompletionNotePresent
  | ReviewNotePresent | DesignReviewPassed

datatype done_message =
    NoReviewerEvidenceFor string \<comment> \<open>the reviewer's own run recorded no evidence for ...\<close>
  | DidNotPass string \<comment> \<open>... did not pass\<close>
  | HumanHasNotAnswered string \<comment> \<open>the human has not answered ..., and only the human can\<close>
  | NoPathAllowed string \<comment> \<open>the diff changes ..., and the contract allows no path at all\<close>
  | OutsideAllowed string string \<comment> \<open>the diff changes ... outside the contract's allowed paths ...\<close>
  | AllowedGlobInvalid string string \<comment> \<open>the contract's allowed path ... is not a valid glob: ...\<close>
  | ProtectedChanged string \<comment> \<open>the diff changes ..., which the team's protected paths cover\<close>
  | ProtectedGlobInvalid string string \<comment> \<open>the team's protected path ... is not a valid glob: ...\<close>
  | CatervasChanged string \<comment> \<open>the diff changes ... under .catervas/, ...\<close>
  | PairLacking string \<comment> \<open>the diff changes ...; the document and its agent version change together\<close>
  | NoCompletionNote
  | NoReviewNote
  | DesignerHasNotPassed

record done_failure =
  done_rule_of :: done_rule
  done_message_of :: done_message

section \<open>Who verifies\<close>

definition catervas_verifies_alone :: "task_contract \<Rightarrow> bool \<Rightarrow> bool" where
  "catervas_verifies_alone contract solo \<longleftrightarrow>
     (solo \<or> \<not> reviewed_by_an_agent contract)
     \<and> list_all (\<lambda>criterion. criterion_method criterion
                   \<in> {Some ''command'', Some ''test'', Some ''artifact''}) (exit_criteria contract)"

definition result_awaits_human :: "task_contract \<Rightarrow> bool" where
  "result_awaits_human contract \<longleftrightarrow>
     status contract = Verifying
     \<and> \<not> catervas_verifies_alone contract False
     \<and> (kind_of contract = Epic
        \<or> list_ex (\<lambda>criterion. criterion_method criterion = Some ''human'') (exit_criteria contract))"

section \<open>The checks\<close>

definition done_failure :: "done_rule \<Rightarrow> done_message \<Rightarrow> done_failure" where
  "done_failure rule message = \<lparr>done_rule_of = rule, done_message_of = message\<rparr>"

definition is_answered_by_the_human :: "exit_criterion \<Rightarrow> bool" where
  "is_answered_by_the_human criterion \<longleftrightarrow> criterion_method criterion = Some ''human''"

definition reviewer_result :: "done_evidence \<Rightarrow> string \<Rightarrow> criterion_result option" where
  "reviewer_result evidence cid =
     List.find (\<lambda>result. trim (result_criterion_id result) = cid \<and> result_run_by result = ByReviewer)
       (results evidence)"

definition criterion_run_by_reviewer ::
  "task_contract \<Rightarrow> done_evidence \<Rightarrow> done_failure option" where
  "criterion_run_by_reviewer contract evidence =
     (let missing =
            filter (\<lambda>cid. case reviewer_result evidence cid of
                            None \<Rightarrow> True
                          | Some result \<Rightarrow> is_blank (evidence_text result))
              (map criterion_id
                (filter (\<lambda>c. \<not> is_answered_by_the_human c) (exit_criteria contract)))
      in if missing = [] then None
         else Some (done_failure CriterionRunByReviewer
                (NoReviewerEvidenceFor (listed ''criterion'' ''criteria'' missing))))"

definition criterion_passed :: "task_contract \<Rightarrow> done_evidence \<Rightarrow> done_failure option" where
  "criterion_passed contract evidence =
     (let failed =
            filter (\<lambda>cid. list_ex (\<lambda>result. trim (result_criterion_id result) = cid
                                    \<and> result_run_by result \<noteq> ByAssignee \<and> \<not> passed result)
                            (results evidence))
              (map criterion_id (exit_criteria contract))
      in if failed = [] then None
         else Some (done_failure CriterionPassed (DidNotPass (listed ''criterion'' ''criteria'' failed))))"

definition human_criterion_accepted ::
  "task_contract \<Rightarrow> done_evidence \<Rightarrow> done_failure option" where
  "human_criterion_accepted contract evidence =
     (let missing =
            filter (\<lambda>cid. \<not> list_ex (\<lambda>result. trim (result_criterion_id result) = cid
                                    \<and> passed result \<and> result_run_by result = ByHuman)
                            (results evidence))
              (map criterion_id (filter is_answered_by_the_human (exit_criteria contract)))
      in if missing = [] then None
         else Some (done_failure HumanCriterionAccepted
                (HumanHasNotAnswered (listed ''criterion'' ''criteria'' missing))))"

definition paths_within_allowed ::
  "glob_engine \<Rightarrow> task_contract \<Rightarrow> done_evidence \<Rightarrow> done_failure option" where
  "paths_within_allowed g contract evidence =
     (case check_allowed_paths g (changed_paths evidence) (allowed_paths contract) of
        Inr _ \<Rightarrow> None
      | Inl (Violations violations) \<Rightarrow>
          (let changed = distinct_text (map violating_path violations)
           in Some (done_failure PathsWithinAllowed
                (if allowed_paths contract = [] then NoPathAllowed changed
                 else OutsideAllowed changed (distinct_text (allowed_paths contract)))))
      | Inl (Glob (Invalid pattern detail)) \<Rightarrow>
          Some (done_failure PathsWithinAllowed (AllowedGlobInvalid pattern detail)))"

definition outside_its_folder ::
  "glob_engine \<Rightarrow> task_contract \<Rightarrow> done_evidence \<Rightarrow> string list" where
  "outside_its_folder g contract evidence =
     (case task_private_folder contract of
        None \<Rightarrow> changed_paths evidence
      | Some folder \<Rightarrow>
          filter (\<lambda>path. \<not> is_ok (check_allowed_paths g [path] [folder @ ''/**'']))
            (changed_paths evidence))"

definition no_protected_path_changed ::
  "glob_engine \<Rightarrow> task_contract \<Rightarrow> done_evidence \<Rightarrow> done_failure option" where
  "no_protected_path_changed g contract evidence =
     (case check_protected_paths g (outside_its_folder g contract evidence)
             (evidence_protected_paths evidence) of
        Inr _ \<Rightarrow> None
      | Inl (Violations violations) \<Rightarrow>
          Some (done_failure NoProtectedPathChanged
            (ProtectedChanged (distinct_text (map violating_path violations))))
      | Inl (Glob (Invalid pattern detail)) \<Rightarrow>
          Some (done_failure NoProtectedPathChanged (ProtectedGlobInvalid pattern detail)))"

definition no_catervas_path_changed ::
  "glob_engine \<Rightarrow> task_contract \<Rightarrow> done_evidence \<Rightarrow> done_failure option" where
  "no_catervas_path_changed g contract evidence =
     (let changed = filter (reaches_the_catervas_directory g) (outside_its_folder g contract evidence)
      in if changed = [] then None
         else Some (done_failure NoCatervasPathChanged (CatervasChanged (distinct_text changed))))"

definition pair_changed_alone_check :: "task_contract \<Rightarrow> done_evidence \<Rightarrow> done_failure option" where
  "pair_changed_alone_check _ evidence =
     (let alone = pair_changed_alone (changed_paths evidence) (stale_twins evidence);
          lacking = filter_map (\<lambda>path.
            (case partner_of path of
               None \<Rightarrow> None
             | Some partner \<Rightarrow> Some (path @ '' without '' @ partner))) alone
      in if alone = [] then None
         else Some (done_failure PairChangedAlone (PairLacking (join '', '' lacking))))"

definition note_is_written :: "string option \<Rightarrow> bool" where
  "note_is_written note = (case note of None \<Rightarrow> False | Some text \<Rightarrow> \<not> is_blank text)"

definition completion_note_present :: "task_contract \<Rightarrow> done_evidence \<Rightarrow> done_failure option" where
  "completion_note_present _ evidence =
     (if note_is_written (completion_note evidence) then None
      else Some (done_failure CompletionNotePresent NoCompletionNote))"

definition review_note_present :: "task_contract \<Rightarrow> done_evidence \<Rightarrow> done_failure option" where
  "review_note_present _ evidence =
     (if note_is_written (review_note evidence) then None
      else Some (done_failure ReviewNotePresent NoReviewNote))"

definition design_review_passed :: "task_contract \<Rightarrow> done_evidence \<Rightarrow> done_failure option" where
  "design_review_passed _ evidence =
     (if design_review evidence = Missing
      then Some (done_failure DesignReviewPassed DesignerHasNotPassed) else None)"

definition DONE_CHECKS :: "glob_engine \<Rightarrow> (task_contract, done_evidence, done_failure) check list" where
  "DONE_CHECKS g =
     [criterion_run_by_reviewer, criterion_passed, human_criterion_accepted, paths_within_allowed g,
      no_protected_path_changed g, no_catervas_path_changed g, pair_changed_alone_check,
      completion_note_present, review_note_present, design_review_passed]"

definition DONE_RULES :: "done_rule list" where
  "DONE_RULES =
     [CriterionRunByReviewer, CriterionPassed, HumanCriterionAccepted, PathsWithinAllowed,
      NoProtectedPathChanged, NoCatervasPathChanged, PairChangedAlone, CompletionNotePresent,
      ReviewNotePresent, DesignReviewPassed]"

definition evaluate_done ::
  "glob_engine \<Rightarrow> task_contract \<Rightarrow> done_evidence \<Rightarrow> (done_failure list, unit) result" where
  "evaluate_done g contract evidence = evaluate_checks (DONE_CHECKS g) contract evidence"

section \<open>The checks report their own rules\<close>

lemma done_failure_rule [simp]: "done_rule_of (done_failure r m) = r"
  by (simp add: done_failure_def)

lemma done_reports:
  "reports done_rule_of criterion_run_by_reviewer CriterionRunByReviewer"
  "reports done_rule_of criterion_passed CriterionPassed"
  "reports done_rule_of human_criterion_accepted HumanCriterionAccepted"
  "reports done_rule_of (paths_within_allowed g) PathsWithinAllowed"
  "reports done_rule_of (no_protected_path_changed g) NoProtectedPathChanged"
  "reports done_rule_of (no_catervas_path_changed g) NoCatervasPathChanged"
  "reports done_rule_of pair_changed_alone_check PairChangedAlone"
  "reports done_rule_of completion_note_present CompletionNotePresent"
  "reports done_rule_of review_note_present ReviewNotePresent"
  "reports done_rule_of design_review_passed DesignReviewPassed"
  by (auto simp: reports_def criterion_run_by_reviewer_def criterion_passed_def
      human_criterion_accepted_def paths_within_allowed_def no_protected_path_changed_def
      no_catervas_path_changed_def pair_changed_alone_check_def completion_note_present_def
      review_note_present_def design_review_passed_def Let_def
      split: if_splits sum.splits path_refusal.splits glob_error.splits)

interpretation done_list: checklist done_rule_of "DONE_CHECKS g" DONE_RULES for g
  by unfold_locales (simp_all add: DONE_CHECKS_def DONE_RULES_def done_reports)

section \<open>What the Definition of Done promises\<close>

text \<open>A criterion that the reviewer ran itself, with evidence, by the first result it recorded.\<close>

definition reviewer_ran :: "done_evidence \<Rightarrow> string \<Rightarrow> bool" where
  "reviewer_ran evidence cid \<longleftrightarrow>
     (\<exists>r. reviewer_result evidence cid = Some r \<and> \<not> is_blank (evidence_text r))"

definition failed_for :: "done_evidence \<Rightarrow> string \<Rightarrow> bool" where
  "failed_for evidence cid \<longleftrightarrow>
     (\<exists>r \<in> set (results evidence). trim (result_criterion_id r) = cid
        \<and> result_run_by r \<noteq> ByAssignee \<and> \<not> passed r)"

definition human_passed :: "done_evidence \<Rightarrow> string \<Rightarrow> bool" where
  "human_passed evidence cid \<longleftrightarrow>
     (\<exists>r \<in> set (results evidence). trim (result_criterion_id r) = cid
        \<and> result_run_by r = ByHuman \<and> passed r)"

lemma done_checks_None:
  "criterion_run_by_reviewer c e = None \<longleftrightarrow>
     (\<forall>k \<in> set (exit_criteria c). is_answered_by_the_human k \<or> reviewer_ran e (criterion_id k))"
  "criterion_passed c e = None \<longleftrightarrow> (\<forall>k \<in> set (exit_criteria c). \<not> failed_for e (criterion_id k))"
  "human_criterion_accepted c e = None \<longleftrightarrow>
     (\<forall>k \<in> set (exit_criteria c). is_answered_by_the_human k \<longrightarrow> human_passed e (criterion_id k))"
  "paths_within_allowed g c e = None \<longleftrightarrow>
     check_allowed_paths g (changed_paths e) (allowed_paths c) = Inr ()"
  "no_protected_path_changed g c e = None \<longleftrightarrow>
     check_protected_paths g (outside_its_folder g c e) (evidence_protected_paths e) = Inr ()"
  "no_catervas_path_changed g c e = None \<longleftrightarrow>
     (\<forall>p \<in> set (outside_its_folder g c e). \<not> reaches_the_catervas_directory g p)"
  "pair_changed_alone_check c e = None \<longleftrightarrow> pair_changed_alone (changed_paths e) (stale_twins e) = []"
  "completion_note_present c e = None \<longleftrightarrow> note_is_written (completion_note e)"
  "review_note_present c e = None \<longleftrightarrow> note_is_written (review_note e)"
  "design_review_passed c e = None \<longleftrightarrow> design_review e \<noteq> Missing"
proof -
  show "criterion_run_by_reviewer c e = None \<longleftrightarrow>
     (\<forall>k \<in> set (exit_criteria c). is_answered_by_the_human k \<or> reviewer_ran e (criterion_id k))"
    by (auto simp: criterion_run_by_reviewer_def Let_def filter_empty_conv reviewer_ran_def
        split: option.splits)
  show "criterion_passed c e = None \<longleftrightarrow> (\<forall>k \<in> set (exit_criteria c). \<not> failed_for e (criterion_id k))"
    by (auto simp: criterion_passed_def Let_def filter_empty_conv failed_for_def list_ex_iff)
  show "human_criterion_accepted c e = None \<longleftrightarrow>
     (\<forall>k \<in> set (exit_criteria c). is_answered_by_the_human k \<longrightarrow> human_passed e (criterion_id k))"
    by (auto simp: human_criterion_accepted_def Let_def filter_empty_conv human_passed_def list_ex_iff)
  show "no_catervas_path_changed g c e = None \<longleftrightarrow>
     (\<forall>p \<in> set (outside_its_folder g c e). \<not> reaches_the_catervas_directory g p)"
    by (auto simp: no_catervas_path_changed_def Let_def filter_empty_conv)
qed (simp_all add: paths_within_allowed_def no_protected_path_changed_def
      pair_changed_alone_check_def completion_note_present_def review_note_present_def
      design_review_passed_def Let_def split: sum.splits path_refusal.splits glob_error.splits unit.splits)

lemmas done_specs = done_checks_None done_list.ok_iff

text \<open>
  C30: The Definition of Done passes exactly when: every criterion that is not the human's has, as the
  first result the reviewer recorded for it, one with evidence; no criterion has a failed run by the
  reviewer or the human; every human criterion was passed by the human; the diff stays within the
  allowed paths, and outside the task's own private folder touches no protected path and nothing
  under .catervas/; no document changed without its twin; both notes are written; and the Designer's
  pass is not missing.
\<close>

theorem evaluate_done_iff:
  "evaluate_done g c e = Inr () \<longleftrightarrow>
     (\<forall>k \<in> set (exit_criteria c).
        (if criterion_method k = Some ''human'' then human_passed e (criterion_id k)
         else reviewer_ran e (criterion_id k))
        \<and> \<not> failed_for e (criterion_id k))
     \<and> check_allowed_paths g (changed_paths e) (allowed_paths c) = Inr ()
     \<and> check_protected_paths g (outside_its_folder g c e) (evidence_protected_paths e) = Inr ()
     \<and> (\<forall>p \<in> set (outside_its_folder g c e). \<not> reaches_the_catervas_directory g p)
     \<and> pair_changed_alone (changed_paths e) (stale_twins e) = []
     \<and> note_is_written (completion_note e) \<and> note_is_written (review_note e)
     \<and> design_review e \<noteq> Missing"
  unfolding evaluate_done_def done_list.ok_iff
  by (auto simp: DONE_CHECKS_def done_checks_None is_answered_by_the_human_def)

text \<open>
  A refusal by the Definition of Done names exactly the rules the task fails, each once, in the
  order of the rules, and at least one.
\<close>

theorem evaluate_done_refusal:
  assumes "evaluate_done g c e = Inl failures"
  shows "map done_rule_of failures = filter (\<lambda>r. \<not> passes_rule (DONE_CHECKS g) DONE_RULES c e r) DONE_RULES
    \<and> distinct (map done_rule_of failures) \<and> failures \<noteq> []"
  using assms done_list.failures_in_rule_order done_list.failure_distinct
    done_list.failure_never_empty
  unfolding evaluate_done_def by blast

lemma verifies_alone_never_awaits: "catervas_verifies_alone c False \<Longrightarrow> \<not> result_awaits_human c"
  by (simp add: result_awaits_human_def)

definition sample_evidence :: done_evidence where
  "sample_evidence =
     \<lparr>results = [\<lparr>result_criterion_id = ''EC-1'', passed = True, evidence_text = ''ok'',
        result_run_by = ByReviewer\<rparr>],
      changed_paths = [''src/parser/a.rs''], completion_note = Some ''done'',
      review_note = Some ''reads well'', human_accepted = False,
      evidence_protected_paths = DEFAULT_PROTECTED_PATHS, design_review = NotNeeded,
      stale_twins = []\<rparr>"

lemma sample_is_done: "evaluate_done prefix_globs sample_contract sample_evidence = Inr ()"
  by code_simp

theorem evaluate_done_iff_witness:
  "note_is_written (completion_note sample_evidence)
   \<and> check_allowed_paths prefix_globs (changed_paths sample_evidence) (allowed_paths sample_contract) = Inr ()"
  using sample_is_done unfolding evaluate_done_iff by blast

theorem evaluate_done_refusal_witness:
  "\<exists>failures. evaluate_done prefix_globs sample_contract (sample_evidence\<lparr>review_note := None\<rparr>) = Inl failures
     \<and> map done_rule_of failures = [ReviewNotePresent]"
proof -
  have h: "evaluate_done prefix_globs sample_contract (sample_evidence\<lparr>review_note := None\<rparr>)
      = Inl [done_failure ReviewNotePresent NoReviewNote]"
    by code_simp
  show ?thesis using h evaluate_done_refusal [OF h] by auto
qed

end
