(* ===== verification/Transition_Table.thy ===== *)
theory Transition_Table
  imports Task_Status
begin

text \<open>
  crates/core/src/governor/transition\_table.rs: who may ask for which move and the gate it passes,
  as data, and the two lookups. The lemmas read the table: which rows a lookup gives, that nothing
  leaves \<open>cancelled\<close>, that \<open>accepted\<close> has one way out, and what each actor may ask for.
\<close>

datatype transition_actor =
    ProductManagerActor | ScrumMasterActor | AssigneeActor | ReviewerActor | GovernorActor
  | HumanActor

datatype gate_id =
    NoGate | Triaged | DefinitionOfReady | ReadinessExhausted | ContractRequiresHuman
  | AssignmentGate | CriteriaRecorded | BlockerWritten | BlockerResolved | BlockedAgeGate
  | DefinitionOfDone | RejectionReasons | IterationBelowLimit | IterationLimitReached
  | GovernorEscalation | HumanRejection | PullRequestConflicted | DependencyCancelled | Autopilot

datatype status_pattern = Any | Is task_status

fun pattern_matches :: "status_pattern \<Rightarrow> task_status \<Rightarrow> bool" where
  "pattern_matches Any st = True"
| "pattern_matches (Is pattern) st = (pattern = st)"

record transition_row =
  row_from :: status_pattern
  row_to :: status_pattern
  row_actor :: transition_actor
  row_gate :: gate_id

definition row :: "status_pattern \<Rightarrow> status_pattern \<Rightarrow> transition_actor \<Rightarrow> gate_id \<Rightarrow> transition_row"
  where "row from to actor gate =
    \<lparr>row_from = from, row_to = to, row_actor = actor, row_gate = gate\<rparr>"

definition TRANSITION_TABLE :: "transition_row list" where
  "TRANSITION_TABLE = [
     row (Is Draft) (Is Refining) ProductManagerActor Triaged,
     row (Is Refining) (Is Ready) GovernorActor DefinitionOfReady,
     row (Is Refining) (Is Escalated) GovernorActor ReadinessExhausted,
     row (Is Refining) (Is Escalated) GovernorActor ContractRequiresHuman,
     row (Is Refining) (Is Blocked) ProductManagerActor BlockerWritten,
     row (Is Ready) (Is Assigned) ScrumMasterActor AssignmentGate,
     row (Is Ready) (Is Assigned) ProductManagerActor AssignmentGate,
     row (Is Assigned) (Is InProgress) AssigneeActor NoGate,
     row (Is InProgress) (Is Verifying) AssigneeActor CriteriaRecorded,
     row (Is InProgress) (Is Blocked) AssigneeActor BlockerWritten,
     row (Is Assigned) (Is Blocked) AssigneeActor BlockerWritten,
     row (Is Blocked) (Is InProgress) ScrumMasterActor BlockerResolved,
     row (Is Blocked) (Is InProgress) HumanActor BlockerResolved,
     row (Is Blocked) (Is Verifying) ScrumMasterActor BlockerResolved,
     row (Is Blocked) (Is Verifying) HumanActor BlockerResolved,
     row (Is Blocked) (Is Refining) HumanActor BlockerResolved,
     row (Is Blocked) (Is Escalated) GovernorActor BlockedAgeGate,
     row (Is Verifying) (Is Accepted) ProductManagerActor DefinitionOfDone,
     row (Is Verifying) (Is Accepted) GovernorActor DefinitionOfDone,
     row (Is Verifying) (Is Rejected) ReviewerActor RejectionReasons,
     row (Is Verifying) (Is Rejected) GovernorActor RejectionReasons,
     row (Is Verifying) (Is Rejected) HumanActor HumanRejection,
     row (Is Verifying) (Is Blocked) ReviewerActor BlockerWritten,
     row (Is Rejected) (Is InProgress) GovernorActor IterationBelowLimit,
     row (Is Rejected) (Is Escalated) GovernorActor IterationLimitReached,
     row (Is Accepted) (Is Assigned) GovernorActor PullRequestConflicted,
     row (Is Ready) (Is Refining) GovernorActor DependencyCancelled,
     row (Is Ready) (Is Refining) HumanActor NoGate,
     row Any (Is Escalated) GovernorActor GovernorEscalation,
     row Any (Is Escalated) HumanActor NoGate,
     row Any (Is Cancelled) HumanActor NoGate,
     row (Is Escalated) Any HumanActor NoGate,
     row (Is Ready) (Is Refining) ProductManagerActor NoGate,
     row (Is Blocked) (Is InProgress) ProductManagerActor Autopilot,
     row (Is Blocked) (Is Verifying) ProductManagerActor Autopilot,
     row (Is Blocked) (Is Refining) ProductManagerActor Autopilot,
     row (Is Verifying) (Is Rejected) ProductManagerActor Autopilot,
     row Any (Is Escalated) ProductManagerActor Autopilot,
     row Any (Is Cancelled) ProductManagerActor Autopilot,
     row (Is Escalated) Any ProductManagerActor Autopilot]"

text \<open>An \<open>any\<close> row never applies to a terminal status.\<close>

definition leaves :: "transition_row \<Rightarrow> task_status \<Rightarrow> bool" where
  "leaves r from \<longleftrightarrow>
     pattern_matches (row_from r) from \<and> (row_from r \<noteq> Any \<or> \<not> is_terminal from)"

definition find_transitions :: "task_status \<Rightarrow> task_status \<Rightarrow> transition_row list" where
  "find_transitions from to =
     (if from = to then []
      else filter (\<lambda>r. leaves r from \<and> pattern_matches (row_to r) to) TRANSITION_TABLE)"

definition transitions_from :: "task_status \<Rightarrow> transition_row list" where
  "transitions_from from =
     filter (\<lambda>r. leaves r from \<and> row_to r \<noteq> Is from) TRANSITION_TABLE"

section \<open>Reading the table\<close>

lemma row_simps [simp]:
  "row_from (row f t a g) = f" "row_to (row f t a g) = t"
  "row_actor (row f t a g) = a" "row_gate (row f t a g) = g"
  by (simp_all add: row_def)

lemma row_eq_iff [simp]: "row f t a g = row f' t' a' g' \<longleftrightarrow> f = f' \<and> t = t' \<and> a = a' \<and> g = g'"
  by (simp add: row_def)

lemma find_transitions_iff:
  "r \<in> set (find_transitions from to) \<longleftrightarrow>
     r \<in> set TRANSITION_TABLE \<and> from \<noteq> to \<and> leaves r from \<and> pattern_matches (row_to r) to"
  by (simp add: find_transitions_def)

lemma find_transitions_self [simp]: "find_transitions s s = []"
  by (simp add: find_transitions_def)

lemma find_transitions_Cancelled [simp]: "find_transitions Cancelled to = []"
  by (simp add: find_transitions_def TRANSITION_TABLE_def leaves_def)

lemma find_transitions_Accepted:
  "find_transitions Accepted to =
     (if to = Assigned then [row (Is Accepted) (Is Assigned) GovernorActor PullRequestConflicted]
      else [])"
  by (cases to) (simp_all add: find_transitions_def TRANSITION_TABLE_def leaves_def)

lemma find_transitions_to_Accepted:
  "r \<in> set (find_transitions from Accepted) \<Longrightarrow>
     (from = Verifying \<and> row_gate r = DefinitionOfDone
        \<and> row_actor r \<in> {ProductManagerActor, GovernorActor})
   \<or> (from = Escalated \<and> (row_actor r = HumanActor \<and> row_gate r = NoGate
        \<or> row_actor r = ProductManagerActor \<and> row_gate r = Autopilot))"
  by (cases "from") (auto simp: find_transitions_def TRANSITION_TABLE_def leaves_def)

text \<open>
  What each actor may ask for, written as the specification's prose gives it: the abstract contract
  of the table. \<open>asks from actor to\<close> says that some row carries that actor's request.
\<close>

definition human_asks :: "task_status \<Rightarrow> task_status \<Rightarrow> bool" where
  "human_asks from to \<longleftrightarrow>
     (from \<noteq> to \<and> \<not> is_terminal from \<and>
      (from = Escalated \<or> to = Escalated \<or> to = Cancelled
       \<or> from = Blocked \<and> to \<in> {InProgress, Verifying, Refining}
       \<or> from = Verifying \<and> to = Rejected \<or> from = Ready \<and> to = Refining))"

fun asks :: "task_status \<Rightarrow> transition_actor \<Rightarrow> task_status \<Rightarrow> bool" where
  "asks from HumanActor to = human_asks from to"
| "asks from ProductManagerActor to =
     ((from, to) \<in> {(Draft, Refining), (Refining, Blocked), (Ready, Assigned), (Verifying, Accepted)}
      \<or> human_asks from to)"
| "asks from ScrumMasterActor to =
     ((from, to) \<in> {(Ready, Assigned), (Blocked, InProgress), (Blocked, Verifying)})"
| "asks from AssigneeActor to =
     ((from, to) \<in> {(Assigned, InProgress), (InProgress, Verifying), (InProgress, Blocked),
                     (Assigned, Blocked)})"
| "asks from ReviewerActor to = ((from, to) \<in> {(Verifying, Rejected), (Verifying, Blocked)})"
| "asks from GovernorActor to =
     ((from, to) \<in> {(Refining, Ready), (Verifying, Accepted), (Verifying, Rejected),
                     (Rejected, InProgress), (Accepted, Assigned), (Ready, Refining)}
      \<or> to = Escalated \<and> from \<noteq> Escalated \<and> \<not> is_terminal from)"

definition has_row :: "task_status \<Rightarrow> transition_actor \<Rightarrow> task_status \<Rightarrow> bool" where
  "has_row from actor to \<longleftrightarrow> list_ex (\<lambda>r. row_actor r = actor) (find_transitions from to)"

lemma has_row_iff: "has_row from actor to \<longleftrightarrow> (\<exists>r \<in> set (find_transitions from to). row_actor r = actor)"
  by (simp add: has_row_def list_ex_iff)

lemma table_matches_asks: "has_row from actor to \<longleftrightarrow> asks from actor to"
proof -
  have "list_all (\<lambda>f. list_all (\<lambda>t. list_all (\<lambda>a. has_row f a t = asks f a t)
          [ProductManagerActor, ScrumMasterActor, AssigneeActor, ReviewerActor, GovernorActor,
           HumanActor]) TASK_STATUSES) TASK_STATUSES"
    by code_simp
  moreover have "actor \<in> set [ProductManagerActor, ScrumMasterActor, AssigneeActor, ReviewerActor,
      GovernorActor, HumanActor]"
    by (cases actor) simp_all
  ultimately show ?thesis
    using TASK_STATUSES_complete(1) unfolding list_all_iff by blast
qed

lemma transitions_from_find:
  "from \<noteq> to \<Longrightarrow>
     find_transitions from to = filter (\<lambda>r. pattern_matches (row_to r) to) (transitions_from from)"
  by (auto simp: find_transitions_def transitions_from_def intro!: filter_cong)

end
