(* ===== verification/Gates.thy ===== *)
theory Gates
  imports Done Transition_Table
begin

text \<open>
  crates/core/src/governor/gates.rs: the gate predicates of the transition table, the hand-over of a
  task, the rules of a contract write and of a triage. A gate answers every reason it refuses for, in
  the order its rules are written; a reason is a constructor that carries what its text
  interpolates, and its words are the comment beside it.
\<close>

section \<open>Reasons\<close>

datatype assignment_reason =
    ManagerAssignsOnlyWithoutScrumMaster
      \<comment> \<open>the Product Manager assigns only when the team has no active Scrum Master\<close>
  | NoScrumMasterSoManagerAssigns
      \<comment> \<open>this team has no active Scrum Master, so the Product Manager assigns\<close>
  | AssigneeRoleIs role role \<comment> \<open>the assignee has role ... and this contract is assigned to role ...\<close>
  | ReviewerRoleIs role role \<comment> \<open>the reviewer has role ... and this contract is reviewed by role ...\<close>
  | NoAssigneeNamed \<comment> \<open>the runtime named no agent for the assignee\<close>
  | NoReviewerNamed \<comment> \<open>the runtime named no agent for the reviewer\<close>
  | CannotReviewOwnWork string \<comment> \<open>... cannot review its own work\<close>
  | HoldsUnfinished string u32 u32 \<comment> \<open>... already holds ... unfinished tasks and the limit is ...\<close>
  | TakesNoWork string \<comment> \<open>... takes no work: its limit is zero\<close>
  | PrivateFolderBusy string \<comment> \<open>private_folder_busy: another task holds ...\<close>
  | LaneTaken u64 string string string \<comment> \<open>lane_taken: lane, epic, builder, task\<close>
  | PreviewNotSet \<comment> \<open>preview_not_set\<close>
  | DesignerNeedsSandbox \<comment> \<open>designer_needs_sandbox\<close>
  | DesignerNeedsBrowser \<comment> \<open>designer_needs_browser\<close>
  | DependencyReportedTwice string \<comment> \<open>the runtime reported ... twice, and a dependency has one state\<close>
  | DependsOnItself string \<comment> \<open>... depends on itself, which nothing can satisfy\<close>
  | NothingReportedAbout string \<comment> \<open>the runtime reported nothing about ...\<close>
  | DependencyIs string task_status \<comment> \<open>... is ... and a dependency is assigned only once accepted\<close>

datatype hand_over_reason =
    OnlyAssignedOrInProgress task_status \<comment> \<open>only an assigned or in-progress task is handed over\<close>
  | StillWithinLimit string \<comment> \<open>... is still within its limit of work\<close>
  | EpicNeverReplaced \<comment> \<open>an epic's assignee coordinates it and is never replaced\<close>
  | LaneWaits \<comment> \<open>the task belongs to a lane, which waits for its builder\<close>
  | NotActive string \<comment> \<open>... is not active\<close>
  | HasRole string role role \<comment> \<open>... has role ... and this contract is assigned to role ...\<close>
  | HolderAtLimit string u32 u32 \<comment> \<open>... already holds ... unfinished tasks and the limit is ...\<close>
  | AlreadyHolds string \<comment> \<open>... already holds the task\<close>
  | HolderIsReviewer string \<comment> \<open>... cannot review its own work\<close>

datatype work_reason =
    NoRunFor string \<comment> \<open>the assignee recorded no run with evidence for ...\<close>
  | NoDocumentChanged \<comment> \<open>the task changed no document in docs/catervas/\<close>
  | NoCommit \<comment> \<open>the task branch has no commit on it\<close>
  | UncommittedChanges \<comment> \<open>the worktree has changes that are not committed\<close>
  | NotInYourFolder string \<comment> \<open>... is not in your folder\<close>
  | NameTheWorkbooks \<comment> \<open>name the workbooks you wrote\<close>
  | ChildReportedTwice string \<comment> \<open>the runtime reported ... twice, and a task under this epic has one state\<close>
  | ChildrenUnfinished "(string option \<times> task_status) list"
      \<comment> \<open>every task under this epic is accepted or cancelled first, and ...; the tasks as they are
          named, those the runtime did not name as None\<close>
  | NoChildAccepted \<comment> \<open>no task under this epic was accepted, so there is nothing to verify\<close>

datatype path_reason =
    NoBlocker \<comment> \<open>a task is blocked with a written blocker\<close>
  | BlockerSaysNoObstacle \<comment> \<open>the blocker does not say what is in the way\<close>
  | BlockerSaysNoNeed \<comment> \<open>the blocker does not say what is needed to clear it\<close>
  | NoResolution \<comment> \<open>a blocker is cleared with a written resolution\<close>
  | BlockedWhile "task_status option" task_status
      \<comment> \<open>the task was blocked while ..., so an answer sends it back to ...; None reads \<open>working\<close>\<close>
  | PullRequestMerges \<comment> \<open>the task's pull request merges, so it stays accepted\<close>
  | NoDependencyCancelled \<comment> \<open>no dependency of the task was cancelled, so it stays ready\<close>
  | NotTheEpicsWriter "string option" \<comment> \<open>a task under an epic is written by the epic's assignee, ...\<close>
  | EpicIs task_status \<comment> \<open>the epic is ... and its tasks are written while it is in progress\<close>
  | TriageTooLate task_status \<comment> \<open>the request is ...\<close>
  | TriageOfAnEpicsTask \<comment> \<open>this task belongs to an epic, and an epic's tasks are not triaged\<close>

datatype rejection_reason =
    NoRejection \<comment> \<open>work is rejected with written reasons mapped to the criteria that failed\<close>
  | RejectionNamesNothing \<comment> \<open>the rejection names no failed criterion\<close>
  | RejectionSaysNothing \<comment> \<open>the rejection says nothing about why the criteria failed\<close>
  | RejectionNamesABlank \<comment> \<open>the rejection names a criterion with no id\<close>
  | ContractHasNo string \<comment> \<open>this contract has no ...\<close>

definition verdict :: "'r list \<Rightarrow> ('r list, unit) result" where
  "verdict reasons = (if reasons = [] then Inr () else Inl reasons)"

definition is_written :: "string \<Rightarrow> bool" where
  "is_written text \<longleftrightarrow> \<not> is_blank text"

definition fits_within :: "f64 \<Rightarrow> f64 \<Rightarrow> bool" where
  "fits_within cost remaining \<longleftrightarrow> float_le cost remaining"

text \<open>A reason pushed under a condition.\<close>

definition reason_if :: "bool \<Rightarrow> 'r \<Rightarrow> 'r list" where
  "reason_if b r = (if b then [r] else [])"

definition opt_list :: "'r option \<Rightarrow> 'r list" where
  "opt_list r = (case r of None \<Rightarrow> [] | Some x \<Rightarrow> [x])"

lemma verdict_Inr_iff [simp]: "verdict rs = Inr () \<longleftrightarrow> rs = []"
  by (simp add: verdict_def)

lemma reason_if_Nil [simp]: "reason_if b r = [] \<longleftrightarrow> \<not> b"
  by (simp add: reason_if_def)

lemma opt_list_Nil [simp]: "opt_list r = [] \<longleftrightarrow> r = None"
  by (cases r) (simp_all add: opt_list_def)

section \<open>Assignment\<close>

datatype assignment_requester = ScrumMasterAsks | ProductManagerAsks

record dependency_state =
  dependency_id :: string
  dependency_status :: task_status

datatype designer_browser = BrowserReady | NoPreview | NoSandbox | NoConnector

record assignment_input =
  requested_by :: assignment_requester
  has_active_scrum_master :: bool
  assignee_id :: string
  assignee_agent_role :: role
  reviewer_id :: string
  reviewer_agent_role :: role
  assignee_open_tasks :: u32
  wip_limit :: u32
  dependency_states :: "dependency_state list"
  browser :: designer_browser
  private_folder_busy :: bool
  lane_builder :: "string option"
  assignment_solo :: bool
  past_limit_allowed :: bool

definition over_the_limit :: "assignment_input \<Rightarrow> assignment_reason option" where
  "over_the_limit input =
     (if wip_limit input \<le> assignee_open_tasks input \<and> \<not> (past_limit_allowed input \<and> 0 < wip_limit input)
      then Some (if wip_limit input = 0 then TakesNoWork (trim (assignee_id input))
                 else HoldsUnfinished (trim (assignee_id input)) (assignee_open_tasks input) (wip_limit input))
      else None)"

definition without_the_folder :: "assignment_input \<Rightarrow> assignment_reason option" where
  "without_the_folder input =
     (if private_folder_busy input
      then Some (PrivateFolderBusy
             (case private_folder (assignee_agent_role input) of
                None \<Rightarrow> ''the assignee's private folder'' | Some folder \<Rightarrow> folder))
      else None)"

definition lane_taken :: "task_contract \<Rightarrow> assignment_input \<Rightarrow> assignment_reason option" where
  "lane_taken contract input =
     (case lane_builder input of None \<Rightarrow> None | Some builder \<Rightarrow>
     (case (lane contract, parent contract) of
        (Some l, Some epic) \<Rightarrow>
          if trim builder \<noteq> trim (assignee_id input)
          then Some (LaneTaken l epic builder (task_id contract)) else None
      | _ \<Rightarrow> None))"

definition without_a_browser :: "assignment_input \<Rightarrow> assignment_reason option" where
  "without_a_browser input =
     (if assignee_agent_role input \<noteq> UiUxDesigner then None
      else (case browser input of
              BrowserReady \<Rightarrow> None
            | NoPreview \<Rightarrow> Some PreviewNotSet
            | NoSandbox \<Rightarrow> Some DesignerNeedsSandbox
            | NoConnector \<Rightarrow> Some DesignerNeedsBrowser))"

text \<open>The loop over the states the runtime reported: \<open>reported\<close> and \<open>twice\<close> are its two lists.\<close>

fun reported_twice :: "string list \<Rightarrow> string list \<Rightarrow> string list \<Rightarrow> string list" where
  "reported_twice reported twice [] = twice"
| "reported_twice reported twice (i # ids) =
     (if i \<in> set reported then reported_twice reported (twice @ [i]) ids
      else reported_twice (reported @ [i]) twice ids)"

definition unready_dependencies :: "task_contract \<Rightarrow> assignment_input \<Rightarrow> assignment_reason list" where
  "unready_dependencies contract input =
     (let named = each_once (map trim (dependencies contract));
          twice = reported_twice [] []
            (filter (\<lambda>i. i \<in> set named) (map (\<lambda>s. trim (dependency_id s)) (dependency_states input)))
      in if twice \<noteq> [] then [DependencyReportedTwice (distinct_text twice)]
         else filter_map (\<lambda>i.
           if i = task_id contract then Some (DependsOnItself i)
           else (case List.find (\<lambda>s. trim (dependency_id s) = i) (dependency_states input) of
                   None \<Rightarrow> Some (NothingReportedAbout i)
                 | Some s \<Rightarrow> if dependency_status s \<noteq> Accepted then Some (DependencyIs i (dependency_status s))
                             else None)) named)"

definition expected_assignee :: "task_contract \<Rightarrow> assignment_input \<Rightarrow> role" where
  "expected_assignee contract input =
     (if kind_of contract = Epic
      then (if has_active_scrum_master input then ScrumMaster else ProductManager)
      else assignee_role contract)"

definition expected_reviewer :: "task_contract \<Rightarrow> assignment_input \<Rightarrow> role" where
  "expected_reviewer contract input =
     (if kind_of contract = Epic
      then (if has_active_scrum_master input then ProductManager else HumanRole)
      else reviewer_role contract)"

definition requester_reasons :: "assignment_input \<Rightarrow> assignment_reason list" where
  "requester_reasons input =
     (case (requested_by input, has_active_scrum_master input) of
        (ProductManagerAsks, True) \<Rightarrow> [ManagerAssignsOnlyWithoutScrumMaster]
      | (ScrumMasterAsks, False) \<Rightarrow> [NoScrumMasterSoManagerAssigns]
      | _ \<Rightarrow> [])"

definition may_review_itself :: "task_contract \<Rightarrow> bool" where
  "may_review_itself contract \<longleftrightarrow>
     assignee_role contract = reviewer_role contract \<and> reviews_its_own (assignee_role contract)"

definition reviewer_reasons :: "task_contract \<Rightarrow> assignment_input \<Rightarrow> assignment_reason list" where
  "reviewer_reasons contract input =
     (if expected_reviewer contract input \<noteq> HumanRole \<and> \<not> assignment_solo input
      then (if trim (reviewer_id input) = [] then [NoReviewerNamed]
            else if trim (reviewer_id input) = trim (assignee_id input) \<and> \<not> may_review_itself contract
                 then [CannotReviewOwnWork (trim (assignee_id input))]
                 else [])
      else [])"

definition check_assignment :: "task_contract \<Rightarrow> assignment_input \<Rightarrow> (assignment_reason list, unit) result" where
  "check_assignment contract input =
     (let ea = expected_assignee contract input;
          builds = (if kind_of contract = Epic then assignee_agent_role input = ea
                    else may_build (assignee_agent_role input) ea);
          er = expected_reviewer contract input
      in verdict (
           requester_reasons input
           @ reason_if (\<not> builds) (AssigneeRoleIs (assignee_agent_role input) ea)
           @ reason_if (\<not> assignment_solo input
                        \<and> \<not> may_review (reviewer_agent_role input) er (assignee_agent_role input))
               (ReviewerRoleIs (reviewer_agent_role input) er)
           @ reason_if (trim (assignee_id input) = []) NoAssigneeNamed
           @ reviewer_reasons contract input
           @ opt_list (over_the_limit input)
           @ opt_list (without_the_folder input)
           @ opt_list (lane_taken contract input)
           @ opt_list (without_a_browser input)
           @ unready_dependencies contract input))"

section \<open>Hand-over\<close>

record reassignment_input =
  re_kind :: kind
  re_status :: task_status
  returning :: bool
  has_lane :: bool
  re_from :: string
  re_to :: string
  to_role :: role
  to_active :: bool
  to_open_tasks :: u32
  re_wip_limit :: u32
  re_reviewer_id :: "string option"

definition check_reassignment :: "task_contract \<Rightarrow> reassignment_input \<Rightarrow> (hand_over_reason list, unit) result" where
  "check_reassignment contract input =
     (let to = trim (re_to input) in
      verdict (
        reason_if (re_status input \<notin> {Assigned, InProgress}) (OnlyAssignedOrInProgress (re_status input))
        @ reason_if (\<not> returning input) (StillWithinLimit (trim (re_from input)))
        @ reason_if (re_kind input = Epic) EpicNeverReplaced
        @ reason_if (has_lane input) LaneWaits
        @ reason_if (\<not> to_active input) (NotActive to)
        @ reason_if (to_role input \<noteq> assignee_role contract)
            (HasRole to (to_role input) (assignee_role contract))
        @ reason_if (re_wip_limit input \<le> to_open_tasks input)
            (HolderAtLimit to (to_open_tasks input) (re_wip_limit input))
        @ reason_if (to = trim (re_from input)) (AlreadyHolds to)
        @ reason_if (map_option trim (re_reviewer_id input) = Some to \<and> \<not> may_review_itself contract)
            (HolderIsReviewer to)))"

section \<open>Work declared done\<close>

record folder_work =
  named_workbooks :: "string list"
  missing_workbooks :: "string list"
  changed_in_folder :: "string list"

record document_work =
  only_documents :: bool
  changed_documents :: "string list"

record work_state =
  commits :: u32
  worktree_clean :: bool
  folder_of_work :: "folder_work option"
  documents_of_work :: "document_work option"

definition unnamed_workbooks :: "folder_work option \<Rightarrow> work_reason list" where
  "unnamed_workbooks folder =
     (case folder of
        Some f \<Rightarrow> if named_workbooks f \<noteq> [] then map NotInYourFolder (missing_workbooks f)
                  else [NameTheWorkbooks]
      | None \<Rightarrow> [NameTheWorkbooks])"

definition check_criteria_recorded ::
  "task_contract \<Rightarrow> criterion_result list \<Rightarrow> work_state \<Rightarrow> (work_reason list, unit) result" where
  "check_criteria_recorded contract assignee_results work =
     (let missing =
            filter (\<lambda>cid. \<not> list_ex (\<lambda>result. trim (result_criterion_id result) = cid
                              \<and> result_run_by result = ByAssignee
                              \<and> is_written (evidence_text result)) assignee_results)
              (map criterion_id
                (filter (\<lambda>c. criterion_method c \<notin> {Some ''human'', Some ''review''})
                  (exit_criteria contract)));
          documents_only = (case documents_of_work work of
                              None \<Rightarrow> None
                            | Some d \<Rightarrow> if only_documents d then Some d else None)
      in verdict (
           reason_if (missing \<noteq> []) (NoRunFor (listed ''criterion'' ''criteria'' missing))
           @ (if task_private_folder contract \<noteq> None then unnamed_workbooks (folder_of_work work)
              else
                (case documents_only of
                   Some documents \<Rightarrow> reason_if (changed_documents documents = []) NoDocumentChanged
                 | None \<Rightarrow> reason_if (commits work = 0) NoCommit)
                @ reason_if (\<not> worktree_clean work) UncommittedChanges)))"

record child_state =
  child_id :: string
  child_status :: task_status

definition check_children_done :: "child_state list \<Rightarrow> (work_reason list, unit) result" where
  "check_children_done children =
     (let twice = reported_twice [] []
            (filter (\<lambda>i. i \<noteq> []) (map (\<lambda>c. trim (child_id c)) children))
      in if twice \<noteq> [] then Inl [ChildReportedTwice (distinct_text twice)]
         else
           let unfinished =
                 map (\<lambda>c. (if trim (child_id c) = [] then None else Some (trim (child_id c)),
                           child_status c))
                   (filter (\<lambda>c. \<not> is_terminal (child_status c)) children)
           in verdict (
                reason_if (unfinished \<noteq> []) (ChildrenUnfinished unfinished)
                @ reason_if (\<not> list_ex (\<lambda>c. child_status c = Accepted) children) NoChildAccepted))"

section \<open>Writing a task under an epic\<close>

record contract_write_actor =
  writer_kind :: transition_actor
  writer_id :: "string option"

record parent_epic =
  epic_status :: task_status
  epic_assignee :: string

definition check_child_creation :: "parent_epic \<Rightarrow> contract_write_actor \<Rightarrow> (path_reason list, unit) result" where
  "check_child_creation epic actor =
     (let named = trim (epic_assignee epic);
          is_the_assignee = named \<noteq> [] \<and> writer_kind actor \<noteq> GovernorActor
                            \<and> map_option trim (writer_id actor) = Some named
      in verdict (
           reason_if (writer_kind actor \<notin> {HumanActor, ProductManagerActor} \<and> \<not> is_the_assignee)
             (NotTheEpicsWriter (if named = [] then None else Some named))
           @ reason_if (epic_status epic \<noteq> InProgress) (EpicIs (epic_status epic))))"

section \<open>Blocks\<close>

record blocker =
  description :: string
  needed :: string

definition check_blocker_written :: "blocker option \<Rightarrow> (path_reason list, unit) result" where
  "check_blocker_written b =
     (case b of
        None \<Rightarrow> Inl [NoBlocker]
      | Some bl \<Rightarrow> verdict (
          reason_if (\<not> is_written (description bl)) BlockerSaysNoObstacle
          @ reason_if (\<not> is_written (needed bl)) BlockerSaysNoNeed))"

definition check_human_triage :: "task_status \<Rightarrow> bool \<Rightarrow> (path_reason list, unit) result" where
  "check_human_triage st has_parent =
     verdict (reason_if (st \<noteq> Draft) (TriageTooLate st) @ reason_if has_parent TriageOfAnEpicsTask)"

definition return_from_block :: "task_status option \<Rightarrow> task_status" where
  "return_from_block blocked_from =
     (case blocked_from of
        Some Verifying \<Rightarrow> Verifying
      | Some Refining \<Rightarrow> Refining
      | _ \<Rightarrow> InProgress)"

definition check_blocker_resolved ::
  "string option \<Rightarrow> task_status option \<Rightarrow> task_status \<Rightarrow> (path_reason list, unit) result" where
  "check_blocker_resolved resolution blocked_from to =
     (if \<not> (case resolution of None \<Rightarrow> False | Some r \<Rightarrow> is_written r) then Inl [NoResolution]
      else
        let back = return_from_block blocked_from in
        if to = Refining \<or> to = back then Inr ()
        else Inl [BlockedWhile blocked_from back])"

definition check_pull_request_conflicted :: "string list \<Rightarrow> (path_reason list, unit) result" where
  "check_pull_request_conflicted conflicts =
     (if conflicts = [] then Inl [PullRequestMerges] else Inr ())"

text \<open>A \<open>BTreeMap\<close> is the list of its entries in key order; its keys are distinct.\<close>

definition check_dependency_cancelled :: "(string \<times> task_status) list \<Rightarrow> (path_reason list, unit) result" where
  "check_dependency_cancelled statuses =
     (if list_ex (\<lambda>(_, st). st = Cancelled) statuses then Inr () else Inl [NoDependencyCancelled])"

section \<open>Rejections\<close>

record rejection =
  failed_criterion_ids :: "string list"
  rejection_reasons :: string

definition check_failed_criterion_ids :: "task_contract \<Rightarrow> string list \<Rightarrow> (rejection_reason list, unit) result" where
  "check_failed_criterion_ids contract ids =
     (let unknown =
            filter (\<lambda>i. \<not> list_ex (\<lambda>c. criterion_id c = i) (exit_criteria contract))
              (filter (\<lambda>i. i \<noteq> []) (map trim ids))
      in verdict (
           reason_if (list_ex (\<lambda>i. trim i = []) ids) RejectionNamesABlank
           @ reason_if (unknown \<noteq> []) (ContractHasNo (listed ''criterion'' ''criteria'' unknown))))"

definition reasons_of :: "('r list, unit) result \<Rightarrow> 'r list" where
  "reasons_of r = (case r of Inl rs \<Rightarrow> rs | Inr _ \<Rightarrow> [])"

definition check_rejection_reasons :: "task_contract \<Rightarrow> rejection option \<Rightarrow> (rejection_reason list, unit) result" where
  "check_rejection_reasons contract rejected =
     (case rejected of
        None \<Rightarrow> Inl [NoRejection]
      | Some r \<Rightarrow> verdict (
          reason_if (failed_criterion_ids r = []) RejectionNamesNothing
          @ reasons_of (check_failed_criterion_ids contract (failed_criterion_ids r))
          @ reason_if (\<not> is_written (rejection_reasons r)) RejectionSaysNothing))"

definition check_design_rejection :: "task_contract \<Rightarrow> rejection option \<Rightarrow> (rejection_reason list, unit) result" where
  "check_design_rejection contract rejected =
     (case rejected of
        None \<Rightarrow> Inl [NoRejection]
      | Some r \<Rightarrow> verdict (
          reasons_of (check_failed_criterion_ids contract (failed_criterion_ids r))
          @ reason_if (\<not> is_written (rejection_reasons r)) RejectionSaysNothing))"

lemma reasons_of_Nil_iff: "r \<noteq> Inl [] \<Longrightarrow> reasons_of r = [] \<longleftrightarrow> r = Inr ()"
  by (cases r) (auto simp: reasons_of_def)

lemma verdict_not_empty [simp]: "verdict rs \<noteq> Inl []"
  by (simp add: verdict_def)

lemma check_failed_criterion_ids_ok:
  "check_failed_criterion_ids c ids = Inr () \<longleftrightarrow>
     (\<forall>i \<in> set ids. trim i \<noteq> [] \<and> trim i \<in> criterion_id ` set (exit_criteria c))"
proof -
  have "(\<exists>k \<in> set (exit_criteria c). criterion_id k = j) \<longleftrightarrow> j \<in> criterion_id ` set (exit_criteria c)" for j
    by auto
  then show ?thesis
    by (simp add: check_failed_criterion_ids_def Let_def filter_empty_conv list_ex_iff) blast
qed

lemma check_failed_criterion_ids_not_empty [simp]: "check_failed_criterion_ids c ids \<noteq> Inl []"
  by (simp add: check_failed_criterion_ids_def Let_def)

lemma check_rejection_reasons_ok:
  "check_rejection_reasons c r = Inr () \<longleftrightarrow>
     (\<exists>x. r = Some x \<and> failed_criterion_ids x \<noteq> [] \<and> is_written (rejection_reasons x)
        \<and> (\<forall>i \<in> set (failed_criterion_ids x). trim i \<noteq> [] \<and> trim i \<in> criterion_id ` set (exit_criteria c)))"
  by (cases r) (auto simp: check_rejection_reasons_def reasons_of_Nil_iff check_failed_criterion_ids_ok)

section \<open>Assignments that pass\<close>

lemma reported_twice_Nil:
  "distinct reported \<Longrightarrow>
     reported_twice reported twice ids = [] \<longleftrightarrow> twice = [] \<and> distinct (reported @ ids)"
  by (induction reported twice ids rule: reported_twice.induct) auto

lemma unready_dependencies_Nil:
  "unready_dependencies c i = [] \<longleftrightarrow>
     distinct (filter (\<lambda>d. d \<in> trim ` set (dependencies c))
                 (map (\<lambda>s. trim (dependency_id s)) (dependency_states i)))
     \<and> (\<forall>d \<in> set (dependencies c). trim d \<noteq> task_id c
          \<and> (\<exists>s. List.find (\<lambda>s. trim (dependency_id s) = trim d) (dependency_states i) = Some s
                 \<and> dependency_status s = Accepted))"
  by (auto simp: unready_dependencies_def Let_def reported_twice_Nil filter_map_Nil_iff
      split: option.splits if_splits)

text \<open>
  An assignment passes exactly when the right coordinator asked, the pair's roles fit the
  contract, both agents are named, the reviewer is another agent (but where the Product Manager
  reviews its own), the assignee has room, no other task holds its private folder, its lane is its
  own, a Designer can open the app, and every dependency was reported once and is accepted.
\<close>

theorem check_assignment_iff:
  "check_assignment c i = Inr () \<longleftrightarrow>
     (requested_by i = ScrumMasterAsks \<longleftrightarrow> has_active_scrum_master i)
     \<and> (if kind_of c = Epic then assignee_agent_role i = expected_assignee c i
        else may_build (assignee_agent_role i) (assignee_role c))
     \<and> (assignment_solo i \<or> may_review (reviewer_agent_role i) (expected_reviewer c i) (assignee_agent_role i))
     \<and> trim (assignee_id i) \<noteq> []
     \<and> (assignment_solo i \<or> expected_reviewer c i = HumanRole
        \<or> trim (reviewer_id i) \<noteq> [] \<and> (trim (reviewer_id i) \<noteq> trim (assignee_id i) \<or> may_review_itself c))
     \<and> (assignee_open_tasks i < wip_limit i \<or> past_limit_allowed i \<and> 0 < wip_limit i)
     \<and> \<not> private_folder_busy i
     \<and> (lane_builder i = None \<or> lane c = None \<or> parent c = None
        \<or> map_option trim (lane_builder i) = Some (trim (assignee_id i)))
     \<and> (assignee_agent_role i = UiUxDesigner \<longrightarrow> browser i = BrowserReady)
     \<and> unready_dependencies c i = []"
proof -
  have requester: "requester_reasons i = [] \<longleftrightarrow> (requested_by i = ScrumMasterAsks \<longleftrightarrow> has_active_scrum_master i)"
    by (cases "requested_by i"; cases "has_active_scrum_master i") (simp_all add: requester_reasons_def)
  have room: "over_the_limit i = None \<longleftrightarrow>
      (assignee_open_tasks i < wip_limit i \<or> past_limit_allowed i \<and> 0 < wip_limit i)"
    by (auto simp: over_the_limit_def not_le)
  have folder: "without_the_folder i = None \<longleftrightarrow> \<not> private_folder_busy i"
    by (simp add: without_the_folder_def)
  have lane: "lane_taken c i = None \<longleftrightarrow> (lane_builder i = None \<or> lane c = None \<or> parent c = None
        \<or> map_option trim (lane_builder i) = Some (trim (assignee_id i)))"
    by (auto simp: lane_taken_def split: option.splits)
  have browser: "without_a_browser i = None \<longleftrightarrow> (assignee_agent_role i = UiUxDesigner \<longrightarrow> browser i = BrowserReady)"
    by (auto simp: without_a_browser_def split: designer_browser.splits)
  have reviewer: "reviewer_reasons c i = [] \<longleftrightarrow> (assignment_solo i \<or> expected_reviewer c i = HumanRole
        \<or> trim (reviewer_id i) \<noteq> [] \<and> (trim (reviewer_id i) \<noteq> trim (assignee_id i) \<or> may_review_itself c))"
    by (auto simp: reviewer_reasons_def)
  have builds: "(if kind_of c = Epic then assignee_agent_role i = expected_assignee c i
        else may_build (assignee_agent_role i) (expected_assignee c i)) \<longleftrightarrow>
      (if kind_of c = Epic then assignee_agent_role i = expected_assignee c i
        else may_build (assignee_agent_role i) (assignee_role c))"
    by (simp add: expected_assignee_def)
  show ?thesis
    by (simp only: check_assignment_def Let_def verdict_Inr_iff append_is_Nil_conv reason_if_Nil
        opt_list_Nil requester room folder lane browser reviewer builds de_Morgan_conj not_not)
qed

text \<open>
  Nobody grades their own homework: an assignment that passes in a team of more than one agent
  names a reviewer that is not the assignee, unless the human reviews the epic or the Product Manager
  reviews its own task.
\<close>

theorem assignment_separates_duties:
  assumes "check_assignment c i = Inr ()" and "\<not> assignment_solo i"
  shows "trim (reviewer_id i) \<noteq> trim (assignee_id i)
    \<or> (kind_of c = Epic \<and> \<not> has_active_scrum_master i)
    \<or> reviewer_role c = HumanRole
    \<or> (assignee_role c = ProductManager \<and> reviewer_role c = ProductManager)"
proof -
  from assms have "reviewer_reasons c i = []"
    by (simp add: check_assignment_def Let_def)
  with assms(2) have "expected_reviewer c i = HumanRole
      \<or> trim (reviewer_id i) \<noteq> trim (assignee_id i) \<or> may_review_itself c"
    by (auto simp: reviewer_reasons_def split: if_splits)
  then show ?thesis
    by (auto simp: expected_reviewer_def may_review_itself_def reviews_its_own_def split: if_splits)
qed

section \<open>Contract writes\<close>

datatype contract_write_outcome = Allowed | ReturnsToRefining

datatype contract_write_refusal =
    ContractLocked
  | ContractFrozen "string list"
  | TaskTerminal task_status
  | LifecycleFields "string list"
  | HumansFields "string list"
  | StoresFields "string list"
  | CreationFields "string list"
  | ContentFields "string list"
  | UnknownFields "string list"
  | RepoFixed string

definition FIELDS_AFTER_FREEZE :: "string list" where
  "FIELDS_AFTER_FREEZE = [''status'', ''assignee'', ''reviewer'', ''iteration'', ''sprint'', ''notes'']"

definition FIELDS_THE_GOVERNOR_WRITES :: "string list" where
  "FIELDS_THE_GOVERNOR_WRITES = [''status'', ''assignee'', ''reviewer'', ''iteration'', ''sprint'']"

definition FIELDS_ONLY_THE_HUMAN_WRITES :: "string list" where
  "FIELDS_ONLY_THE_HUMAN_WRITES = [''locked'']"

definition FIELDS_THE_STORE_OWNS :: "string list" where
  "FIELDS_THE_STORE_OWNS = [''id'', ''created_by'', ''created_at'', ''updated_at'', ''branch'']"

definition FIELDS_FIXED_AT_CREATION :: "string list" where
  "FIELDS_FIXED_AT_CREATION = [''kind'', ''parent'']"

definition FIELDS_OF_THE_CONTENT :: "string list" where
  "FIELDS_OF_THE_CONTENT =
     [''title'', ''intent'', ''summary'', ''scope'', ''requirements'', ''exit_criteria'',
      ''constraints'', ''dependencies'', ''references'', ''assignee_role'', ''reviewer_role'',
      ''risk'', ''change'', ''budget'', ''allowed_paths'', ''ui_change'', ''plan'', ''lane'', ''repo'']"

definition FIELDS_ALWAYS_WRITABLE :: "string list" where
  "FIELDS_ALWAYS_WRITABLE = [''notes'']"

definition once_each :: "string list \<Rightarrow> string list" where
  "once_each fs = each_once fs"

definition beyond :: "string list \<Rightarrow> string list \<Rightarrow> string list" where
  "beyond changed_fields opened = once_each (filter (\<lambda>f. f \<notin> set opened) changed_fields)"

definition within_fields :: "string list \<Rightarrow> string list \<Rightarrow> string list" where
  "within_fields changed_fields fs = once_each (filter (\<lambda>f. f \<in> set fs) changed_fields)"

definition ALL_FIELDS :: "string list" where
  "ALL_FIELDS =
     FIELDS_ALWAYS_WRITABLE @ FIELDS_THE_GOVERNOR_WRITES @ FIELDS_ONLY_THE_HUMAN_WRITES
     @ FIELDS_THE_STORE_OWNS @ FIELDS_FIXED_AT_CREATION @ FIELDS_OF_THE_CONTENT"

definition check_contract_write ::
  "kind \<Rightarrow> task_status \<Rightarrow> bool \<Rightarrow> contract_write_actor \<Rightarrow> string list \<Rightarrow>
   (contract_write_refusal, contract_write_outcome) result" where
  "check_contract_write k st is_locked actor changed_fields =
     (let unknown = beyond changed_fields ALL_FIELDS in
      if unknown \<noteq> [] then Inl (UnknownFields unknown) else
      let beyond_notes = beyond changed_fields FIELDS_ALWAYS_WRITABLE in
      if is_terminal st then (if beyond_notes = [] then Inr Allowed else Inl (TaskTerminal st)) else
      let stores = within_fields changed_fields FIELDS_THE_STORE_OWNS in
      if stores \<noteq> [] then Inl (StoresFields stores) else
      let repoints = (writer_kind actor = ProductManagerActor);
          creation = filter (\<lambda>f. \<not> (repoints \<and> f = ''parent''))
                       (within_fields changed_fields FIELDS_FIXED_AT_CREATION) in
      if creation \<noteq> [] then Inl (CreationFields creation) else
      let lifecycle = within_fields changed_fields FIELDS_THE_GOVERNOR_WRITES in
      if writer_kind actor \<noteq> GovernorActor \<and> lifecycle \<noteq> [] then Inl (LifecycleFields lifecycle) else
      let humans = within_fields changed_fields FIELDS_ONLY_THE_HUMAN_WRITES in
      if writer_kind actor \<noteq> HumanActor \<and> humans \<noteq> [] then Inl (HumansFields humans) else
      let content = within_fields changed_fields FIELDS_OF_THE_CONTENT
                    @ (if repoints \<and> ''parent'' \<in> set changed_fields then [''parent''] else []) in
      if content = [] then Inr Allowed else
      let writes_content = (case writer_kind actor of
                              HumanActor \<Rightarrow> True
                            | ProductManagerActor \<Rightarrow> True
                            | ScrumMasterActor \<Rightarrow> k \<noteq> Epic
                            | _ \<Rightarrow> False) in
      if \<not> writes_content then Inl (ContentFields content) else
      let frozen = st \<notin> {Draft, Refining} in
      if writer_kind actor = HumanActor then (if frozen then Inr ReturnsToRefining else Inr Allowed) else
      if is_locked then Inl ContractLocked else
      let frozen_fields = (if repoints \<and> st = Ready
                           then filter (\<lambda>f. f \<notin> {''dependencies'', ''parent''}) content
                           else content) in
      if frozen \<and> frozen_fields \<noteq> [] then Inl (ContractFrozen frozen_fields)
      else Inr Allowed)"

definition check_repo_write ::
  "task_contract \<Rightarrow> task_contract \<Rightarrow> (contract_write_refusal, unit) result" where
  "check_repo_write before after =
     (let repo_is_left_out = kind_of after = Epic \<or> \<not> changes_code (assignee_role after) in
      case repo before of
        Some r \<Rightarrow>
          if repo after \<noteq> Some r \<and> \<not> (repo after = None \<and> repo_is_left_out)
          then Inl (RepoFixed r) else Inr ()
      | None \<Rightarrow> Inr ())"

lemma beyond_Nil: "beyond fs s = [] \<longleftrightarrow> set fs \<subseteq> set s"
  by (auto simp: beyond_def once_each_def filter_empty_conv)

lemma within_Nil: "within_fields fs s = [] \<longleftrightarrow> set fs \<inter> set s = {}"
  by (auto simp: within_fields_def once_each_def filter_empty_conv)

lemma set_within: "set (within_fields fs s) = set fs \<inter> set s"
  by (auto simp: within_fields_def once_each_def)

lemma set_beyond: "set (beyond fs s) = set fs - set s"
  by (auto simp: beyond_def once_each_def)

lemma field_sets_disjoint: "distinct ALL_FIELDS"
  by (simp add: ALL_FIELDS_def FIELDS_ALWAYS_WRITABLE_def FIELDS_THE_GOVERNOR_WRITES_def
      FIELDS_ONLY_THE_HUMAN_WRITES_def FIELDS_THE_STORE_OWNS_def FIELDS_FIXED_AT_CREATION_def
      FIELDS_OF_THE_CONTENT_def)

section \<open>Who may write a contract\<close>

text \<open>The content a write asks for: the content fields, and the parent when the Product Manager
  repoints a task.\<close>

definition content_asked :: "contract_write_actor \<Rightarrow> string list \<Rightarrow> string set" where
  "content_asked actor changed =
     (set changed \<inter> set FIELDS_OF_THE_CONTENT)
     \<union> (if writer_kind actor = ProductManagerActor then set changed \<inter> {''parent''} else {})"

lemma creation_fields_Nil:
  "filter (\<lambda>f. \<not> (repoints \<and> f = ''parent'')) (within_fields fs FIELDS_FIXED_AT_CREATION) = [] \<longleftrightarrow>
     ''kind'' \<notin> set fs \<and> (''parent'' \<in> set fs \<longrightarrow> repoints)"
  by (auto simp: filter_empty_conv set_within FIELDS_FIXED_AT_CREATION_def)

abbreviation (input) content_list :: "contract_write_actor \<Rightarrow> string list \<Rightarrow> string list" where
  "content_list actor fs \<equiv> within_fields fs FIELDS_OF_THE_CONTENT
     @ (if writer_kind actor = ProductManagerActor \<and> ''parent'' \<in> set fs then [''parent''] else [])"

lemma set_content: "set (content_list actor fs) = content_asked actor fs"
  by (auto simp: set_within content_asked_def)

lemma content_Nil: "content_list actor fs = [] \<longleftrightarrow> content_asked actor fs = {}"
  by (metis set_content set_empty)

lemma frozen_fields_Nil:
  "filter (\<lambda>f. f \<notin> {''dependencies'', ''parent''}) (content_list actor fs) = []
     \<longleftrightarrow> content_asked actor fs \<subseteq> {''dependencies'', ''parent''}"
  unfolding filter_empty_conv set_content by blast

lemma guarded: "(P \<and> (P \<longrightarrow> Q)) = (P \<and> Q)" "((P \<longrightarrow> Q) \<and> P) = (P \<and> Q)"
  by blast+

lemma Inr_if: "((if b then r else q) = Inr z) = (if b then r = Inr z else q = Inr z)"
  by simp

lemma writes_content_iff:
  "(case w of HumanActor \<Rightarrow> True | ProductManagerActor \<Rightarrow> True | ScrumMasterActor \<Rightarrow> k \<noteq> Epic | _ \<Rightarrow> False)
     \<longleftrightarrow> w = HumanActor \<or> w = ProductManagerActor \<or> w = ScrumMasterActor \<and> k \<noteq> Epic"
  by (cases w) simp_all

lemma frozen_if_Nil:
  "(if b then filter (\<lambda>f. f \<notin> {''dependencies'', ''parent''}) (content_list actor fs) else content_list actor fs) = []
     \<longleftrightarrow> (if b then content_asked actor fs \<subseteq> {''dependencies'', ''parent''} else content_asked actor fs = {})"
  using frozen_fields_Nil content_Nil by (cases b) (simp_all only: if_True if_False)

lemma check_contract_write_chain:
  "check_contract_write k st is_locked actor fs = Inr outcome \<longleftrightarrow>
     set fs \<subseteq> set ALL_FIELDS
     \<and> (if is_terminal st then set fs \<subseteq> set FIELDS_ALWAYS_WRITABLE \<and> outcome = Allowed
        else
          set fs \<inter> set FIELDS_THE_STORE_OWNS = {}
          \<and> ''kind'' \<notin> set fs
          \<and> (''parent'' \<in> set fs \<longrightarrow> writer_kind actor = ProductManagerActor)
          \<and> (writer_kind actor = GovernorActor \<or> set fs \<inter> set FIELDS_THE_GOVERNOR_WRITES = {})
          \<and> (writer_kind actor = HumanActor \<or> set fs \<inter> set FIELDS_ONLY_THE_HUMAN_WRITES = {})
          \<and> (if content_asked actor fs = {} then outcome = Allowed
             else if writer_kind actor = HumanActor
             then outcome = (if st \<in> {Draft, Refining} then Allowed else ReturnsToRefining)
             else (writer_kind actor = ProductManagerActor \<or> writer_kind actor = ScrumMasterActor \<and> k \<noteq> Epic)
               \<and> \<not> is_locked
               \<and> (st \<in> {Draft, Refining}
                  \<or> writer_kind actor = ProductManagerActor \<and> st = Ready
                    \<and> content_asked actor fs \<subseteq> {''dependencies'', ''parent''})
               \<and> outcome = Allowed))"
proof -
  show ?thesis
    unfolding check_contract_write_def Let_def writes_content_iff
    unfolding Inr_if creation_fields_Nil within_Nil beyond_Nil content_Nil frozen_if_Nil
    apply (simp only: sum.distinct sum.inject if_False if_True simp_thms not_not if_bool_eq_conj cong: if_cong)
    apply (cases "writer_kind actor = HumanActor"; cases "content_asked actor fs = {}"; cases "is_terminal st"; cases outcome; cases "st \<in> {Draft, Refining}")
    apply (simp_all only: guarded simp_thms transition_actor.distinct contract_write_outcome.distinct if_True if_False eq_commute[of outcome] not_not de_Morgan_conj if_bool_eq_conj)
    by satx+
qed

text \<open>
  C16: Who may write what in a contract: a write passes exactly when every field is the schema's, and
  either the task is terminal and only notes are written, or no field is the store's, kind is nobody's
  to write, parent the Product Manager's, the lifecycle fields the Governor's and the lock the
  human's; and content, when any is written, comes from the human, or on an unlocked contract from
  the Product Manager or (on a task) the Scrum Master while the contract is a draft or being refined,
  the Product Manager also repointing the dependencies and the parent of a ready one.
\<close>

theorem contract_write_passes_iff:
  "is_ok (check_contract_write k st is_locked actor changed) \<longleftrightarrow>
     set changed \<subseteq> set ALL_FIELDS
     \<and> (if is_terminal st then set changed \<subseteq> {''notes''}
        else set changed \<inter> set FIELDS_THE_STORE_OWNS = {}
          \<and> ''kind'' \<notin> set changed
          \<and> (''parent'' \<in> set changed \<longrightarrow> writer_kind actor = ProductManagerActor)
          \<and> (set changed \<inter> set FIELDS_THE_GOVERNOR_WRITES \<noteq> {} \<longrightarrow> writer_kind actor = GovernorActor)
          \<and> (''locked'' \<in> set changed \<longrightarrow> writer_kind actor = HumanActor)
          \<and> (content_asked actor changed \<noteq> {} \<longrightarrow> writer_kind actor \<noteq> HumanActor \<longrightarrow>
               \<not> is_locked
               \<and> (writer_kind actor = ProductManagerActor \<or> writer_kind actor = ScrumMasterActor \<and> k = Task)
               \<and> (st \<in> {Draft, Refining}
                  \<or> st = Ready \<and> writer_kind actor = ProductManagerActor
                    \<and> content_asked actor changed \<subseteq> {''dependencies'', ''parent''})))"
proof -
  have k: "k \<noteq> Epic \<longleftrightarrow> k = Task" by (cases k) simp_all
  have always: "set FIELDS_ALWAYS_WRITABLE = {''notes''}"
    by (simp add: FIELDS_ALWAYS_WRITABLE_def)
  have lock: "set changed \<inter> set FIELDS_ONLY_THE_HUMAN_WRITES = {} \<longleftrightarrow> ''locked'' \<notin> set changed"
    by (auto simp: FIELDS_ONLY_THE_HUMAN_WRITES_def)
  show ?thesis
    unfolding is_ok_iff check_contract_write_chain k always lock
    by (cases "is_terminal st"; cases "content_asked actor changed = {}";
        cases "writer_kind actor = HumanActor")
      (simp_all only: simp_thms if_True if_False transition_actor.distinct ex_simps, satx+)
qed

text \<open>
  A content write to a contract that has left refining sends it back there only by the human's
  hand: the outcome that thaws a contract means the human wrote content in a task that is neither
  terminal nor a draft nor being refined.
\<close>

theorem only_the_human_thaws:
  "check_contract_write k st is_locked actor changed = Inr ReturnsToRefining \<longleftrightarrow>
     is_ok (check_contract_write k st is_locked actor changed)
     \<and> writer_kind actor = HumanActor \<and> content_asked actor changed \<noteq> {}
     \<and> st \<notin> {Draft, Refining} \<and> \<not> is_terminal st"
  unfolding is_ok_iff check_contract_write_chain by auto

definition sample_assignment :: assignment_input where
  "sample_assignment =
     \<lparr>requested_by = ScrumMasterAsks, has_active_scrum_master = True, assignee_id = ''agent_1'',
      assignee_agent_role = SoftwareDeveloper, reviewer_id = ''agent_2'',
      reviewer_agent_role = Architect, assignee_open_tasks = 0, wip_limit = 1,
      dependency_states = [], browser = NoPreview, private_folder_busy = False,
      lane_builder = None, assignment_solo = False, past_limit_allowed = False\<rparr>"

theorem assignment_separates_duties_witness:
  "check_assignment sample_contract sample_assignment = Inr ()
   \<and> trim (reviewer_id sample_assignment) \<noteq> trim (assignee_id sample_assignment)"
proof -
  have pass: "check_assignment sample_contract sample_assignment = Inr ()"
    and facts: "\<not> assignment_solo sample_assignment" "kind_of sample_contract = Task"
      "reviewer_role sample_contract = Architect"
    by code_simp+
  show ?thesis
    using assignment_separates_duties [OF pass facts(1)] pass facts(2,3) by simp
qed

theorem contract_write_passes_iff_witness:
  "is_ok (check_contract_write Task Draft False \<lparr>writer_kind = ProductManagerActor, writer_id = None\<rparr>
      [''intent'', ''parent''])
   \<and> \<not> is_ok (check_contract_write Task Draft False \<lparr>writer_kind = ScrumMasterActor, writer_id = None\<rparr>
      [''intent'', ''parent''])
   \<and> \<not> is_ok (check_contract_write Task InProgress False \<lparr>writer_kind = ProductManagerActor, writer_id = None\<rparr>
      [''intent''])"
proof -
  have "set FIELDS_OF_THE_CONTENT \<inter> {''intent'', ''parent''} = {''intent''}"
    by code_simp
  then have asked: "content_asked \<lparr>writer_kind = ProductManagerActor, writer_id = None\<rparr> [''intent'', ''parent'']
      = {''intent'', ''parent''}"
    "content_asked \<lparr>writer_kind = ProductManagerActor, writer_id = None\<rparr> [''intent''] = {''intent''}"
    by (auto simp: content_asked_def)
  have fields: "set [''intent'', ''parent''] \<subseteq> set ALL_FIELDS"
    "set [''intent'', ''parent''] \<inter> set FIELDS_THE_STORE_OWNS = {}"
    "set [''intent'', ''parent''] \<inter> set FIELDS_THE_GOVERNOR_WRITES = {}"
    by code_simp+
  show ?thesis
    unfolding contract_write_passes_iff using asked fields by simp
qed

theorem check_assignment_iff_witness:
  "check_assignment sample_contract sample_assignment = Inr ()
   \<and> check_assignment sample_contract (sample_assignment\<lparr>wip_limit := 0\<rparr>) \<noteq> Inr ()
   \<and> check_assignment sample_contract (sample_assignment\<lparr>reviewer_id := '' agent_1 ''\<rparr>) \<noteq> Inr ()"
  unfolding check_assignment_iff by code_simp

end
