(* ===== verification/Readiness.thy ===== *)
theory Readiness
  imports Task_Status Samples Checklist
begin

text \<open>
  crates/core/src/governor/readiness.rs: the Definition of Ready, thirty checks over a contract and
  what the runtime read about it. A failure's message is a constructor that carries what the text
  interpolates; its words are the comment beside it. A \<open>BTreeMap\<close> is the list of its entries in key
  order, its keys distinct.
\<close>

section \<open>Rules, messages and context\<close>

datatype readiness_rule =
    IntentPresent | CriteriaPresent | CriteriaMethodsValid | NoReviewOutsideCode
  | CommandCriteriaComplete | ReviewerAvailable | AssigneeAvailable | RepoNotAllowed | RepoRequired
  | RepoUnknown | EpicCommandInProjectFolder | OutOfScopePresent | DependenciesReady
  | RequiredCriteriaPresent | NewTestsRequiredByRule | AllowedPathsWithinCeiling
  | DocumentPathsOnly | FolderOwned | NoCatervasPaths | ProtectedPathAllowed | PrivateFolderTask
  | PrivateFolderReviewer | BudgetWithinTeamMax | NoParentForEpic | ParentInProgress
  | PathsWithinParent | BudgetWithinParent | LaneBeyondBuilders | LanesOverlap | ProductPlanFirst

datatype misplaced_repo =
    OneRepository \<comment> \<open>this project is one repository, so repo is left out\<close>
  | EpicSpansRepositories \<comment> \<open>an epic spans the project's repositories, so repo is left out\<close>
  | WorksInProjectFolder string \<comment> \<open>the ...'s task works in the project's own folder\<close>

datatype artifact_fault =
    RelativeToProject string string \<comment> \<open>is relative to the project, and a path here is relative to ...; write ...\<close>
  | FileFault path_fault

datatype private_task_reason =
    LieOutside string string \<comment> \<open>allowed paths ... lie outside ...\<close>
  | RunsCommands string bool \<comment> \<open>... is / are a command or a test; true when one\<close>
  | SearchesText string bool \<comment> \<open>... searches / search a workbook for text; true when one\<close>
  | ArtifactNames string string artifact_fault \<comment> \<open>criterion ... names ..., which ...\<close>
  | HasParentEpic string \<comment> \<open>it has a parent epic, ...\<close>

datatype criteria_message =
    IntentBlank
  | NoExitCriterion
  | MethodsDisagree "(string \<times> string \<times> string) list" \<comment> \<open>criterion, the method named, the one implied\<close>
  | AskForReview string
  | BlankCommand string bool \<comment> \<open>true when one criterion has it\<close>
  | NoOutOfScope
  | DependenciesNotReady string
  | RequiredMethodsMissing string
  | NewTestsNotRequired string

datatype staffing_message =
    HumanReviewsOnlyEpics
  | NoAgentCanReview u32 role u32
  | NobodyCanTake string
  | ReviewedByManagerAlone string string

datatype repo_message =
    RepoMisplaced misplaced_repo
  | SetRepo string
  | NotARepo string string
  | EpicRunsNoCommand string

datatype path_message =
    OutsideCeiling string string
  | DocumentGlobFault string string string
  | OutsideDocuments string string
  | ReachFolders string string
  | ContainBackslash string
  | ReachCatervas string
  | BackslashAndCatervas string string
  | PathsProtected string
  | PrivateFolderRules string string "private_task_reason list"

datatype epic_message =
    BudgetAboveCap f64 f64
  | EpicHasParent
  | ParentUnknown string
  | ParentIs string task_status
  | OutsideParent string string
  | BudgetAboveParent f64 f64
  | LaneBeyond u64 u32
  | LaneMeets u64 "(string \<times> u64 \<times> string \<times> string) list" \<comment> \<open>task, its lane, our path, their path\<close>
  | ProductPlanNotAccepted

datatype readiness_message =
    In_Criteria criteria_message
  | In_Staffing staffing_message
  | In_Repo repo_message
  | In_Paths path_message
  | In_Epic epic_message

record laned_task =
  laned_task_id :: string
  laned_lane :: u64
  laned_paths :: "string list"

record parent_state =
  parent_status :: task_status
  parent_allowed_paths :: "string list"
  remaining_budget_usd :: f64
  parent_lanes :: "laned_task list"

record readiness_context =
  dependency_statuses :: "(string \<times> task_status) list"
  active_agents_by_role :: "(role \<times> u32) list"
  parent_of :: "parent_state option"
  rules :: team_rules
  awaits_the_product_plan :: bool
  is_the_product_plan :: bool
  repos :: "string list option"
  ready_solo :: bool

record readiness_failure =
  ready_rule_of :: readiness_rule
  ready_message_of :: readiness_message

definition ready_failure :: "readiness_rule \<Rightarrow> readiness_message \<Rightarrow> readiness_failure" where
  "ready_failure rule message = \<lparr>ready_rule_of = rule, ready_message_of = message\<rparr>"

text \<open>The shape most checks share: nothing when the list of offenders is empty.\<close>

definition fail_on :: "readiness_rule \<Rightarrow> 'a list \<Rightarrow> ('a list \<Rightarrow> readiness_message) \<Rightarrow> readiness_failure option"
  where "fail_on rule bad message = (if bad = [] then None else Some (ready_failure rule (message bad)))"

definition commas :: "string list \<Rightarrow> string" where
  "commas xs = join '', '' xs"

definition criterion_ids :: "task_contract \<Rightarrow> (verification \<Rightarrow> bool) \<Rightarrow> string list" where
  "criterion_ids contract keep =
     map criterion_id (filter (\<lambda>c. keep (criterion_shape c)) (exit_criteria contract))"

section \<open>Intent, criteria and who works\<close>

definition intent_present :: "task_contract \<Rightarrow> readiness_context \<Rightarrow> readiness_failure option" where
  "intent_present contract _ =
     (if is_blank (intent contract) then Some (ready_failure IntentPresent (In_Criteria IntentBlank)) else None)"

definition criteria_present :: "task_contract \<Rightarrow> readiness_context \<Rightarrow> readiness_failure option" where
  "criteria_present contract _ =
     (if exit_criteria contract = [] then Some (ready_failure CriteriaPresent (In_Criteria NoExitCriterion)) else None)"

definition criteria_methods_valid ::
  "task_contract \<Rightarrow> readiness_context \<Rightarrow> readiness_failure option" where
  "criteria_methods_valid contract _ =
     fail_on CriteriaMethodsValid
       (filter_map (\<lambda>criterion.
          let implied = verification_method (criterion_shape criterion);
              named = (case criterion_method criterion of None \<Rightarrow> ''nothing'' | Some m \<Rightarrow> m)
          in if named \<noteq> implied then Some (criterion_id criterion, named, implied) else None)
        (exit_criteria contract)) (\<lambda>m. In_Criteria (MethodsDisagree m))"

fun asks_for_review :: "verification \<Rightarrow> bool" where
  "asks_for_review (Review _) = True"
| "asks_for_review (Human _) = True"
| "asks_for_review _ = False"

definition no_review_outside_code ::
  "task_contract \<Rightarrow> readiness_context \<Rightarrow> readiness_failure option" where
  "no_review_outside_code contract context =
     (if reviewed_by_an_agent contract \<and> \<not> ready_solo context then None
      else fail_on NoReviewOutsideCode (criterion_ids contract asks_for_review)
             (\<lambda>asked. In_Criteria (AskForReview (listed ''criterion'' ''criteria'' asked))))"

fun has_blank_command :: "verification \<Rightarrow> bool" where
  "has_blank_command (Command command _ _ _) = is_blank command"
| "has_blank_command (Test command _) = is_blank command"
| "has_blank_command _ = False"

definition command_criteria_complete ::
  "task_contract \<Rightarrow> readiness_context \<Rightarrow> readiness_failure option" where
  "command_criteria_complete contract _ =
     fail_on CommandCriteriaComplete (criterion_ids contract has_blank_command)
       (\<lambda>bad. In_Criteria (BlankCommand (listed ''criterion'' ''criteria'' bad) (length bad = 1)))"

text \<open>A budget that cannot be compared is above its ceiling.\<close>

definition exceeds :: "f64 \<Rightarrow> f64 \<Rightarrow> bool" where
  "exceeds cost most \<longleftrightarrow> \<not> float_le cost most"

definition active_agents :: "readiness_context \<Rightarrow> role \<Rightarrow> u32" where
  "active_agents context r =
     (case map_of (active_agents_by_role context) r of None \<Rightarrow> 0 | Some n \<Rightarrow> n)"

definition reviewers_needed :: "task_contract \<Rightarrow> u32" where
  "reviewers_needed contract =
     (if reviewer_role contract = assignee_role contract \<and> \<not> reviews_its_own (reviewer_role contract)
      then 2 else 1)"

definition reviewer_available ::
  "task_contract \<Rightarrow> readiness_context \<Rightarrow> readiness_failure option" where
  "reviewer_available contract context =
     (if ready_solo context then None
      else if reviewer_role contract = HumanRole then
        (if kind_of contract = Epic then None
         else Some (ready_failure ReviewerAvailable (In_Staffing HumanReviewsOnlyEpics)))
      else
        let needed = reviewers_needed contract;
            active = active_agents context (reviewer_role contract)
        in if active < needed
           then Some (ready_failure ReviewerAvailable
                  (In_Staffing (NoAgentCanReview needed (reviewer_role contract) active)))
           else None)"

definition assignee_available ::
  "task_contract \<Rightarrow> readiness_context \<Rightarrow> readiness_failure option" where
  "assignee_available contract context =
     (if assignee_role contract = HumanRole \<or> kind_of contract = Epic then None
      else if active_agents context (assignee_role contract) = 0
      then Some (ready_failure AssigneeAvailable (In_Staffing (NobodyCanTake (plain_role (assignee_role contract)))))
      else None)"

definition out_of_scope_present ::
  "task_contract \<Rightarrow> readiness_context \<Rightarrow> readiness_failure option" where
  "out_of_scope_present contract _ =
     (if \<not> list_ex (\<lambda>item. \<not> is_blank item) (out_of_scope contract)
      then Some (ready_failure OutOfScopePresent (In_Criteria NoOutOfScope)) else None)"

fun is_at_least_ready :: "task_status \<Rightarrow> bool" where
  "is_at_least_ready Draft = False"
| "is_at_least_ready Refining = False"
| "is_at_least_ready Escalated = False"
| "is_at_least_ready Cancelled = False"
| "is_at_least_ready _ = True"

definition dependencies_ready ::
  "task_contract \<Rightarrow> readiness_context \<Rightarrow> readiness_failure option" where
  "dependencies_ready contract context =
     fail_on DependenciesReady
       (filter (\<lambda>d. \<not> (case map_of (dependency_statuses context) d of
                          None \<Rightarrow> False | Some st \<Rightarrow> is_at_least_ready st)) (dependencies contract))
       (\<lambda>not_ready. In_Criteria (DependenciesNotReady (commas not_ready)))"

definition required_criteria_present ::
  "task_contract \<Rightarrow> readiness_context \<Rightarrow> readiness_failure option" where
  "required_criteria_present contract context =
     (let methods = map (\<lambda>c. verification_method (criterion_shape c)) (exit_criteria contract);
          in_a_folder = task_private_folder contract \<noteq> None;
          runs_none = in_a_folder \<or> (repos context \<noteq> None \<and> kind_of contract = Epic);
          reviewed = reviewed_by_an_agent contract \<and> \<not> ready_solo context
      in fail_on RequiredCriteriaPresent
           (filter (\<lambda>m. m \<notin> set methods)
             (filter (\<lambda>m. reviewed \<or> m \<notin> {''review'', ''human''})
               (filter (\<lambda>m. \<not> (runs_none \<and> m \<in> {''command'', ''test''}))
                 (required_criteria (rules context)))))
           (\<lambda>missing. In_Criteria (RequiredMethodsMissing (commas missing))))"

fun tests_without_new :: "verification \<Rightarrow> bool" where
  "tests_without_new (Test _ new_tests) = (\<not> new_tests)"
| "tests_without_new _ = False"

definition new_tests_required_by_rule ::
  "task_contract \<Rightarrow> readiness_context \<Rightarrow> readiness_failure option" where
  "new_tests_required_by_rule contract context =
     (if \<not> require_new_tests (rules context) then None
      else fail_on NewTestsRequiredByRule (criterion_ids contract tests_without_new)
             (\<lambda>bad. In_Criteria (NewTestsNotRequired (commas bad))))"

section \<open>Globs within globs\<close>

definition is_glob_char :: "char \<Rightarrow> bool" where
  "is_glob_char c \<longleftrightarrow> c \<in> {CHR ''*'', CHR ''?'', CHR ''['', CHR ''{''}"

definition split_glob :: "string \<Rightarrow> string \<times> string" where
  "split_glob pattern =
     (takeWhile (\<lambda>c. \<not> is_glob_char c) pattern, dropWhile (\<lambda>c. \<not> is_glob_char c) pattern)"

definition trim_end_slashes :: "string \<Rightarrow> string" where
  "trim_end_slashes s = trim_end (\<lambda>c. c = CHR ''/'') s"

definition within_ceiling :: "string \<Rightarrow> string \<Rightarrow> bool" where
  "within_ceiling path limit =
     (if limit = ''**'' then True
      else
        let (prefix, rest) = split_glob limit; directory = trim_end_slashes prefix in
        if rest \<notin> {'''', ''**''} \<or> directory = [] then path = limit
        else
          let (prefix, wildcard) = split_glob path
          in starts_with prefix (directory @ ''/'')
             \<or> (wildcard = [] \<and> trim_end_slashes prefix = directory))"

definition is_within_any :: "string \<Rightarrow> string list \<Rightarrow> bool" where
  "is_within_any path ceilings =
     (if list_ex (\<lambda>segment. segment = ''..'') (slash_split path) then False
      else list_ex (within_ceiling path) ceilings)"

definition paths_outside :: "string list \<Rightarrow> string list \<Rightarrow> string list" where
  "paths_outside paths ceilings = filter (\<lambda>path. \<not> is_within_any path ceilings) paths"

definition is_a_document_path :: "glob_engine \<Rightarrow> string \<Rightarrow> string list \<Rightarrow> bool" where
  "is_a_document_path g path documents \<longleftrightarrow>
     is_within_any path documents
     \<or> (snd (split_glob path) = [] \<and> is_ok (check_allowed_paths g [path] documents))"

text \<open>Whether the document globs cannot be read: \<open>check_allowed_paths(&[], documents)\<close>.\<close>

definition document_glob_fault :: "glob_engine \<Rightarrow> string list \<Rightarrow> (string \<times> string) option" where
  "document_glob_fault g documents =
     (case check_allowed_paths g [] documents of
        Inl (Glob (Invalid pattern detail)) \<Rightarrow> Some (pattern, detail)
      | _ \<Rightarrow> None)"

section \<open>Repositories\<close>

definition repo_misplaced :: "task_contract \<Rightarrow> readiness_context \<Rightarrow> misplaced_repo option" where
  "repo_misplaced contract context =
     (if repo contract = None then None
      else if repos context = None then Some OneRepository
      else if kind_of contract = Epic then Some EpicSpansRepositories
      else if \<not> changes_code (assignee_role contract)
      then Some (WorksInProjectFolder (plain_role (assignee_role contract)))
      else None)"

definition repo_not_allowed :: "task_contract \<Rightarrow> readiness_context \<Rightarrow> readiness_failure option" where
  "repo_not_allowed contract context =
     map_option (\<lambda>m. ready_failure RepoNotAllowed (In_Repo (RepoMisplaced m))) (repo_misplaced contract context)"

definition repo_required ::
  "glob_engine \<Rightarrow> task_contract \<Rightarrow> readiness_context \<Rightarrow> readiness_failure option" where
  "repo_required g contract context =
     (case repos context of
        None \<Rightarrow> None
      | Some members \<Rightarrow>
          if repo contract \<noteq> None \<or> kind_of contract \<noteq> Task \<or> \<not> changes_code (assignee_role contract)
          then None
          else
            let documents = document_paths (rules context) in
            if document_glob_fault g documents \<noteq> None then None
            else if list_all (\<lambda>path. is_a_document_path g path documents) (allowed_paths contract)
            then None
            else Some (ready_failure RepoRequired (In_Repo (SetRepo (commas members)))))"

definition repo_unknown :: "task_contract \<Rightarrow> readiness_context \<Rightarrow> readiness_failure option" where
  "repo_unknown contract context =
     (case (repos context, repo contract) of
        (Some members, Some r) \<Rightarrow>
          if repo_misplaced contract context \<noteq> None \<or> list_ex (\<lambda>name. name = r) members then None
          else Some (ready_failure RepoUnknown (In_Repo (NotARepo r (commas members))))
      | _ \<Rightarrow> None)"

fun runs_a_command :: "verification \<Rightarrow> bool" where
  "runs_a_command (Command _ _ _ _) = True"
| "runs_a_command (Test _ _) = True"
| "runs_a_command _ = False"

definition epic_command_in_project_folder ::
  "task_contract \<Rightarrow> readiness_context \<Rightarrow> readiness_failure option" where
  "epic_command_in_project_folder contract context =
     (if repos context = None \<or> kind_of contract \<noteq> Epic then None
      else fail_on EpicCommandInProjectFolder (criterion_ids contract runs_a_command)
             (\<lambda>commands. In_Repo (EpicRunsNoCommand (commas commands))))"

section \<open>Paths\<close>

definition allowed_paths_within_ceiling ::
  "task_contract \<Rightarrow> readiness_context \<Rightarrow> readiness_failure option" where
  "allowed_paths_within_ceiling contract context =
     (if allowed_paths_ceiling (rules context) = [] \<or> task_private_folder contract \<noteq> None then None
      else fail_on AllowedPathsWithinCeiling
             (paths_outside (allowed_paths contract) (allowed_paths_ceiling (rules context)))
             (\<lambda>out. In_Paths (OutsideCeiling (commas out) (commas (allowed_paths_ceiling (rules context))))))"

definition document_paths_only ::
  "glob_engine \<Rightarrow> task_contract \<Rightarrow> readiness_context \<Rightarrow> readiness_failure option" where
  "document_paths_only g contract context =
     (if kind_of contract \<noteq> Task \<or> changes_code (assignee_role contract)
         \<or> task_private_folder contract \<noteq> None
      then None
      else
        let documents = document_paths (rules context) in
        case document_glob_fault g documents of
          Some (pattern, detail) \<Rightarrow>
            Some (ready_failure DocumentPathsOnly
              (In_Paths (DocumentGlobFault (commas (allowed_paths contract)) pattern detail)))
        | None \<Rightarrow>
            fail_on DocumentPathsOnly
              (filter (\<lambda>path. \<not> is_a_document_path g path documents) (allowed_paths contract))
              (\<lambda>out. In_Paths (OutsideDocuments (commas out) (commas documents))))"

definition owned_folders :: "task_contract \<Rightarrow> readiness_context \<Rightarrow> (role \<times> string) list" where
  "owned_folders contract context =
     (let members = (case repos context of None \<Rightarrow> [] | Some ms \<Rightarrow> ms)
      in filter (\<lambda>(owner, _). owner \<noteq> assignee_role contract
                   \<and> (case map_of (active_agents_by_role context) owner of
                        None \<Rightarrow> False | Some count \<Rightarrow> 0 < count))
           (ROLE_FOLDERS
            @ concat (map (\<lambda>name.
                filter_map (\<lambda>(owner, _). map_option (Pair owner) (member_folder owner name))
                  MEMBER_FOLDERS) members)))"

definition folder_owned ::
  "glob_engine \<Rightarrow> task_contract \<Rightarrow> readiness_context \<Rightarrow> readiness_failure option" where
  "folder_owned g contract context =
     (if kind_of contract \<noteq> Task then None
      else
        let owned = owned_folders contract context;
            reaching = filter (\<lambda>path. list_ex (\<lambda>(_, folder). reaches_the_folder g path folder) owned)
                         (allowed_paths contract)
        in fail_on FolderOwned reaching (\<lambda>rs. In_Paths (ReachFolders (commas rs)
             (commas (map (\<lambda>(owner, folder). folder @ ''/ ('' @ plain_role owner @ '')'')
               (filter (\<lambda>(_, folder). list_ex (\<lambda>path. reaches_the_folder g path folder) rs) owned))))))"

definition protected_path_allowed ::
  "glob_engine \<Rightarrow> task_contract \<Rightarrow> readiness_context \<Rightarrow> readiness_failure option" where
  "protected_path_allowed g contract context =
     fail_on ProtectedPathAllowed
       (filter (\<lambda>path. \<not> is_ok (check_protected_paths g [path] (protected_paths (rules context))))
         (filter (\<lambda>path. normalise path \<noteq> None \<and> \<not> reaches_the_catervas_directory g path)
           (allowed_paths contract)))
       (\<lambda>bad. In_Paths (PathsProtected (commas bad)))"

definition is_within_the_folder :: "string \<Rightarrow> string \<Rightarrow> bool" where
  "is_within_the_folder path folder = is_within_any path [folder]"

definition no_catervas_paths ::
  "glob_engine \<Rightarrow> task_contract \<Rightarrow> readiness_context \<Rightarrow> readiness_failure option" where
  "no_catervas_paths g contract _ =
     (let backslashed = filter (\<lambda>path. backslash \<in> set path) (allowed_paths contract);
          reaching =
            filter (\<lambda>path. \<not> (case task_private_folder contract of
                                None \<Rightarrow> False | Some folder \<Rightarrow> is_within_the_folder path folder))
              (filter (\<lambda>path. backslash \<notin> set path \<and> reaches_the_catervas_directory g path)
                (allowed_paths contract))
      in if backslashed = [] \<and> reaching = [] then None
         else Some (ready_failure NoCatervasPaths
           (if reaching = [] then In_Paths (ContainBackslash (commas backslashed))
            else if backslashed = [] then In_Paths (ReachCatervas (commas reaching))
            else In_Paths (BackslashAndCatervas (commas backslashed) (commas reaching)))))"

section \<open>Private folders\<close>

fun searches_text :: "verification \<Rightarrow> bool" where
  "searches_text (Artifact _ must_contain) = (must_contain \<noteq> [])"
| "searches_text _ = False"

definition artifact_reason :: "string \<Rightarrow> exit_criterion \<Rightarrow> private_task_reason option" where
  "artifact_reason folder criterion =
     (case criterion_shape criterion of
        Artifact path _ \<Rightarrow>
          map_option (ArtifactNames (criterion_id criterion) path)
            (if starts_with path ''.catervas/''
             then Some (RelativeToProject folder
                    (if private_folder ProcurementSpecialist = Some folder
                     then ''vendors.xlsx'' else ''books.xlsx''))
             else map_option FileFault (private_file_fault folder path))
      | _ \<Rightarrow> None)"

definition private_task_reasons :: "task_contract \<Rightarrow> string \<Rightarrow> private_task_reason list" where
  "private_task_reasons contract folder =
     (let outside = filter (\<lambda>path. \<not> is_within_the_folder path folder) (allowed_paths contract);
          runs = criterion_ids contract runs_a_command;
          searches = criterion_ids contract searches_text
      in (if outside = [] then [] else [LieOutside (commas outside) folder])
         @ (if runs = [] then []
            else [RunsCommands (listed ''criterion'' ''criteria'' runs) (length runs = 1)])
         @ (if searches = [] then []
            else [SearchesText (listed ''criterion'' ''criteria'' searches) (length searches = 1)])
         @ filter_map (artifact_reason folder) (exit_criteria contract)
         @ (case parent contract of None \<Rightarrow> [] | Some p \<Rightarrow> [HasParentEpic p]))"

definition private_folder_task ::
  "task_contract \<Rightarrow> readiness_context \<Rightarrow> readiness_failure option" where
  "private_folder_task contract _ =
     (case task_private_folder contract of
        None \<Rightarrow> None
      | Some folder \<Rightarrow>
          fail_on PrivateFolderTask (private_task_reasons contract folder)
            (\<lambda>reasons. In_Paths (PrivateFolderRules (plain_role (assignee_role contract)) folder reasons)))"

definition private_folder_reviewer ::
  "task_contract \<Rightarrow> readiness_context \<Rightarrow> readiness_failure option" where
  "private_folder_reviewer contract context =
     (if ready_solo context then None
      else (case task_private_folder contract of
              None \<Rightarrow> None
            | Some folder \<Rightarrow>
                if reviewer_role contract \<noteq> ProductManager
                then Some (ready_failure PrivateFolderReviewer
                       (In_Staffing (ReviewedByManagerAlone folder (plain_role (reviewer_role contract)))))
                else None))"

section \<open>Budgets and the parent epic\<close>

definition budget_within_team_max ::
  "task_contract \<Rightarrow> readiness_context \<Rightarrow> readiness_failure option" where
  "budget_within_team_max contract context =
     (case max_task_budget_usd (rules context) of
        None \<Rightarrow> None
      | Some most \<Rightarrow>
          if kind_of contract = Task \<and> exceeds (max_cost_usd (contract_budget contract)) most
          then Some (ready_failure BudgetWithinTeamMax
                 (In_Epic (BudgetAboveCap (max_cost_usd (contract_budget contract)) most)))
          else None)"

definition no_parent_for_epic ::
  "task_contract \<Rightarrow> readiness_context \<Rightarrow> readiness_failure option" where
  "no_parent_for_epic contract _ =
     (if kind_of contract = Epic \<and> parent contract \<noteq> None
      then Some (ready_failure NoParentForEpic (In_Epic EpicHasParent)) else None)"

definition parent_in_progress ::
  "task_contract \<Rightarrow> readiness_context \<Rightarrow> readiness_failure option" where
  "parent_in_progress contract context =
     (case parent contract of
        None \<Rightarrow> None
      | Some pid \<Rightarrow>
          (case parent_of context of
             None \<Rightarrow> Some (ready_failure ParentInProgress (In_Epic (ParentUnknown pid)))
           | Some p \<Rightarrow>
               if parent_status p \<noteq> InProgress
               then Some (ready_failure ParentInProgress (In_Epic (ParentIs pid (parent_status p))))
               else None))"

definition paths_within_parent ::
  "task_contract \<Rightarrow> readiness_context \<Rightarrow> readiness_failure option" where
  "paths_within_parent contract context =
     (case (parent contract, parent_of context) of
        (Some epic, Some p) \<Rightarrow>
          (let own_plan = (case plan contract of
                             None \<Rightarrow> None
                           | Some pl \<Rightarrow> if is_plan_of pl epic then Some pl else None)
           in fail_on PathsWithinParent
                (filter (\<lambda>path. Some path \<noteq> own_plan)
                  (paths_outside (allowed_paths contract) (parent_allowed_paths p)))
                (\<lambda>out. In_Epic (OutsideParent (commas out) (commas (parent_allowed_paths p)))))
      | _ \<Rightarrow> None)"

definition budget_within_parent ::
  "task_contract \<Rightarrow> readiness_context \<Rightarrow> readiness_failure option" where
  "budget_within_parent contract context =
     (case (parent contract, parent_of context) of
        (Some _, Some p) \<Rightarrow>
          if exceeds (max_cost_usd (contract_budget contract)) (remaining_budget_usd p)
          then Some (ready_failure BudgetWithinParent
                 (In_Epic (BudgetAboveParent (max_cost_usd (contract_budget contract)) (remaining_budget_usd p))))
          else None
      | _ \<Rightarrow> None)"

text \<open>The sum of \<open>u32\<close> counts wraps, as it does in a release build; a debug build panics instead.\<close>

definition active_builders :: "readiness_context \<Rightarrow> u32" where
  "active_builders context =
     sum_list (map snd (filter (\<lambda>(r, _). changes_code r) (active_agents_by_role context)))"

definition lane_beyond_builders ::
  "task_contract \<Rightarrow> readiness_context \<Rightarrow> readiness_failure option" where
  "lane_beyond_builders contract context =
     (case (lane contract, parent contract) of
        (Some l, Some _) \<Rightarrow>
          if l \<le> ucast (active_builders context) then None
          else Some (ready_failure LaneBeyondBuilders (In_Epic (LaneBeyond l (active_builders context))))
      | _ \<Rightarrow> None)"

definition first_meeting :: "string list \<Rightarrow> laned_task \<Rightarrow> (string \<times> u64 \<times> string \<times> string) option" where
  "first_meeting ours other =
     find_map (\<lambda>our.
       map_option (\<lambda>their. (laned_task_id other, laned_lane other, our, their))
         (List.find (could_overlap our) (laned_paths other))) ours"

definition lanes_overlap :: "task_contract \<Rightarrow> readiness_context \<Rightarrow> readiness_failure option" where
  "lanes_overlap contract context =
     (case (lane contract, parent contract, parent_of context) of
        (Some l, Some _, Some p) \<Rightarrow>
          fail_on LanesOverlap
            (filter_map (first_meeting (allowed_paths contract))
              (filter (\<lambda>other. laned_lane other \<noteq> l) (parent_lanes p)))
            (\<lambda>met. In_Epic (LaneMeets l met))
      | _ \<Rightarrow> None)"

definition product_plan_first ::
  "task_contract \<Rightarrow> readiness_context \<Rightarrow> readiness_failure option" where
  "product_plan_first _ context =
     (if awaits_the_product_plan context \<and> \<not> is_the_product_plan context
      then Some (ready_failure ProductPlanFirst (In_Epic ProductPlanNotAccepted)) else None)"

section \<open>The Definition of Ready\<close>

definition READY_CHECKS ::
  "glob_engine \<Rightarrow> (task_contract, readiness_context, readiness_failure) check list" where
  "READY_CHECKS g =
     [intent_present, criteria_present, criteria_methods_valid, no_review_outside_code,
      command_criteria_complete, reviewer_available, assignee_available, repo_not_allowed,
      repo_required g, repo_unknown, epic_command_in_project_folder, out_of_scope_present,
      dependencies_ready, required_criteria_present, new_tests_required_by_rule,
      allowed_paths_within_ceiling, document_paths_only g, folder_owned g, no_catervas_paths g,
      protected_path_allowed g, private_folder_task, private_folder_reviewer,
      budget_within_team_max, no_parent_for_epic, parent_in_progress, paths_within_parent,
      budget_within_parent, lane_beyond_builders, lanes_overlap, product_plan_first]"

definition READY_RULES :: "readiness_rule list" where
  "READY_RULES =
     [IntentPresent, CriteriaPresent, CriteriaMethodsValid, NoReviewOutsideCode,
      CommandCriteriaComplete, ReviewerAvailable, AssigneeAvailable, RepoNotAllowed,
      RepoRequired, RepoUnknown, EpicCommandInProjectFolder, OutOfScopePresent,
      DependenciesReady, RequiredCriteriaPresent, NewTestsRequiredByRule,
      AllowedPathsWithinCeiling, DocumentPathsOnly, FolderOwned, NoCatervasPaths,
      ProtectedPathAllowed, PrivateFolderTask, PrivateFolderReviewer,
      BudgetWithinTeamMax, NoParentForEpic, ParentInProgress, PathsWithinParent,
      BudgetWithinParent, LaneBeyondBuilders, LanesOverlap, ProductPlanFirst]"

definition evaluate_readiness ::
  "glob_engine \<Rightarrow> task_contract \<Rightarrow> readiness_context \<Rightarrow> (readiness_failure list, unit) result" where
  "evaluate_readiness g contract context = evaluate_checks (READY_CHECKS g) contract context"

definition rules_evaluated :: "glob_engine \<Rightarrow> nat" where
  "rules_evaluated g = length (READY_CHECKS g)"

section \<open>The checks report their own rules\<close>

lemma ready_failure_rule [simp]: "ready_rule_of (ready_failure r m) = r"
  by (simp add: ready_failure_def)

lemma fail_on_None [simp]: "fail_on r bad m = None \<longleftrightarrow> bad = []"
  by (simp add: fail_on_def)

lemma fail_on_rule: "fail_on r bad m = Some f \<Longrightarrow> ready_rule_of f = r"
  by (auto simp: fail_on_def split: if_splits)

named_theorems ready_defs \<open>definitions of the checks of the Definition of Ready\<close>

lemmas [ready_defs] =
  intent_present_def criteria_present_def criteria_methods_valid_def no_review_outside_code_def
  command_criteria_complete_def reviewer_available_def assignee_available_def repo_not_allowed_def
  repo_required_def repo_unknown_def epic_command_in_project_folder_def out_of_scope_present_def
  dependencies_ready_def required_criteria_present_def new_tests_required_by_rule_def
  allowed_paths_within_ceiling_def document_paths_only_def folder_owned_def no_catervas_paths_def
  protected_path_allowed_def private_folder_task_def private_folder_reviewer_def
  budget_within_team_max_def no_parent_for_epic_def parent_in_progress_def paths_within_parent_def
  budget_within_parent_def lane_beyond_builders_def lanes_overlap_def product_plan_first_def

lemma ready_reports:
  "reports ready_rule_of intent_present IntentPresent"
  "reports ready_rule_of criteria_present CriteriaPresent"
  "reports ready_rule_of criteria_methods_valid CriteriaMethodsValid"
  "reports ready_rule_of no_review_outside_code NoReviewOutsideCode"
  "reports ready_rule_of command_criteria_complete CommandCriteriaComplete"
  "reports ready_rule_of reviewer_available ReviewerAvailable"
  "reports ready_rule_of assignee_available AssigneeAvailable"
  "reports ready_rule_of repo_not_allowed RepoNotAllowed"
  "reports ready_rule_of (repo_required g) RepoRequired"
  "reports ready_rule_of repo_unknown RepoUnknown"
  "reports ready_rule_of epic_command_in_project_folder EpicCommandInProjectFolder"
  "reports ready_rule_of out_of_scope_present OutOfScopePresent"
  "reports ready_rule_of dependencies_ready DependenciesReady"
  "reports ready_rule_of required_criteria_present RequiredCriteriaPresent"
  "reports ready_rule_of new_tests_required_by_rule NewTestsRequiredByRule"
  "reports ready_rule_of allowed_paths_within_ceiling AllowedPathsWithinCeiling"
  "reports ready_rule_of (document_paths_only g) DocumentPathsOnly"
  "reports ready_rule_of (folder_owned g) FolderOwned"
  "reports ready_rule_of (no_catervas_paths g) NoCatervasPaths"
  "reports ready_rule_of (protected_path_allowed g) ProtectedPathAllowed"
  "reports ready_rule_of private_folder_task PrivateFolderTask"
  "reports ready_rule_of private_folder_reviewer PrivateFolderReviewer"
  "reports ready_rule_of budget_within_team_max BudgetWithinTeamMax"
  "reports ready_rule_of no_parent_for_epic NoParentForEpic"
  "reports ready_rule_of parent_in_progress ParentInProgress"
  "reports ready_rule_of paths_within_parent PathsWithinParent"
  "reports ready_rule_of budget_within_parent BudgetWithinParent"
  "reports ready_rule_of lane_beyond_builders LaneBeyondBuilders"
  "reports ready_rule_of lanes_overlap LanesOverlap"
  "reports ready_rule_of product_plan_first ProductPlanFirst"
  by (auto simp: reports_def ready_defs Let_def dest!: fail_on_rule
      split: if_splits option.splits prod.splits)

interpretation ready_list: checklist ready_rule_of "READY_CHECKS g" READY_RULES for g
  by unfold_locales (simp_all add: READY_CHECKS_def READY_RULES_def ready_reports)

text \<open>What each check asks, where a later property reads it.\<close>

lemma ready_checks_None:
  "intent_present c x = None \<longleftrightarrow> \<not> is_blank (intent c)"
  "criteria_present c x = None \<longleftrightarrow> exit_criteria c \<noteq> []"
  "out_of_scope_present c x = None \<longleftrightarrow> (\<exists>s \<in> set (out_of_scope c). \<not> is_blank s)"
  "dependencies_ready c x = None \<longleftrightarrow>
     (\<forall>d \<in> set (dependencies c). \<exists>st. map_of (dependency_statuses x) d = Some st \<and> is_at_least_ready st)"
  "criteria_methods_valid c x = None \<longleftrightarrow>
     (\<forall>k \<in> set (exit_criteria c).
        (case criterion_method k of None \<Rightarrow> ''nothing'' | Some m \<Rightarrow> m)
          = verification_method (criterion_shape k))"
  "no_parent_for_epic c x = None \<longleftrightarrow> (kind_of c = Epic \<longrightarrow> parent c = None)"
  "parent_in_progress c x = None \<longleftrightarrow>
     (parent c \<noteq> None \<longrightarrow> (\<exists>p. parent_of x = Some p \<and> parent_status p = InProgress))"
  by (auto simp: ready_defs Let_def list_ex_iff filter_empty_conv filter_map_Nil_iff
      split: option.splits)

lemma ready_passes:
  "evaluate_readiness g c x = Inr () \<longleftrightarrow> (\<forall>check \<in> set (READY_CHECKS g). check c x = None)"
  unfolding evaluate_readiness_def by (rule ready_list.ok_iff)

lemma ready_check:
  "evaluate_readiness g c x = Inr () \<Longrightarrow> check \<in> set (READY_CHECKS g) \<Longrightarrow> check c x = None"
  by (simp add: ready_passes)

lemmas ready_checkD = ready_check [unfolded READY_CHECKS_def, simplified]

text \<open>
  A refusal by the Definition of Ready names exactly the rules the contract fails, each once, in
  the order of the rules, and at least one.
\<close>

theorem evaluate_readiness_refusal:
  assumes "evaluate_readiness g c x = Inl failures"
  shows "map ready_rule_of failures
      = filter (\<lambda>r. \<not> passes_rule (READY_CHECKS g) READY_RULES c x r) READY_RULES
    \<and> distinct (map ready_rule_of failures) \<and> failures \<noteq> []"
  using assms ready_list.failures_in_rule_order ready_list.failure_distinct
    ready_list.failure_never_empty
  unfolding evaluate_readiness_def by blast

definition sample_ready_context :: readiness_context where
  "sample_ready_context =
     \<lparr>dependency_statuses = [],
      active_agents_by_role = [(Architect, 1), (SoftwareDeveloper, 2)],
      parent_of = Some \<lparr>parent_status = InProgress, parent_allowed_paths = [''src/**''],
        remaining_budget_usd = Finite 10,
        parent_lanes = [\<lparr>laned_task_id = ''task_8'', laned_lane = 2, laned_paths = [''docs/**'']\<rparr>]\<rparr>,
      rules = default_team_rules, awaits_the_product_plan = False, is_the_product_plan = False,
      repos = None, ready_solo = False\<rparr>"

lemma sample_is_ready: "evaluate_readiness prefix_globs sample_contract sample_ready_context = Inr ()"
  by code_simp

section \<open>Globs within globs\<close>

lemma trim_end_slashes_append:
  "d \<noteq> [] \<Longrightarrow> last d \<noteq> CHR ''/'' \<Longrightarrow>
     trim_end_slashes (d @ t) = d \<or> (\<exists>u. trim_end_slashes (d @ t) = d @ u \<and> starts_with t u)"
proof (induction t rule: rev_induct)
  case Nil
  then show ?case by (cases d rule: rev_cases) (simp_all add: trim_end_slashes_def trim_end_def)
next
  case (snoc c t)
  show ?case
  proof (cases "c = CHR ''/''")
    case True
    then have "trim_end_slashes (d @ t @ [c]) = trim_end_slashes (d @ t)"
      by (simp add: trim_end_slashes_def trim_end_def)
    with snoc show ?thesis by (metis append_assoc starts_with_iff)
  next
    case False
    then have "trim_end_slashes (d @ t @ [c]) = d @ t @ [c]"
      by (simp add: trim_end_slashes_def trim_end_def)
    then show ?thesis by (auto simp: starts_with_iff)
  qed
qed

lemma trim_end_slashes_last:
  "trim_end_slashes s \<noteq> [] \<Longrightarrow> last (trim_end_slashes s) \<noteq> CHR ''/''"
  unfolding trim_end_slashes_def trim_end_def
  by (metis (mono_tags, lifting) hd_dropWhile last_rev rev_is_Nil_conv)

lemma trim_end_slashes_prefix: "\<exists>t. s = trim_end_slashes s @ t"
proof -
  have "s = rev (takeWhile (\<lambda>c. c = CHR ''/'') (rev s) @ dropWhile (\<lambda>c. c = CHR ''/'') (rev s))"
    by simp
  then show ?thesis unfolding trim_end_slashes_def trim_end_def by (metis rev_append)
qed

text \<open>A directory ceiling as a prefix of what the trimmed text begins with.\<close>

lemma below_trimmed:
  assumes "starts_with s (d @ ''/'')" and "d \<noteq> []" and "last d \<noteq> CHR ''/''"
  shows "trim_end_slashes s = d \<or> starts_with (trim_end_slashes s) (d @ ''/'')"
proof -
  obtain t where t: "s = d @ ''/'' @ t" using assms(1) by (auto simp: starts_with_iff)
  from trim_end_slashes_append [OF assms(2,3), of "''/'' @ t"]
  consider "trim_end_slashes s = d"
    | u where "trim_end_slashes s = d @ u" "starts_with (''/'' @ t) u"
    unfolding t by blast
  then show ?thesis
  proof cases
    case 2
    then show ?thesis by (cases u) (auto simp: starts_with_iff)
  qed simp
qed

lemma within_ceiling_dir:
  assumes "limit \<noteq> ''**''" and "snd (split_glob limit) \<in> {[], ''**''}"
    and "trim_end_slashes (fst (split_glob limit)) \<noteq> []"
  shows "within_ceiling p limit \<longleftrightarrow>
     starts_with (fst (split_glob p)) (trim_end_slashes (fst (split_glob limit)) @ ''/'')
     \<or> (snd (split_glob p) = [] \<and>
        trim_end_slashes (fst (split_glob p)) = trim_end_slashes (fst (split_glob limit)))"
  using assms by (auto simp: within_ceiling_def case_prod_beta Let_def)

lemma within_ceiling_exact:
  assumes "limit \<noteq> ''**''"
    and "\<not> (snd (split_glob limit) \<in> {[], ''**''} \<and> trim_end_slashes (fst (split_glob limit)) \<noteq> [])"
  shows "within_ceiling p limit \<longleftrightarrow> p = limit"
  using assms by (auto simp: within_ceiling_def case_prod_beta Let_def)

lemma within_ceiling_trans:
  assumes pq: "within_ceiling p q" and qr: "within_ceiling q r"
  shows "within_ceiling p r"
proof (cases "r = ''**''")
  case False
  show ?thesis
  proof (cases "snd (split_glob r) \<in> {[], ''**''} \<and> trim_end_slashes (fst (split_glob r)) \<noteq> []")
    case False
    with \<open>r \<noteq> ''**''\<close> qr have "q = r" by (simp add: within_ceiling_exact)
    with pq show ?thesis by simp
  next
    case dir: True
    let ?r = "trim_end_slashes (fst (split_glob r))"
    have r: "?r \<noteq> []" "last ?r \<noteq> CHR ''/''"
      using dir trim_end_slashes_last by auto
    note r_iff = within_ceiling_dir [OF \<open>r \<noteq> ''**''\<close> conjunct1 [OF dir] conjunct2 [OF dir]]
    from qr have q: "starts_with (fst (split_glob q)) (?r @ ''/'')
       \<or> (snd (split_glob q) = [] \<and> trim_end_slashes (fst (split_glob q)) = ?r)"
      by (simp only: r_iff)
    have q_any: "q \<noteq> ''**''"
    proof
      assume "q = ''**''"
      then have "split_glob q = ([], ''**'')"
        by (simp add: split_glob_def is_glob_char_def)
      with q show False by (simp add: starts_with_def)
    qed
    show ?thesis
    proof (cases "snd (split_glob q) \<in> {[], ''**''} \<and> trim_end_slashes (fst (split_glob q)) \<noteq> []")
      case False
      with q_any pq have "p = q" by (simp add: within_ceiling_exact)
      with qr show ?thesis by simp
    next
      case q_dir: True
      let ?q = "trim_end_slashes (fst (split_glob q))"
      have q_below: "?q = ?r \<or> starts_with ?q (?r @ ''/'')"
        using q below_trimmed [OF _ r] by blast
      from pq have p: "starts_with (fst (split_glob p)) (?q @ ''/'')
         \<or> (snd (split_glob p) = [] \<and> trim_end_slashes (fst (split_glob p)) = ?q)"
        by (simp only: within_ceiling_dir [OF q_any conjunct1 [OF q_dir] conjunct2 [OF q_dir]])
      have "starts_with (fst (split_glob p)) (?r @ ''/'')" if "starts_with ?q (?r @ ''/'')"
        using p
      proof (elim disjE conjE)
        assume "starts_with (fst (split_glob p)) (?q @ ''/'')"
        with that show ?thesis by (auto simp: starts_with_iff)
      next
        assume "trim_end_slashes (fst (split_glob p)) = ?q"
        then show ?thesis
          using that trim_end_slashes_prefix [of "fst (split_glob p)"] by (auto simp: starts_with_iff)
      qed
      then show ?thesis
        using q_below p unfolding r_iff by auto
    qed
  qed
qed (simp add: within_ceiling_def)

lemma is_within_any_iff:
  "is_within_any p limits \<longleftrightarrow> ''..'' \<notin> set (slash_split p) \<and> (\<exists>l \<in> set limits. within_ceiling p l)"
  by (auto simp: is_within_any_def list_ex_iff)

lemma paths_outside_Nil: "paths_outside ps ls = [] \<longleftrightarrow> (\<forall>p \<in> set ps. is_within_any p ls)"
  by (simp add: paths_outside_def filter_empty_conv)

text \<open>
  Being within composes: when every path of a task lies within its epic's paths and every path of
  the epic within the team's ceiling, every path of the task lies within the ceiling.
\<close>

theorem paths_within_compose:
  assumes "paths_outside ps qs = []" and "paths_outside qs rs = []"
  shows "paths_outside ps rs = []"
  using assms within_ceiling_trans unfolding paths_outside_Nil is_within_any_iff by blast

theorem paths_within_compose_witness:
  "paths_outside [''src/parser/a.rs''] [''src/**''] = []"
  by (rule paths_within_compose [of _ "[''src/parser/**'']"]) code_simp+

lemma ready_epic_checks_None:
  "paths_within_parent c x = None \<longleftrightarrow>
     (\<forall>e p. parent c = Some e \<longrightarrow> parent_of x = Some p \<longrightarrow>
        (\<forall>path \<in> set (allowed_paths c). is_within_any path (parent_allowed_paths p)
           \<or> (plan c = Some path \<and> is_plan_of path e)))"
  "budget_within_parent c x = None \<longleftrightarrow>
     (\<forall>p. parent c \<noteq> None \<longrightarrow> parent_of x = Some p \<longrightarrow>
        float_le (max_cost_usd (contract_budget c)) (remaining_budget_usd p))"
  "lane_beyond_builders c x = None \<longleftrightarrow>
     (\<forall>l. lane c = Some l \<longrightarrow> parent c \<noteq> None \<longrightarrow> l \<le> ucast (active_builders x))"
  "lanes_overlap c x = None \<longleftrightarrow>
     (\<forall>l p. lane c = Some l \<longrightarrow> parent c \<noteq> None \<longrightarrow> parent_of x = Some p \<longrightarrow>
        (\<forall>other \<in> set (parent_lanes p). laned_lane other \<noteq> l \<longrightarrow>
           (\<forall>a \<in> set (allowed_paths c). \<forall>b \<in> set (laned_paths other). \<not> could_overlap a b)))"
proof -
  show "paths_within_parent c x = None \<longleftrightarrow>
     (\<forall>e p. parent c = Some e \<longrightarrow> parent_of x = Some p \<longrightarrow>
        (\<forall>path \<in> set (allowed_paths c). is_within_any path (parent_allowed_paths p)
           \<or> (plan c = Some path \<and> is_plan_of path e)))"
    by (auto simp: paths_within_parent_def Let_def filter_empty_conv paths_outside_def
        split: option.splits)
  show "lanes_overlap c x = None \<longleftrightarrow>
     (\<forall>l p. lane c = Some l \<longrightarrow> parent c \<noteq> None \<longrightarrow> parent_of x = Some p \<longrightarrow>
        (\<forall>other \<in> set (parent_lanes p). laned_lane other \<noteq> l \<longrightarrow>
           (\<forall>a \<in> set (allowed_paths c). \<forall>b \<in> set (laned_paths other). \<not> could_overlap a b)))"
    by (auto simp: lanes_overlap_def filter_map_Nil_iff first_meeting_def find_map_None_iff
        find_None_iff split: option.splits)
qed (auto simp: budget_within_parent_def lane_beyond_builders_def exceeds_def split: option.splits)

lemma ready_path_checks_None:
  "no_catervas_paths g c x = None \<longleftrightarrow>
     (\<forall>path \<in> set (allowed_paths c). backslash \<notin> set path
        \<and> (reaches_the_catervas_directory g path \<longrightarrow>
             (\<exists>folder. task_private_folder c = Some folder \<and> is_within_the_folder path folder)))"
  "protected_path_allowed g c x = None \<longleftrightarrow>
     (\<forall>path \<in> set (allowed_paths c). normalise path \<noteq> None \<longrightarrow>
        \<not> reaches_the_catervas_directory g path \<longrightarrow>
        is_ok (check_protected_paths g [path] (protected_paths (rules x))))"
  "folder_owned g c x = None \<longleftrightarrow>
     (kind_of c = Task \<longrightarrow> (\<forall>path \<in> set (allowed_paths c).
        \<forall>(owner, folder) \<in> set (owned_folders c x). \<not> reaches_the_folder g path folder))"
  "document_paths_only g c x = None \<longleftrightarrow>
     (kind_of c = Task \<and> \<not> changes_code (assignee_role c) \<and> task_private_folder c = None \<longrightarrow>
        document_glob_fault g (document_paths (rules x)) = None
        \<and> (\<forall>path \<in> set (allowed_paths c). is_a_document_path g path (document_paths (rules x))))"
proof -
  show "no_catervas_paths g c x = None \<longleftrightarrow>
     (\<forall>path \<in> set (allowed_paths c). backslash \<notin> set path
        \<and> (reaches_the_catervas_directory g path \<longrightarrow>
             (\<exists>folder. task_private_folder c = Some folder \<and> is_within_the_folder path folder)))"
    by (auto simp: no_catervas_paths_def Let_def filter_empty_conv split: option.splits)
  show "protected_path_allowed g c x = None \<longleftrightarrow>
     (\<forall>path \<in> set (allowed_paths c). normalise path \<noteq> None \<longrightarrow>
        \<not> reaches_the_catervas_directory g path \<longrightarrow>
        is_ok (check_protected_paths g [path] (protected_paths (rules x))))"
    by (auto simp: protected_path_allowed_def filter_empty_conv)
  show "folder_owned g c x = None \<longleftrightarrow>
     (kind_of c = Task \<longrightarrow> (\<forall>path \<in> set (allowed_paths c).
        \<forall>(owner, folder) \<in> set (owned_folders c x). \<not> reaches_the_folder g path folder))"
    by (cases "kind_of c") (auto simp: folder_owned_def Let_def filter_empty_conv list_ex_iff)
  show "document_paths_only g c x = None \<longleftrightarrow>
     (kind_of c = Task \<and> \<not> changes_code (assignee_role c) \<and> task_private_folder c = None \<longrightarrow>
        document_glob_fault g (document_paths (rules x)) = None
        \<and> (\<forall>path \<in> set (allowed_paths c). is_a_document_path g path (document_paths (rules x))))"
    by (auto simp: document_paths_only_def Let_def filter_empty_conv split: option.splits)
qed

text \<open>
  C39: A task of an epic that is ready fits the epic: the epic is in progress, every allowed path of
  the task lies within one of the epic's or is the task's own plan, its budget is at most what the
  epic has left (as floats compare: neither is not a number), its lane has a builder, and none of its
  paths could meet a path of a task in another lane.
\<close>

theorem ready_task_fits_its_epic:
  assumes "evaluate_readiness g c x = Inr ()" and "parent c = Some e"
  shows "kind_of c = Task \<and> (\<exists>p. parent_of x = Some p \<and> parent_status p = InProgress
    \<and> (\<forall>path \<in> set (allowed_paths c). is_within_any path (parent_allowed_paths p)
         \<or> (plan c = Some path \<and> is_plan_of path e))
    \<and> float_le (max_cost_usd (contract_budget c)) (remaining_budget_usd p)
    \<and> (\<forall>l. lane c = Some l \<longrightarrow> l \<le> ucast (active_builders x)
         \<and> (\<forall>other \<in> set (parent_lanes p). laned_lane other \<noteq> l \<longrightarrow>
              (\<forall>a \<in> set (allowed_paths c). \<forall>b \<in> set (laned_paths other). \<not> could_overlap a b))))"
proof -
  have checks: "no_parent_for_epic c x = None" "parent_in_progress c x = None"
    "paths_within_parent c x = None" "budget_within_parent c x = None"
    "lane_beyond_builders c x = None" "lanes_overlap c x = None"
    by (rule ready_check [OF assms(1)], simp add: READY_CHECKS_def)+
  from checks(1) assms(2) have "kind_of c = Task"
    by (cases "kind_of c") (simp_all add: ready_checks_None)
  moreover from checks(2) assms(2) obtain p where p: "parent_of x = Some p" "parent_status p = InProgress"
    by (auto simp: ready_checks_None)
  ultimately show ?thesis
    using checks(3-6) assms(2) p by (simp add: ready_epic_checks_None)
qed

theorem ready_task_fits_its_epic_witness:
  "kind_of sample_contract = Task \<and> (\<exists>p. parent_of sample_ready_context = Some p \<and> parent_status p = InProgress)"
  using ready_task_fits_its_epic [OF sample_is_ready, of "''task_1''"]
  by (auto simp: sample_contract_def)

text \<open>
  A ready contract can be worked and judged: its intent and some out-of-scope item are written, it
  has a criterion, every criterion names the method its fields have, every dependency is known and
  at least ready, an active agent holds the role it is assigned to, and unless the team is one agent
  alone its reviewers are there: the human for an epic only, else one active agent of the reviewer's
  role, or two when a second one has to be told apart from the assignee.
\<close>

theorem ready_contract_can_be_worked:
  assumes "evaluate_readiness g c x = Inr ()"
  shows "\<not> is_blank (intent c) \<and> (\<exists>s \<in> set (out_of_scope c). \<not> is_blank s)
    \<and> exit_criteria c \<noteq> [] \<and> (\<forall>k \<in> set (exit_criteria c). method_fits (criterion_verification k))
    \<and> (\<forall>d \<in> set (dependencies c). \<exists>st. map_of (dependency_statuses x) d = Some st \<and> is_at_least_ready st)
    \<and> (kind_of c = Task \<and> assignee_role c \<noteq> HumanRole \<longrightarrow> 0 < active_agents x (assignee_role c))
    \<and> (ready_solo x
       \<or> (if reviewer_role c = HumanRole then kind_of c = Epic
          else active_agents x (reviewer_role c) \<ge>
            (if reviewer_role c = assignee_role c \<and> reviewer_role c \<noteq> ProductManager then 2 else 1)))"
proof -
  have checks: "intent_present c x = None" "criteria_present c x = None"
    "criteria_methods_valid c x = None" "out_of_scope_present c x = None"
    "dependencies_ready c x = None" "assignee_available c x = None" "reviewer_available c x = None"
    by (rule ready_check [OF assms], simp add: READY_CHECKS_def)+
  have methods: "method_fits (criterion_verification k)"
    if "(case criterion_method k of None \<Rightarrow> ''nothing'' | Some m \<Rightarrow> m) = verification_method (criterion_shape k)"
    for k
    using that by (cases "criterion_verification k")
      (auto simp: method_fits_def criterion_method_def criterion_shape_def split: option.splits)
  have "kind_of c = Task \<and> assignee_role c \<noteq> HumanRole \<longrightarrow> 0 < active_agents x (assignee_role c)"
    using checks(6) by (auto simp: assignee_available_def word_gt_0 split: if_splits)
  moreover have "ready_solo x
       \<or> (if reviewer_role c = HumanRole then kind_of c = Epic
          else active_agents x (reviewer_role c) \<ge>
            (if reviewer_role c = assignee_role c \<and> reviewer_role c \<noteq> ProductManager then 2 else 1))"
    using checks(7)
    by (auto simp: reviewer_available_def reviewers_needed_def reviews_its_own_def not_less Let_def
        split: if_splits)
  ultimately show ?thesis
    using checks(1-5) methods by (simp add: ready_checks_None)
qed

theorem ready_contract_can_be_worked_witness:
  "exit_criteria sample_contract \<noteq> [] \<and> 0 < active_agents sample_ready_context SoftwareDeveloper"
  using ready_contract_can_be_worked [OF sample_is_ready] by (simp add: sample_contract_def)

text \<open>
  What a ready contract may write: no allowed path has a backslash, one that reaches under
  .catervas/ lies within the task's own private folder, every other one that is a path at all is
  clear of the protected paths, no task reaches a folder that an active agent of another role owns,
  and a task of a role that does not change code writes documents alone.
\<close>

theorem ready_paths_are_its_own:
  assumes "evaluate_readiness g c x = Inr ()" and "path \<in> set (allowed_paths c)"
  shows "backslash \<notin> set path
    \<and> (if reaches_the_catervas_directory g path
       then \<exists>folder. task_private_folder c = Some folder \<and> is_within_the_folder path folder
       else normalise path = None \<or> is_ok (check_protected_paths g [path] (protected_paths (rules x))))
    \<and> (kind_of c = Task \<longrightarrow>
         (\<forall>(owner, folder) \<in> set (owned_folders c x). \<not> reaches_the_folder g path folder)
         \<and> (changes_code (assignee_role c) \<or> task_private_folder c \<noteq> None
            \<or> is_a_document_path g path (document_paths (rules x))))"
proof -
  have checks: "no_catervas_paths g c x = None" "protected_path_allowed g c x = None"
    "folder_owned g c x = None" "document_paths_only g c x = None"
    by (rule ready_check [OF assms(1)], simp add: READY_CHECKS_def)+
  show ?thesis
    using checks assms(2) by (auto simp: ready_path_checks_None)
qed

theorem ready_paths_are_its_own_witness:
  "is_ok (check_protected_paths prefix_globs [''src/parser/**''] DEFAULT_PROTECTED_PATHS)"
proof -
  have p: "''src/parser/**'' \<in> set (allowed_paths sample_contract)"
    by (simp add: sample_contract_def)
  have facts: "\<not> reaches_the_catervas_directory prefix_globs ''src/parser/**''"
    "normalise ''src/parser/**'' \<noteq> None"
    "protected_paths (rules sample_ready_context) = DEFAULT_PROTECTED_PATHS"
    by code_simp+
  show ?thesis using ready_paths_are_its_own [OF sample_is_ready p] facts by simp
qed

theorem evaluate_readiness_refusal_witness:
  "\<exists>failures. evaluate_readiness prefix_globs (sample_contract\<lparr>intent := []\<rparr>) sample_ready_context = Inl failures
     \<and> map ready_rule_of failures = [IntentPresent]"
proof -
  have h: "evaluate_readiness prefix_globs (sample_contract\<lparr>intent := []\<rparr>) sample_ready_context
      = Inl [ready_failure IntentPresent (In_Criteria IntentBlank)]"
    by code_simp
  show ?thesis using h evaluate_readiness_refusal [OF h] by (auto simp: ready_failure_def)
qed

end
