(* ===== verification/Escalation.thy ===== *)
theory Escalation
  imports Task_Status
begin

text \<open>
  crates/core/src/governor/escalation.rs: the reasons a task escalates and the three counting rules
  (rejections, readiness failures, the age of a block). A \<open>Duration\<close> is its nanoseconds, a
  \<open>DateTime<Utc>\<close> the nanoseconds since the epoch, before it when negative.
\<close>

datatype escalation_reason =
    BudgetReason | SessionsReason | IterationsReason | BlockerAge | PermissionReason | RiskGate
  | Approval | ReadinessFailures | Integration | ExplicitRequest | PreviewReason

type_synonym duration = nat
type_synonym date_time = int

definition nanos_of_hours :: "nat \<Rightarrow> duration" where
  "nanos_of_hours h = h * 3600 * 1000000000"

definition DEFAULT_ITERATION_LIMIT :: u32 where "DEFAULT_ITERATION_LIMIT = 3"
definition READINESS_ATTEMPT_LIMIT :: u32 where "READINESS_ATTEMPT_LIMIT = 3"
definition DEFAULT_BLOCKED_LIMIT :: duration where "DEFAULT_BLOCKED_LIMIT = nanos_of_hours 24"

datatype rejection_outcome = ReturnToInProgress | EscalateRejection

definition evaluate_rejection :: "u32 \<Rightarrow> u32 \<Rightarrow> rejection_outcome" where
  "evaluate_rejection iteration max_iterations =
     (if iteration < max_iterations then ReturnToInProgress else EscalateRejection)"

datatype readiness_outcome = Retry | EscalateReadiness

definition evaluate_readiness_attempts :: "u32 \<Rightarrow> u32 \<Rightarrow> readiness_outcome" where
  "evaluate_readiness_attempts failed_attempts limit =
     (if failed_attempts < limit then Retry else EscalateReadiness)"

datatype blocked_age = WithinLimit | Exceeded

text \<open>\<open>to_std\<close> refuses a negative age, which counts as within the limit.\<close>

definition evaluate_blocked_age :: "date_time \<Rightarrow> date_time \<Rightarrow> duration \<Rightarrow> blocked_age" where
  "evaluate_blocked_age blocked_at now limit =
     (if now - blocked_at < 0 then WithinLimit
      else if limit \<le> nat (now - blocked_at) then Exceeded else WithinLimit)"

lemma evaluate_rejection_cases:
  "evaluate_rejection i m = ReturnToInProgress \<longleftrightarrow> unat i < unat m"
  "evaluate_rejection i m = EscalateRejection \<longleftrightarrow> unat m \<le> unat i"
  by (auto simp: evaluate_rejection_def word_less_nat_alt)

lemma evaluate_readiness_attempts_cases:
  "evaluate_readiness_attempts f l = Retry \<longleftrightarrow> unat f < unat l"
  "evaluate_readiness_attempts f l = EscalateReadiness \<longleftrightarrow> unat l \<le> unat f"
  by (auto simp: evaluate_readiness_attempts_def word_less_nat_alt)

lemma evaluate_blocked_age_Exceeded_iff:
  "evaluate_blocked_age b now l = Exceeded \<longleftrightarrow> b \<le> now \<and> int l \<le> now - b"
  by (auto simp: evaluate_blocked_age_def)

text \<open>Once exceeded a block stays so while the clock does not step back.\<close>

lemma evaluate_blocked_age_mono:
  "evaluate_blocked_age b now l = Exceeded \<Longrightarrow> now \<le> later \<Longrightarrow>
     evaluate_blocked_age b later l = Exceeded"
  by (auto simp: evaluate_blocked_age_Exceeded_iff)

end
