(* ===== verification/Budgets.thy ===== *)
theory Budgets
  imports Escalation
begin

text \<open>
  crates/core/src/budget.rs: the session limits, the session ledger, and which budgets are
  exhausted with what consequence. Token counts are \<open>u64\<close> and saturate; a dollar figure is a float,
  whose sum is the parameter \<open>float_add\<close> of \<open>add_usage\<close>.
\<close>

record usage =
  input_tokens :: u64
  output_tokens :: u64
  cache_read_tokens :: u64
  cache_write_tokens :: u64

record session_limits =
  max_input_tokens :: u64
  max_output_tokens :: u64
  max_wall_clock :: duration
  max_tool_calls :: u32

definition nanos_of_mins :: "nat \<Rightarrow> duration" where
  "nanos_of_mins m = m * 60 * 1000000000"

definition DEFAULT_SESSION_LIMITS :: session_limits where
  "DEFAULT_SESSION_LIMITS = \<lparr>max_input_tokens = 400000, max_output_tokens = 40000,
     max_wall_clock = nanos_of_mins 30, max_tool_calls = 200\<rparr>"

definition CHAT_SESSION_LIMITS :: session_limits where
  "CHAT_SESSION_LIMITS = \<lparr>max_input_tokens = 100000, max_output_tokens = 4000,
     max_wall_clock = nanos_of_mins 3, max_tool_calls = 12\<rparr>"

definition tighter :: "session_limits \<Rightarrow> session_limits \<Rightarrow> session_limits" where
  "tighter limits cap =
     \<lparr>max_input_tokens = min (max_input_tokens limits) (max_input_tokens cap),
      max_output_tokens = min (max_output_tokens limits) (max_output_tokens cap),
      max_wall_clock = min (max_wall_clock limits) (max_wall_clock cap),
      max_tool_calls = min (max_tool_calls limits) (max_tool_calls cap)\<rparr>"

definition default_session_limits :: "role \<Rightarrow> session_limits" where
  "default_session_limits r =
     (case r of
        ScrumMaster \<Rightarrow> DEFAULT_SESSION_LIMITS\<lparr>max_input_tokens := 200000, max_output_tokens := 20000\<rparr>
      | _ \<Rightarrow> DEFAULT_SESSION_LIMITS)"

record session_ledger =
  ledger_usage :: usage
  wall_clock :: duration
  tool_calls :: u32
  cost_usd :: f64

definition add_usage ::
  "(f64 \<Rightarrow> f64 \<Rightarrow> f64) \<Rightarrow> session_ledger \<Rightarrow> usage \<Rightarrow> f64 \<Rightarrow> session_ledger" where
  "add_usage float_add ledger u cost =
     \<lparr>ledger_usage =
        \<lparr>input_tokens = saturating_add (input_tokens (ledger_usage ledger)) (input_tokens u),
         output_tokens = saturating_add (output_tokens (ledger_usage ledger)) (output_tokens u),
         cache_read_tokens =
           saturating_add (cache_read_tokens (ledger_usage ledger)) (cache_read_tokens u),
         cache_write_tokens =
           saturating_add (cache_write_tokens (ledger_usage ledger)) (cache_write_tokens u)\<rparr>,
      wall_clock = wall_clock ledger,
      tool_calls = tool_calls ledger,
      cost_usd = float_add (cost_usd ledger) cost\<rparr>"

datatype budget_scope =
    SessionTokens | SessionWallClock | SessionToolCalls | TaskUsd | TaskSessions | DayUsd

datatype budget_consequence =
    EndSessionWithNote | EscalateTask | StopNewAssignments | PauseTeam

record budget_state =
  session :: session_ledger
  limits_of_session :: session_limits
  task_spent_usd :: f64
  task_max_usd :: f64
  task_sessions :: u32
  task_max_sessions :: u32
  day_spent_usd :: f64
  day_max_usd :: f64

record exhausted =
  scope :: budget_scope
  consequence :: budget_consequence

definition has_reached :: "f64 \<Rightarrow> f64 \<Rightarrow> bool" where
  "has_reached spent limit \<longleftrightarrow> \<not> float_less spent limit"

definition budget_checks :: "budget_state \<Rightarrow> (budget_scope \<times> budget_consequence \<times> bool) list" where
  "budget_checks state =
     (let s = session state; limits = limits_of_session state in
      [(SessionTokens, EndSessionWithNote,
          max_input_tokens limits \<le> input_tokens (ledger_usage s)
          \<or> max_output_tokens limits \<le> output_tokens (ledger_usage s)),
       (SessionWallClock, EndSessionWithNote, max_wall_clock limits \<le> wall_clock s),
       (SessionToolCalls, EndSessionWithNote, max_tool_calls limits \<le> tool_calls s),
       (TaskUsd, EscalateTask, has_reached (task_spent_usd state) (task_max_usd state)),
       (TaskSessions, EscalateTask, task_max_sessions state \<le> task_sessions state),
       (DayUsd, PauseTeam, has_reached (day_spent_usd state) (day_max_usd state))])"

definition check_budgets :: "budget_state \<Rightarrow> exhausted list" where
  "check_budgets state =
     map (\<lambda>(s, c, _). \<lparr>scope = s, consequence = c\<rparr>)
       (filter (\<lambda>(_, _, spent). spent) (budget_checks state))"

section \<open>What the check reports\<close>

fun scope_exhausted :: "budget_state \<Rightarrow> budget_scope \<Rightarrow> bool" where
  "scope_exhausted state SessionTokens \<longleftrightarrow>
     unat (max_input_tokens (limits_of_session state)) \<le> unat (input_tokens (ledger_usage (session state)))
     \<or> unat (max_output_tokens (limits_of_session state)) \<le> unat (output_tokens (ledger_usage (session state)))"
| "scope_exhausted state SessionWallClock \<longleftrightarrow>
     max_wall_clock (limits_of_session state) \<le> wall_clock (session state)"
| "scope_exhausted state SessionToolCalls \<longleftrightarrow>
     unat (max_tool_calls (limits_of_session state)) \<le> unat (tool_calls (session state))"
| "scope_exhausted state TaskUsd \<longleftrightarrow> \<not> float_less (task_spent_usd state) (task_max_usd state)"
| "scope_exhausted state TaskSessions \<longleftrightarrow> unat (task_max_sessions state) \<le> unat (task_sessions state)"
| "scope_exhausted state DayUsd \<longleftrightarrow> \<not> float_less (day_spent_usd state) (day_max_usd state)"

fun scope_consequence :: "budget_scope \<Rightarrow> budget_consequence" where
  "scope_consequence TaskUsd = EscalateTask"
| "scope_consequence TaskSessions = EscalateTask"
| "scope_consequence DayUsd = PauseTeam"
| "scope_consequence _ = EndSessionWithNote"

definition BUDGET_SCOPES :: "budget_scope list" where
  "BUDGET_SCOPES =
     [SessionTokens, SessionWallClock, SessionToolCalls, TaskUsd, TaskSessions, DayUsd]"

lemma BUDGET_SCOPES_all: "s \<in> set BUDGET_SCOPES"
  by (cases s) (simp_all add: BUDGET_SCOPES_def)

lemma check_budgets_scopes:
  "check_budgets state =
     map (\<lambda>s. \<lparr>scope = s, consequence = scope_consequence s\<rparr>)
       (filter (scope_exhausted state) BUDGET_SCOPES)"
  by (simp add: check_budgets_def budget_checks_def BUDGET_SCOPES_def has_reached_def
      word_le_nat_alt Let_def)

text \<open>
  \<open>check_budgets\<close> reports exactly the exhausted budgets, all of them, each with its consequence
  and in the order of \<open>BudgetScope\<close>; a budget is exhausted when its spend reaches the limit, and a
  dollar spend that cannot be compared with its limit counts as exhausted.
\<close>

theorem check_budgets_exact:
  "(\<lparr>scope = s, consequence = k\<rparr> \<in> set (check_budgets state)
      \<longleftrightarrow> scope_exhausted state s \<and> k = scope_consequence s)
   \<and> map scope (check_budgets state) = filter (scope_exhausted state) BUDGET_SCOPES"
  using BUDGET_SCOPES_all by (auto simp: check_budgets_scopes comp_def)

lemma check_budgets_iff:
  "e \<in> set (check_budgets state) \<longleftrightarrow>
     scope_exhausted state (scope e) \<and> consequence e = scope_consequence (scope e)"
  using BUDGET_SCOPES_all by (cases e) (auto simp: check_budgets_scopes)

text \<open>A ledger only grows: more usage never brings a session's tokens back under their limit.\<close>

lemma add_usage_keeps_exhausted:
  assumes "scope_exhausted state SessionTokens"
  shows "scope_exhausted (state\<lparr>session := add_usage f (session state) u c\<rparr>) SessionTokens"
  using assms saturating_add_ge
  by (auto simp: add_usage_def word_le_nat_alt intro: le_trans)

lemma tighter_le:
  "max_input_tokens (tighter l c) \<le> max_input_tokens l"
  "max_input_tokens (tighter l c) \<le> max_input_tokens c"
  "max_tool_calls (tighter l c) \<le> max_tool_calls l"
  "max_tool_calls (tighter l c) \<le> max_tool_calls c"
  by (simp_all add: tighter_def)

end
