(* ===== verification/Transition.thy ===== *)
theory Transition
  imports Gates Readiness Budgets
begin

text \<open>
  crates/core/src/governor/transition.rs: the one question asked before a task moves. Given the
  request and everything the runtime gathered, whether the table has a row for the move, whether it
  is this actor's, whether the agent asking is the one the contract names, and whether a gate opens;
  then the effects the runtime records with the move. A gate's details are constructors that carry
  what its texts interpolate, by the rule set they come from.
\<close>

section \<open>Requests, contexts, decisions\<close>

record transition_request =
  asked_task :: string
  asked_to :: task_status
  asked_actor :: transition_actor
  asked_agent :: "string option"

record transition_context =
  ctx_contract :: task_contract
  ctx_triaged :: bool
  ctx_children :: "child_state list"
  ctx_readiness :: readiness_context
  readiness_failed_attempts :: u32
  readiness_attempt_limit :: u32
  ctx_assignment :: "assignment_input option"
  ctx_assignee_results :: "criterion_result list"
  ctx_work :: work_state
  ctx_blocker :: "blocker option"
  ctx_blocker_resolution :: "string option"
  ctx_blocked_from :: "task_status option"
  pull_request_conflicts :: "string list"
  ctx_blocked_at :: "date_time option"
  ctx_now :: date_time
  ctx_blocked_limit :: duration
  ctx_done :: done_evidence
  ctx_rejection :: "rejection option"
  ctx_budget :: budget_state
  permission_denied :: bool
  criterion_unrunnable :: bool
  preview_failed :: bool
  ctx_awaits_human :: bool
  review_passed :: bool
  extra_iterations :: u32
  design_plan_returns :: u32
  design_reviewer :: "string option"
  ctx_solo :: bool
  documents_stay_local :: bool
  autopilot_on :: bool

datatype transition_effect =
    IncrementIteration
  | RaiseEscalation escalation_reason
  | ResetBlocker
  | StampBlockedAt
  | NothingToIntegrate

record transition_decision =
  decided_from :: task_status
  decided_to :: task_status
  decided_row :: transition_row
  decided_effects :: "transition_effect list"

datatype transition_reason =
    NotTriaged \<comment> \<open>the request has no recorded triage decision\<close>
  | NoPairNamed \<comment> \<open>the runtime named no pair of agents for this assignment\<close>
  | RejectedAtLimit u32 u32 \<comment> \<open>rejected ... times and the limit is ..., so it escalates\<close>
  | RejectedBelowLimit u32 u32 \<comment> \<open>rejected ... times and the limit is ..., so it is worked again\<close>
  | NothingToEscalate
  | NotAwaitingHuman \<comment> \<open>the result does not wait on the human's acceptance\<close>
  | ReviewNotPassed \<comment> \<open>the reviewer has not passed the review yet\<close>
  | AutopilotOff
  | AutopilotElsewhere task_status \<comment> \<open>autopilot's moves are an escalation's or a block's\<close>
  | OwnerHasNoMove
  | NoContractWaits \<comment> \<open>no contract waits for the human's acceptance\<close>
  | PassesReadiness \<comment> \<open>the contract passes the Definition of Ready, so it goes to ready\<close>
  | RefinedAgain u32 u32 \<comment> \<open>failed ... times, and it is refined again until ...\<close>
  | NoBlockTime \<comment> \<open>the runtime recorded no time for this block\<close>
  | NotBlockedFor nat \<comment> \<open>the task has not been blocked for ... seconds yet\<close>
  | CatervasVerifiesOnlyAlone

text \<open>What the runtime's door refuses an assignment for before the governor is asked
  (crates/runtime/src/transitions.rs, \<open>refused_before_the_governor\<close>).\<close>

datatype named_as = AsAssignee | AsReviewer

datatype door_reason =
    NamesNo named_as \<comment> \<open>the request names no ..., and an assignment names both agents\<close>
  | NotOfThisTeam string named_as \<comment> \<open>... is not an agent of this team, and the ... must be one\<close>
  | NotAnActiveAgent string agent_status named_as \<comment> \<open>... is ..., and the ... must be an active agent\<close>

datatype gate_detail =
    AtAssignment assignment_reason
  | AtWork work_reason
  | AtPath path_reason
  | AtRejection rejection_reason
  | NotReady readiness_message
  | NotDone done_message
  | Shut transition_reason
  | AtDoor door_reason

type_synonym gate_result = "(gate_detail list, unit) result"

record gate_failure =
  failed_gate :: gate_id
  failed_details :: "gate_detail list"

datatype transition_refusal =
    WrongTask string string \<comment> \<open>the task asked for, the contract's\<close>
  | NoSuchTransition task_status task_status
  | ActorNotAllowed transition_actor "transition_actor list"
  | NotTheNamedAgent transition_actor "string option" "string option" \<comment> \<open>actor, named, asked\<close>
  | GateFailed "gate_failure list"

section \<open>Who asks\<close>

definition trimmed :: "string option \<Rightarrow> string option" where
  "trimmed i = (case i of None \<Rightarrow> None | Some s \<Rightarrow> if trim s = [] then None else Some (trim s))"

definition allowed_actors :: "transition_row list \<Rightarrow> transition_actor list" where
  "allowed_actors rows = each_once (map row_actor rows)"

fun is_named_by_the_contract :: "transition_actor \<Rightarrow> bool" where
  "is_named_by_the_contract AssigneeActor = True"
| "is_named_by_the_contract ReviewerActor = True"
| "is_named_by_the_contract ScrumMasterActor = False"
| "is_named_by_the_contract ProductManagerActor = False"
| "is_named_by_the_contract GovernorActor = False"
| "is_named_by_the_contract HumanActor = False"

fun named_agent :: "transition_actor \<Rightarrow> task_contract \<Rightarrow> string option" where
  "named_agent AssigneeActor contract = assignee contract"
| "named_agent ReviewerActor contract = reviewer contract"
| "named_agent ScrumMasterActor contract = None"
| "named_agent ProductManagerActor contract = None"
| "named_agent GovernorActor contract = None"
| "named_agent HumanActor contract = None"

fun requester :: "transition_actor \<Rightarrow> assignment_requester" where
  "requester ProductManagerActor = ProductManagerAsks"
| "requester _ = ScrumMasterAsks"

section \<open>Counting\<close>

definition iteration :: "task_contract \<Rightarrow> u32" where
  "iteration contract = u32_saturating (iteration_field contract)"

definition max_iterations :: "task_contract \<Rightarrow> u32" where
  "max_iterations contract = u32_saturating (max_iterations_field (contract_budget contract))"

definition iteration_limit :: "transition_context \<Rightarrow> u32" where
  "iteration_limit context =
     saturating_add (max_iterations (ctx_contract context)) (extra_iterations context)"

definition rejection_outcome_of :: "transition_context \<Rightarrow> rejection_outcome" where
  "rejection_outcome_of context =
     evaluate_rejection (iteration (ctx_contract context)) (iteration_limit context)"

section \<open>The gates\<close>

definition open_or :: "bool \<Rightarrow> 'r \<Rightarrow> ('r list, unit) result" where
  "open_or opened shut = (if opened then Inr () else Inl [shut])"

definition governor_may_verify :: "gate_id \<Rightarrow> transition_actor \<Rightarrow> transition_context \<Rightarrow> gate_result" where
  "governor_may_verify gate actor context =
     (if actor = GovernorActor \<and> gate \<in> {DefinitionOfDone, RejectionReasons}
         \<and> \<not> catervas_verifies_alone (ctx_contract context) (ctx_solo context)
      then Inl [Shut CatervasVerifiesOnlyAlone] else Inr ())"

definition human_must_accept_the_contract :: "transition_context \<Rightarrow> gate_result" where
  "human_must_accept_the_contract _ = Inl [Shut NoContractWaits]"

definition readiness_failures :: "glob_engine \<Rightarrow> transition_context \<Rightarrow> gate_detail list option" where
  "readiness_failures g context =
     (case evaluate_readiness g (ctx_contract context) (ctx_readiness context) of
        Inr _ \<Rightarrow> None
      | Inl failures \<Rightarrow> Some (map (\<lambda>f. NotReady (ready_message_of f)) failures))"

definition readiness_exhausted :: "glob_engine \<Rightarrow> transition_context \<Rightarrow> gate_result" where
  "readiness_exhausted g context =
     (if readiness_failures g context = None then Inl [Shut PassesReadiness]
      else open_or (evaluate_readiness_attempts (readiness_failed_attempts context)
                      (readiness_attempt_limit context) = EscalateReadiness)
             (Shut (RefinedAgain (readiness_failed_attempts context) (readiness_attempt_limit context))))"

definition blocked_long_enough :: "transition_context \<Rightarrow> gate_result" where
  "blocked_long_enough context =
     (case ctx_blocked_at context of
        None \<Rightarrow> Inl [Shut NoBlockTime]
      | Some blocked_at \<Rightarrow>
          open_or (evaluate_blocked_age blocked_at (ctx_now context) (ctx_blocked_limit context) = Exceeded)
            (Shut (NotBlockedFor (ctx_blocked_limit context div 1000000000))))"

fun reason_of_scope :: "budget_scope \<Rightarrow> escalation_reason" where
  "reason_of_scope TaskSessions = SessionsReason"
| "reason_of_scope TaskUsd = BudgetReason"
| "reason_of_scope SessionTokens = BudgetReason"
| "reason_of_scope SessionWallClock = BudgetReason"
| "reason_of_scope SessionToolCalls = BudgetReason"
| "reason_of_scope DayUsd = BudgetReason"

text \<open>The loop over the exhausted budgets stops at the first whose consequence is escalation.\<close>

definition governor_escalation_reason :: "transition_context \<Rightarrow> escalation_reason option" where
  "governor_escalation_reason context =
     (case List.find (\<lambda>e. consequence e = EscalateTask) (check_budgets (ctx_budget context)) of
        Some e \<Rightarrow> Some (reason_of_scope (scope e))
      | None \<Rightarrow>
          if iteration_limit context \<le> design_plan_returns context then Some IterationsReason
          else if permission_denied context then Some PermissionReason
          else if preview_failed context then Some PreviewReason
          else if criterion_unrunnable context then Some ExplicitRequest
          else None)"

definition human_rejection :: "transition_context \<Rightarrow> gate_result" where
  "human_rejection context =
     (if \<not> ctx_awaits_human context then Inl [Shut NotAwaitingHuman]
      else and_then
        (open_or (kind_of (ctx_contract context) = Epic \<or> review_passed context) (Shut ReviewNotPassed))
        (\<lambda>_. case ctx_rejection context of
               None \<Rightarrow> Inr ()
             | Some r \<Rightarrow> map_err (map AtRejection)
                 (check_failed_criterion_ids (ctx_contract context) (failed_criterion_ids r))))"

definition assignment_gate :: "transition_actor \<Rightarrow> transition_context \<Rightarrow> gate_result" where
  "assignment_gate actor context =
     (case ctx_assignment context of
        Some input \<Rightarrow> map_err (map AtAssignment)
          (check_assignment (ctx_contract context) (input\<lparr>requested_by := requester actor\<rparr>))
      | None \<Rightarrow> Inl [Shut NoPairNamed])"

text \<open>The loop of \<open>check_autopilot\<close>: the first open gate answers, and what the shut ones said is
  collected.\<close>

fun first_open :: "'r list \<Rightarrow> ('r list, unit) result list \<Rightarrow> ('r list, unit) result" where
  "first_open details [] = Inl details"
| "first_open details (Inr _ # rest) = Inr ()"
| "first_open details (Inl shut # rest) = first_open (details @ shut) rest"

text \<open>\<open>check_gate\<close> and \<open>check_autopilot\<close> call each other. The recursion ends because the rows the
  second tries are the human's, and none of those has the gate \<open>Autopilot\<close>.\<close>

lemma human_row_not_autopilot:
  "r \<in> set (find_transitions from to) \<Longrightarrow> row_actor r = HumanActor \<Longrightarrow> row_gate r \<noteq> Autopilot"
  by (auto simp: find_transitions_iff TRANSITION_TABLE_def)

lemma and_then_cong [fundef_cong]:
  "r = r' \<Longrightarrow> (\<And>a. r' = Inr a \<Longrightarrow> f a = f' a) \<Longrightarrow> and_then r f = and_then r' f'"
  by (cases r') auto

function check_gate ::
    "glob_engine \<Rightarrow> gate_id \<Rightarrow> transition_actor \<Rightarrow> task_status \<Rightarrow> transition_context \<Rightarrow> gate_result"
  and check_autopilot :: "glob_engine \<Rightarrow> task_status \<Rightarrow> transition_context \<Rightarrow> gate_result" where
  "check_gate g gate actor to context =
     and_then (governor_may_verify gate actor context) (\<lambda>_.
       case gate of
         NoGate \<Rightarrow> Inr ()
       | Triaged \<Rightarrow> open_or (ctx_triaged context) (Shut NotTriaged)
       | DefinitionOfReady \<Rightarrow>
           (let details = (case readiness_failures g context of None \<Rightarrow> [] | Some ds \<Rightarrow> ds)
            in if details = [] then Inr () else Inl details)
       | ReadinessExhausted \<Rightarrow> readiness_exhausted g context
       | ContractRequiresHuman \<Rightarrow> human_must_accept_the_contract context
       | AssignmentGate \<Rightarrow> assignment_gate actor context
       | CriteriaRecorded \<Rightarrow>
           map_err (map AtWork)
             (if kind_of (ctx_contract context) = Epic then check_children_done (ctx_children context)
              else check_criteria_recorded (ctx_contract context) (ctx_assignee_results context)
                     (ctx_work context))
       | BlockerWritten \<Rightarrow> map_err (map AtPath) (check_blocker_written (ctx_blocker context))
       | BlockerResolved \<Rightarrow> map_err (map AtPath)
           (check_blocker_resolved (ctx_blocker_resolution context) (ctx_blocked_from context) to)
       | BlockedAgeGate \<Rightarrow> blocked_long_enough context
       | DefinitionOfDone \<Rightarrow> map_err (map (\<lambda>f. NotDone (done_message_of f)))
           (evaluate_done g (ctx_contract context) (ctx_done context))
       | RejectionReasons \<Rightarrow> map_err (map AtRejection)
           (check_rejection_reasons (ctx_contract context) (ctx_rejection context))
       | IterationBelowLimit \<Rightarrow> open_or (rejection_outcome_of context = ReturnToInProgress)
           (Shut (RejectedAtLimit (iteration (ctx_contract context)) (iteration_limit context)))
       | IterationLimitReached \<Rightarrow> open_or (rejection_outcome_of context = EscalateRejection)
           (Shut (RejectedBelowLimit (iteration (ctx_contract context)) (iteration_limit context)))
       | GovernorEscalation \<Rightarrow> open_or (governor_escalation_reason context \<noteq> None) (Shut NothingToEscalate)
       | HumanRejection \<Rightarrow> human_rejection context
       | PullRequestConflicted \<Rightarrow> map_err (map AtPath)
           (check_pull_request_conflicted (pull_request_conflicts context))
       | DependencyCancelled \<Rightarrow> map_err (map AtPath)
           (check_dependency_cancelled (dependency_statuses (ctx_readiness context)))
       | Autopilot \<Rightarrow> check_autopilot g to context)"
| "check_autopilot g to context =
     (if \<not> autopilot_on context then Inl [Shut AutopilotOff]
      else
        let from = status (ctx_contract context) in
        if from \<notin> {Blocked, Escalated} then Inl [Shut (AutopilotElsewhere from)]
        else
          (case first_open [] (map (\<lambda>r. check_gate g (row_gate r) HumanActor to context)
                  (filter (\<lambda>r. row_actor r = HumanActor) (find_transitions from to))) of
             Inr _ \<Rightarrow> Inr ()
           | Inl details \<Rightarrow> Inl (if details = [] then [Shut OwnerHasNoMove] else details)))"
  by pat_completeness auto
termination
  by (relation "measure (\<lambda>x. case x of
        Inl (_, gate, _, _, _) \<Rightarrow> (if gate = Autopilot then 2 else 0)
      | Inr _ \<Rightarrow> 1)")
    (auto dest: human_row_not_autopilot)

declare check_gate.simps [simp del] check_autopilot.simps [simp del]

section \<open>Effects\<close>

definition escalation_reason_of :: "gate_id \<Rightarrow> transition_context \<Rightarrow> escalation_reason" where
  "escalation_reason_of gate context =
     (case gate of
        ReadinessExhausted \<Rightarrow> ReadinessFailures
      | ContractRequiresHuman \<Rightarrow> if contract_risk (ctx_contract context) = High then RiskGate else Approval
      | BlockedAgeGate \<Rightarrow> BlockerAge
      | IterationLimitReached \<Rightarrow> IterationsReason
      | GovernorEscalation \<Rightarrow>
          (case governor_escalation_reason context of None \<Rightarrow> BudgetReason | Some r \<Rightarrow> r)
      | _ \<Rightarrow> ExplicitRequest)"

definition effects :: "gate_id \<Rightarrow> task_status \<Rightarrow> transition_context \<Rightarrow> transition_effect list" where
  "effects gate to context =
     (let from = status (ctx_contract context);
          leaves_a_block = from \<in> {Blocked, Escalated} \<and> to \<in> {Verifying, Refining}
      in reason_if (from = Rejected \<and> to = InProgress) IncrementIteration
         @ reason_if (to = Escalated) (RaiseEscalation (escalation_reason_of gate context))
         @ reason_if (to = InProgress \<or> leaves_a_block) ResetBlocker
         @ reason_if (to = Blocked) StampBlockedAt
         @ reason_if (to = Accepted
             \<and> (task_private_folder (ctx_contract context) \<noteq> None \<or> documents_stay_local context))
             NothingToIntegrate)"

section \<open>The decision\<close>

definition designer_rejects :: "transition_request \<Rightarrow> transition_context \<Rightarrow> bool" where
  "designer_rejects request context \<longleftrightarrow>
     asked_actor request = ReviewerActor \<and> asked_to request = Rejected
     \<and> trimmed (asked_agent request) \<noteq> None
     \<and> trimmed (design_reviewer context) = trimmed (asked_agent request)"

definition check_row ::
  "glob_engine \<Rightarrow> transition_request \<Rightarrow> transition_context \<Rightarrow> transition_row \<Rightarrow> gate_result" where
  "check_row g request context r =
     (if designer_rejects request context \<and> row_gate r = RejectionReasons
      then map_err (map AtRejection)
             (check_design_rejection (ctx_contract context) (ctx_rejection context))
      else check_gate g (row_gate r) (asked_actor request) (asked_to request) context)"

text \<open>The loop over the actor's rows: \<open>failures\<close> is the vector of what the shut gates said.\<close>

fun try_rows ::
  "glob_engine \<Rightarrow> transition_request \<Rightarrow> transition_context \<Rightarrow> gate_failure list \<Rightarrow> transition_row list \<Rightarrow>
   (transition_refusal, transition_decision) result" where
  "try_rows g request context failures [] = Inl (GateFailed failures)"
| "try_rows g request context failures (r # rs) =
     (case check_row g request context r of
        Inr _ \<Rightarrow> Inr \<lparr>decided_from = status (ctx_contract context), decided_to = asked_to request,
                     decided_row = r, decided_effects = effects (row_gate r) (asked_to request) context\<rparr>
      | Inl details \<Rightarrow>
          try_rows g request context
            (failures @ [\<lparr>failed_gate = row_gate r, failed_details = details\<rparr>]) rs)"

definition evaluate_transition ::
  "glob_engine \<Rightarrow> transition_request \<Rightarrow> transition_context \<Rightarrow>
   (transition_refusal, transition_decision) result" where
  "evaluate_transition g request context =
     (let contract = ctx_contract context; from = status contract; to = asked_to request;
          actor = asked_actor request in
      if asked_task request \<noteq> task_id contract then Inl (WrongTask (asked_task request) (task_id contract))
      else
        let rows = find_transitions from to in
        if rows = [] then Inl (NoSuchTransition from to)
        else
          let mine = filter (\<lambda>r. row_actor r = actor) rows in
          if mine = [] then Inl (ActorNotAllowed actor (allowed_actors rows))
          else
            let named = named_agent actor contract in
            if is_named_by_the_contract actor \<and> \<not> designer_rejects request context
               \<and> (trimmed named = None \<or> trimmed named \<noteq> trimmed (asked_agent request))
            then Inl (NotTheNamedAgent actor named (asked_agent request))
            else try_rows g request context [] mine)"

section \<open>The loop over the rows\<close>

definition decision :: "transition_request \<Rightarrow> transition_context \<Rightarrow> transition_row \<Rightarrow> transition_decision" where
  "decision request context r =
     \<lparr>decided_from = status (ctx_contract context), decided_to = asked_to request,
      decided_row = r, decided_effects = effects (row_gate r) (asked_to request) context\<rparr>"

lemma decision_simps [simp]:
  "decided_from (decision q x r) = status (ctx_contract x)" "decided_to (decision q x r) = asked_to q"
  "decided_row (decision q x r) = r"
  "decided_effects (decision q x r) = effects (row_gate r) (asked_to q) x"
  by (simp_all add: decision_def)

lemma try_rows_Inr_iff:
  "try_rows g q x failures rs = Inr d \<longleftrightarrow>
     (\<exists>r. List.find (\<lambda>r. check_row g q x r = Inr ()) rs = Some r \<and> d = decision q x r)"
proof (induction rs arbitrary: failures)
  case (Cons r rs)
  then show ?case
    using sum_unit_cases [of "check_row g q x r"]
    by (cases "check_row g q x r") (auto simp: decision_def)
qed simp

definition gate_failures :: "glob_engine \<Rightarrow> transition_request \<Rightarrow> transition_context \<Rightarrow> transition_row list \<Rightarrow> gate_failure list"
  where "gate_failures g q x rs =
    filter_map (\<lambda>r. case check_row g q x r of Inr _ \<Rightarrow> None
      | Inl details \<Rightarrow> Some \<lparr>failed_gate = row_gate r, failed_details = details\<rparr>) rs"

lemma try_rows_Inl_iff:
  "try_rows g q x failures rs = Inl e \<longleftrightarrow>
     (\<forall>r \<in> set rs. check_row g q x r \<noteq> Inr ()) \<and> e = GateFailed (failures @ gate_failures g q x rs)"
proof (induction rs arbitrary: failures)
  case (Cons r rs)
  then show ?case by (cases "check_row g q x r") (auto simp: gate_failures_def)
qed (auto simp: gate_failures_def)

section \<open>Who may ask, and what opens\<close>

text \<open>The agent asking is the one the contract names, where the row names one.\<close>

definition may_ask :: "transition_request \<Rightarrow> transition_context \<Rightarrow> bool" where
  "may_ask q x \<longleftrightarrow>
     (is_named_by_the_contract (asked_actor q) \<longrightarrow> designer_rejects q x
        \<or> (trimmed (asked_agent q) \<noteq> None
           \<and> trimmed (named_agent (asked_actor q) (ctx_contract x)) = trimmed (asked_agent q)))"

abbreviation rows_of :: "transition_request \<Rightarrow> transition_context \<Rightarrow> transition_row list" where
  "rows_of q x \<equiv> filter (\<lambda>r. row_actor r = asked_actor q)
     (find_transitions (status (ctx_contract x)) (asked_to q))"

lemma rows_of_Nil: "rows_of q x = [] \<longleftrightarrow> \<not> asks (status (ctx_contract x)) (asked_actor q) (asked_to q)"
  by (auto simp: table_matches_asks [symmetric] has_row_iff filter_empty_conv)

lemma evaluate_transition_cases:
  "evaluate_transition g q x =
     (if asked_task q \<noteq> task_id (ctx_contract x) then Inl (WrongTask (asked_task q) (task_id (ctx_contract x)))
      else if find_transitions (status (ctx_contract x)) (asked_to q) = []
      then Inl (NoSuchTransition (status (ctx_contract x)) (asked_to q))
      else if rows_of q x = []
      then Inl (ActorNotAllowed (asked_actor q)
             (allowed_actors (find_transitions (status (ctx_contract x)) (asked_to q))))
      else if \<not> may_ask q x
      then Inl (NotTheNamedAgent (asked_actor q) (named_agent (asked_actor q) (ctx_contract x)) (asked_agent q))
      else try_rows g q x [] (rows_of q x))"
  unfolding evaluate_transition_def Let_def may_ask_def by (auto cong: if_cong)

lemma evaluate_transition_Inr_iff:
  "evaluate_transition g q x = Inr d \<longleftrightarrow>
     asked_task q = task_id (ctx_contract x) \<and> may_ask q x
     \<and> (\<exists>r. List.find (\<lambda>r. check_row g q x r = Inr ()) (rows_of q x) = Some r \<and> d = decision q x r)"
proof (cases "rows_of q x = []")
  case True
  then show ?thesis by (simp add: evaluate_transition_cases)
next
  case False
  then have "find_transitions (status (ctx_contract x)) (asked_to q) \<noteq> []" by auto
  with False show ?thesis by (simp add: evaluate_transition_cases try_rows_Inr_iff)
qed

lemma evaluate_transition_InrE:
  assumes "evaluate_transition g q x = Inr d"
  obtains r where "r \<in> set (find_transitions (status (ctx_contract x)) (asked_to q))"
    and "row_actor r = asked_actor q" and "check_row g q x r = Inr ()" and "d = decision q x r"
    and "may_ask q x" and "asked_task q = task_id (ctx_contract x)"
  using assms by (auto simp: evaluate_transition_Inr_iff dest!: find_Some_in)

lemma passes_iff:
  "is_ok (evaluate_transition g q x) \<longleftrightarrow>
     asked_task q = task_id (ctx_contract x) \<and> may_ask q x
     \<and> (\<exists>r \<in> set (rows_of q x). check_row g q x r = Inr ())"
proof -
  have "(\<exists>r. List.find (\<lambda>r. check_row g q x r = Inr ()) rs = Some r)
      \<longleftrightarrow> (\<exists>r \<in> set rs. check_row g q x r = Inr ())" for rs
    using find_None_iff [of "\<lambda>r. check_row g q x r = Inr ()" rs]
    by (cases "List.find (\<lambda>r. check_row g q x r = Inr ()) rs") auto
  then show ?thesis by (auto simp: is_ok_iff evaluate_transition_Inr_iff)
qed

lemma open_or_Inr [simp]: "open_or b s = Inr () \<longleftrightarrow> b"
  by (simp add: open_or_def)

lemma governor_may_verify_Inr [simp]:
  "governor_may_verify gate actor x = Inr () \<longleftrightarrow>
     (actor = GovernorActor \<longrightarrow> gate \<in> {DefinitionOfDone, RejectionReasons} \<longrightarrow>
        catervas_verifies_alone (ctx_contract x) (ctx_solo x))"
  by (auto simp: governor_may_verify_def)

lemma first_open_Inr: "first_open details rs = Inr () \<longleftrightarrow> Inr () \<in> set rs"
  by (induction details rs rule: first_open.induct) auto

lemma unit_Inr: "(\<exists>u. r = Inr (u :: unit)) \<longleftrightarrow> r = Inr ()"
  by auto

lemma readiness_failures_None: "readiness_failures g x = None \<longleftrightarrow>
    evaluate_readiness g (ctx_contract x) (ctx_readiness x) = Inr ()"
  by (auto simp: readiness_failures_def split: sum.splits)

lemma readiness_failures_not_empty: "readiness_failures g x \<noteq> Some []"
  using ready_list.failure_never_empty
  by (fastforce simp: readiness_failures_def evaluate_readiness_def split: sum.splits)

lemma check_gate_opens:
  "check_gate g NoGate actor to x = Inr ()"
  "check_gate g Triaged actor to x = Inr () \<longleftrightarrow> ctx_triaged x"
  "check_gate g DefinitionOfReady actor to x = Inr () \<longleftrightarrow>
     evaluate_readiness g (ctx_contract x) (ctx_readiness x) = Inr ()"
  "check_gate g ReadinessExhausted actor to x = Inr () \<longleftrightarrow>
     evaluate_readiness g (ctx_contract x) (ctx_readiness x) \<noteq> Inr ()
     \<and> unat (readiness_attempt_limit x) \<le> unat (readiness_failed_attempts x)"
  "check_gate g ContractRequiresHuman actor to x \<noteq> Inr ()"
  "check_gate g CriteriaRecorded actor to x = Inr () \<longleftrightarrow>
     (if kind_of (ctx_contract x) = Epic then check_children_done (ctx_children x) = Inr ()
      else check_criteria_recorded (ctx_contract x) (ctx_assignee_results x) (ctx_work x) = Inr ())"
  "check_gate g BlockerWritten actor to x = Inr () \<longleftrightarrow> check_blocker_written (ctx_blocker x) = Inr ()"
  "check_gate g BlockerResolved actor to x = Inr () \<longleftrightarrow>
     check_blocker_resolved (ctx_blocker_resolution x) (ctx_blocked_from x) to = Inr ()"
  "check_gate g BlockedAgeGate actor to x = Inr () \<longleftrightarrow>
     (\<exists>t. ctx_blocked_at x = Some t \<and> t \<le> ctx_now x \<and> int (ctx_blocked_limit x) \<le> ctx_now x - t)"
  "check_gate g DefinitionOfDone actor to x = Inr () \<longleftrightarrow>
     evaluate_done g (ctx_contract x) (ctx_done x) = Inr ()
     \<and> (actor = GovernorActor \<longrightarrow> catervas_verifies_alone (ctx_contract x) (ctx_solo x))"
  "check_gate g RejectionReasons actor to x = Inr () \<longleftrightarrow>
     check_rejection_reasons (ctx_contract x) (ctx_rejection x) = Inr ()
     \<and> (actor = GovernorActor \<longrightarrow> catervas_verifies_alone (ctx_contract x) (ctx_solo x))"
  "check_gate g IterationBelowLimit actor to x = Inr () \<longleftrightarrow>
     unat (iteration (ctx_contract x)) < unat (iteration_limit x)"
  "check_gate g IterationLimitReached actor to x = Inr () \<longleftrightarrow>
     unat (iteration_limit x) \<le> unat (iteration (ctx_contract x))"
  "check_gate g GovernorEscalation actor to x = Inr () \<longleftrightarrow> governor_escalation_reason x \<noteq> None"
  "check_gate g HumanRejection actor to x = Inr () \<longleftrightarrow> human_rejection x = Inr ()"
  "check_gate g PullRequestConflicted actor to x = Inr () \<longleftrightarrow> pull_request_conflicts x \<noteq> []"
  "check_gate g DependencyCancelled actor to x = Inr () \<longleftrightarrow>
     (\<exists>d. (d, Cancelled) \<in> set (dependency_statuses (ctx_readiness x)))"
  "check_gate g AssignmentGate actor to x = Inr () \<longleftrightarrow>
     (\<exists>i. ctx_assignment x = Some i \<and>
        check_assignment (ctx_contract x) (i\<lparr>requested_by := requester actor\<rparr>) = Inr ())"
proof -
  show "check_gate g DefinitionOfReady actor to x = Inr () \<longleftrightarrow>
     evaluate_readiness g (ctx_contract x) (ctx_readiness x) = Inr ()"
    using readiness_failures_not_empty [of g x]
    by (auto simp: check_gate.simps and_then_Inr_iff unit_Inr readiness_failures_None [symmetric] Let_def
        split: option.splits)
  show "check_gate g ReadinessExhausted actor to x = Inr () \<longleftrightarrow>
     evaluate_readiness g (ctx_contract x) (ctx_readiness x) \<noteq> Inr ()
     \<and> unat (readiness_attempt_limit x) \<le> unat (readiness_failed_attempts x)"
    by (auto simp: check_gate.simps and_then_Inr_iff unit_Inr readiness_exhausted_def
        readiness_failures_None evaluate_readiness_attempts_cases)
  show "check_gate g BlockedAgeGate actor to x = Inr () \<longleftrightarrow>
     (\<exists>t. ctx_blocked_at x = Some t \<and> t \<le> ctx_now x \<and> int (ctx_blocked_limit x) \<le> ctx_now x - t)"
    by (auto simp: check_gate.simps and_then_Inr_iff unit_Inr blocked_long_enough_def
        evaluate_blocked_age_Exceeded_iff split: option.splits)
  show "check_gate g DependencyCancelled actor to x = Inr () \<longleftrightarrow>
     (\<exists>d. (d, Cancelled) \<in> set (dependency_statuses (ctx_readiness x)))"
    by (auto simp: check_gate.simps and_then_Inr_iff unit_Inr check_dependency_cancelled_def list_ex_iff)
  show "check_gate g AssignmentGate actor to x = Inr () \<longleftrightarrow>
     (\<exists>i. ctx_assignment x = Some i \<and>
        check_assignment (ctx_contract x) (i\<lparr>requested_by := requester actor\<rparr>) = Inr ())"
    by (auto simp: check_gate.simps and_then_Inr_iff unit_Inr assignment_gate_def split: option.splits)
qed (auto simp: check_gate.simps and_then_Inr_iff unit_Inr human_must_accept_the_contract_def
    rejection_outcome_of_def evaluate_rejection_cases check_pull_request_conflicted_def)

lemma check_gate_Autopilot: "check_gate g Autopilot actor to x = Inr () \<longleftrightarrow> check_autopilot g to x = Inr ()"
  by (auto simp: check_gate.simps and_then_Inr_iff unit_Inr)

lemma check_autopilot_opens:
  "check_autopilot g to x = Inr () \<longleftrightarrow>
     autopilot_on x \<and> status (ctx_contract x) \<in> {Blocked, Escalated}
     \<and> (\<exists>r \<in> set (find_transitions (status (ctx_contract x)) to).
          row_actor r = HumanActor \<and> check_gate g (row_gate r) HumanActor to x = Inr ())"
proof -
  let ?rs = "map (\<lambda>r. check_gate g (row_gate r) HumanActor to x)
               (filter (\<lambda>r. row_actor r = HumanActor) (find_transitions (status (ctx_contract x)) to))"
  have "(case first_open [] ?rs of Inr _ \<Rightarrow> Inr () | Inl details \<Rightarrow> Inl (f details)) = Inr ()
      \<longleftrightarrow> Inr () \<in> set ?rs" for f :: "gate_detail list \<Rightarrow> gate_detail list"
    using first_open_Inr [of "[]" ?rs] by (cases "first_open [] ?rs") auto
  then show ?thesis
    by (auto simp: check_autopilot.simps Let_def image_iff eq_commute [of "Inr ()"])
qed

text \<open>Not \<open>check_autopilot_opens\<close>, which with these would unfold for ever.\<close>

lemmas gate_opens = check_gate_opens check_gate_Autopilot

section \<open>Refusals\<close>

lemma map_err_not_empty [simp]: "map_err (map f) r = Inl [] \<longleftrightarrow> r = Inl []"
  by (cases r) auto

lemma open_or_not_empty [simp]: "open_or b s \<noteq> Inl []"
  by (simp add: open_or_def)

lemma gates_not_empty:
  "check_assignment c i \<noteq> Inl []" "check_children_done cs \<noteq> Inl []"
  "check_criteria_recorded c rs w \<noteq> Inl []" "check_blocker_written b \<noteq> Inl []"
  "check_blocker_resolved res bf to \<noteq> Inl []" "evaluate_done g c e \<noteq> Inl []"
  "check_rejection_reasons c rej \<noteq> Inl []" "check_design_rejection c rej \<noteq> Inl []"
  "check_pull_request_conflicted ps \<noteq> Inl []" "check_dependency_cancelled ds \<noteq> Inl []"
  "evaluate_readiness g c rx \<noteq> Inl []"
proof -
  show "evaluate_done g c e \<noteq> Inl []" "evaluate_readiness g c rx \<noteq> Inl []"
    using done_list.failure_never_empty ready_list.failure_never_empty
    unfolding evaluate_done_def evaluate_readiness_def by blast+
qed (simp_all add: check_assignment_def check_children_done_def check_criteria_recorded_def
    check_blocker_written_def check_blocker_resolved_def check_rejection_reasons_def
    check_design_rejection_def check_pull_request_conflicted_def check_dependency_cancelled_def Let_def
    split: option.splits)

lemma check_gate_not_empty: "check_gate g gate actor to x \<noteq> Inl []"
proof -
  have auto_pilot: "check_autopilot g to x \<noteq> Inl []"
    by (auto simp: check_autopilot.simps Let_def split: sum.splits)
  have human: "human_rejection x \<noteq> Inl []"
    by (auto simp: human_rejection_def and_then_Inl_iff check_failed_criterion_ids_not_empty
        split: option.splits)
  have assignment: "assignment_gate actor x \<noteq> Inl []"
    by (auto simp: assignment_gate_def gates_not_empty split: option.splits)
  show ?thesis
    using auto_pilot human assignment
    by (cases gate) (auto simp: check_gate.simps and_then_Inl_iff governor_may_verify_def gates_not_empty
        Let_def readiness_exhausted_def human_must_accept_the_contract_def blocked_long_enough_def
        split: option.splits if_splits)
qed

lemma check_row_not_empty: "check_row g q x r \<noteq> Inl []"
  by (simp add: check_row_def check_gate_not_empty gates_not_empty)

lemma gate_failures_all_shut:
  "\<forall>r \<in> set rs. check_row g q x r \<noteq> Inr () \<Longrightarrow>
     map failed_gate (gate_failures g q x rs) = map row_gate rs
     \<and> (\<forall>f \<in> set (gate_failures g q x rs). failed_details f \<noteq> [])"
proof (induction rs)
  case (Cons r rs)
  then show ?case
    using check_row_not_empty [of g q x r]
    by (cases "check_row g q x r") (auto simp: gate_failures_def)
qed (simp add: gate_failures_def)

lemma find_transitions_Nil: "find_transitions from to = [] \<longleftrightarrow> (\<forall>actor. \<not> asks from actor to)"
  by (cases "find_transitions from to") (auto simp: table_matches_asks [symmetric] has_row_iff)

lemma set_allowed_actors: "set (allowed_actors (find_transitions from to)) = {a. asks from a to}"
  by (auto simp: allowed_actors_def table_matches_asks [symmetric] has_row_iff)

lemma find_Some_split:
  "List.find P xs = Some y \<longleftrightarrow>
     (\<exists>before after. xs = before @ y # after \<and> (\<forall>z \<in> set before. \<not> P z) \<and> P y)"
proof (induction xs)
  case (Cons x xs)
  show ?case
  proof
    assume found: "List.find P (x # xs) = Some y"
    show "\<exists>before after. x # xs = before @ y # after \<and> (\<forall>z \<in> set before. \<not> P z) \<and> P y"
    proof (cases "P x")
      case True
      with found have "x # xs = [] @ y # xs \<and> P y" by simp
      then show ?thesis by fastforce
    next
      case False
      with found Cons obtain before after
        where "xs = before @ y # after" "\<forall>z \<in> set before. \<not> P z" "P y" by auto
      with False have "x # xs = (x # before) @ y # after \<and> (\<forall>z \<in> set (x # before). \<not> P z) \<and> P y"
        by simp
      then show ?thesis by blast
    qed
  next
    assume "\<exists>before after. x # xs = before @ y # after \<and> (\<forall>z \<in> set before. \<not> P z) \<and> P y"
    then obtain before after where split: "x # xs = before @ y # after"
      and none: "\<forall>z \<in> set before. \<not> P z" and y: "P y" by blast
    show "List.find P (x # xs) = Some y"
    proof (cases before)
      case Nil
      with split y show ?thesis by simp
    next
      case (Cons z zs)
      with split none y have "\<not> P x" "\<exists>before after. xs = before @ y # after \<and> (\<forall>z \<in> set before. \<not> P z) \<and> P y"
        by auto
      with Cons.IH show ?thesis by simp
    qed
  qed
qed simp

text \<open>
  C1: A move passes exactly when the request is about the contract's own task, the agent asking is
  the one the contract names where the row names one (or the Designer whose review failed, who may
  reject), and some row of the table for this move and this actor has an open gate; the row taken is
  the first such in table order, and the decision is that row's.
\<close>

theorem transition_passes_iff:
  "evaluate_transition g q x = Inr d \<longleftrightarrow>
     asked_task q = task_id (ctx_contract x) \<and> may_ask q x
     \<and> (\<exists>before r after.
          filter (\<lambda>r. row_actor r = asked_actor q)
            (find_transitions (status (ctx_contract x)) (asked_to q)) = before @ r # after
          \<and> (\<forall>p \<in> set before. check_row g q x p \<noteq> Inr ()) \<and> check_row g q x r = Inr ()
          \<and> d = \<lparr>decided_from = status (ctx_contract x), decided_to = asked_to q, decided_row = r,
                 decided_effects = effects (row_gate r) (asked_to q) x\<rparr>)"
proof -
  show ?thesis
    unfolding evaluate_transition_Inr_iff decision_def find_Some_split by blast
qed

text \<open>
  C33: A refusal is the first that applies, of: the request is about another task; no actor may ask
  for this move; this actor may not, and the list names exactly the actors that may; another agent
  is named; or every gate open to this actor is shut, and the failures name each row's gate in table
  order, each with at least one reason. Who may ask for what is the abstract table of the prose.
\<close>

theorem transition_refusal_is_the_first:
  assumes "evaluate_transition g q x = Inl e"
  defines "from \<equiv> status (ctx_contract x)" and "to \<equiv> asked_to q" and "actor \<equiv> asked_actor q"
  shows "if asked_task q \<noteq> task_id (ctx_contract x) then e = WrongTask (asked_task q) (task_id (ctx_contract x))
    else if \<forall>a. \<not> asks from a to then e = NoSuchTransition from to
    else if \<not> asks from actor to
      then \<exists>allowed. e = ActorNotAllowed actor allowed \<and> set allowed = {a. asks from a to} \<and> distinct allowed
    else if \<not> may_ask q x then e = NotTheNamedAgent actor (named_agent actor (ctx_contract x)) (asked_agent q)
    else \<exists>failures. e = GateFailed failures
      \<and> map failed_gate failures = map row_gate (filter (\<lambda>r. row_actor r = actor) (find_transitions from to))
      \<and> (\<forall>f \<in> set failures. failed_details f \<noteq> [])"
proof -
  have "distinct (allowed_actors rs)" for rs by (simp add: allowed_actors_def)
  moreover have "\<exists>failures. e = GateFailed failures
      \<and> map failed_gate failures = map row_gate (filter (\<lambda>r. row_actor r = actor) (find_transitions from to))
      \<and> (\<forall>f \<in> set failures. failed_details f \<noteq> [])"
    if "try_rows g q x [] (rows_of q x) = Inl e"
    using that gate_failures_all_shut [of "rows_of q x" g q x]
    by (simp add: try_rows_Inl_iff from_def to_def actor_def)
  ultimately show ?thesis
    using assms(1) set_allowed_actors [of "from" to]
    unfolding evaluate_transition_cases find_transitions_Nil rows_of_Nil from_def to_def actor_def
    by (auto split: if_splits)
qed

section \<open>A context for the witnesses\<close>

definition sample_budget :: budget_state where
  "sample_budget =
     \<lparr>session = \<lparr>ledger_usage = \<lparr>input_tokens = 10, output_tokens = 10, cache_read_tokens = 0,
          cache_write_tokens = 0\<rparr>, wall_clock = 1, tool_calls = 2, cost_usd = Finite 1\<rparr>,
      limits_of_session = DEFAULT_SESSION_LIMITS, task_spent_usd = Finite 1, task_max_usd = Finite 2,
      task_sessions = 1, task_max_sessions = 4, day_spent_usd = Finite 1, day_max_usd = Finite 9\<rparr>"

definition sample_context :: "task_status \<Rightarrow> transition_context" where
  "sample_context st =
     \<lparr>ctx_contract = sample_contract\<lparr>status := st, assignee := Some ''agent_1'', reviewer := Some ''agent_2''\<rparr>,
      ctx_triaged = True, ctx_children = [], ctx_readiness = sample_ready_context,
      readiness_failed_attempts = 0, readiness_attempt_limit = 3,
      ctx_assignment = Some sample_assignment, ctx_assignee_results = [],
      ctx_work = \<lparr>commits = 1, worktree_clean = True, folder_of_work = None, documents_of_work = None\<rparr>,
      ctx_blocker = None, ctx_blocker_resolution = Some ''use the other key'',
      ctx_blocked_from = Some InProgress, pull_request_conflicts = [], ctx_blocked_at = Some 0,
      ctx_now = 5, ctx_blocked_limit = 9, ctx_done = sample_evidence, ctx_rejection = None,
      ctx_budget = sample_budget, permission_denied = False, criterion_unrunnable = False,
      preview_failed = False, ctx_awaits_human = False, review_passed = True, extra_iterations = 0,
      design_plan_returns = 0, design_reviewer = None, ctx_solo = False,
      documents_stay_local = False, autopilot_on = True\<rparr>"

definition sample_request :: "transition_actor \<Rightarrow> task_status \<Rightarrow> transition_request" where
  "sample_request actor to =
     \<lparr>asked_task = ''task_7'', asked_to = to, asked_actor = actor, asked_agent = Some ''agent_1''\<rparr>"

lemma sample_fields [simp]:
  "status (ctx_contract (sample_context st)) = st"
  "task_id (ctx_contract (sample_context st)) = ''task_7''"
  "autopilot_on (sample_context st)"
  "asked_to (sample_request a t) = t" "asked_actor (sample_request a t) = a"
  "asked_task (sample_request a t) = ''task_7''"
  by (simp_all add: sample_context_def sample_request_def sample_contract_def)

lemma sample_parts:
  "ctx_contract (sample_context st) =
     sample_contract\<lparr>status := st, assignee := Some ''agent_1'', reviewer := Some ''agent_2''\<rparr>"
  "ctx_done (sample_context st) = sample_evidence"
  "ctx_readiness (sample_context st) = sample_ready_context"
  "ctx_blocker_resolution (sample_context st) = Some ''use the other key''"
  "ctx_blocked_from (sample_context st) = Some InProgress"
  by (simp_all add: sample_context_def)

section \<open>The move into each status that matters\<close>

lemma may_ask_unnamed: "\<not> is_named_by_the_contract (asked_actor q) \<Longrightarrow> may_ask q x"
  by (simp add: may_ask_def)

lemma check_row_not_designer:
  "\<not> designer_rejects q x \<Longrightarrow> check_row g q x r = check_gate g (row_gate r) (asked_actor q) (asked_to q) x"
  by (simp add: check_row_def)

lemma designer_rejects_Rejected: "designer_rejects q x \<Longrightarrow> asked_to q = Rejected \<and> asked_actor q = ReviewerActor"
  by (simp add: designer_rejects_def)

lemma check_row_to: "asked_to q \<noteq> Rejected \<or> asked_actor q \<noteq> ReviewerActor \<Longrightarrow>
    check_row g q x r = check_gate g (row_gate r) (asked_actor q) (asked_to q) x"
  using designer_rejects_Rejected by (blast intro: check_row_not_designer)

text \<open>
  C3: Work is accepted only once it meets the Definition of Done, asked for by the Product Manager, or
  by the Governor for a task that Catervas verifies alone; the one other way in is out of an
  escalation, by the human or under autopilot by the Product Manager.
\<close>

theorem accepted_means_done:
  assumes "evaluate_transition g q x = Inr d" and "asked_to q = Accepted"
  shows "status (ctx_contract x) = Verifying
      \<and> evaluate_done g (ctx_contract x) (ctx_done x) = Inr ()
      \<and> (asked_actor q = ProductManagerActor
         \<or> asked_actor q = GovernorActor \<and> catervas_verifies_alone (ctx_contract x) (ctx_solo x))
    \<or> status (ctx_contract x) = Escalated
      \<and> (asked_actor q = HumanActor \<or> asked_actor q = ProductManagerActor \<and> autopilot_on x)"
proof -
  from assms(1) obtain r where r: "r \<in> set (find_transitions (status (ctx_contract x)) (asked_to q))"
    and actor: "row_actor r = asked_actor q" and opens: "check_row g q x r = Inr ()"
    by (rule evaluate_transition_InrE)
  from opens have gate: "check_gate g (row_gate r) (asked_actor q) Accepted x = Inr ()"
    using assms(2) by (simp add: check_row_to)
  from find_transitions_to_Accepted [OF r [unfolded assms(2)]] show ?thesis
    using actor gate by (auto simp: gate_opens check_autopilot_opens)
qed

text \<open>
  C31: A contract becomes ready only by meeting the Definition of Ready, asked for by the Governor,
  or out of an escalation by the human or, under autopilot, the Product Manager; and the Governor's
  request passes whenever the contract meets it.
\<close>

theorem ready_means_readiness:
  assumes "asked_task q = task_id (ctx_contract x)" and "asked_to q = Ready"
  shows "is_ok (evaluate_transition g q x) \<longleftrightarrow>
      status (ctx_contract x) = Refining \<and> asked_actor q = GovernorActor
        \<and> evaluate_readiness g (ctx_contract x) (ctx_readiness x) = Inr ()
    \<or> status (ctx_contract x) = Escalated
        \<and> (asked_actor q = HumanActor \<or> asked_actor q = ProductManagerActor \<and> autopilot_on x)"
proof -
  have rows: "find_transitions st Ready =
      (if st = Refining then [row (Is Refining) (Is Ready) GovernorActor DefinitionOfReady]
       else if st = Escalated then [row (Is Escalated) Any HumanActor NoGate, row (Is Escalated) Any ProductManagerActor Autopilot]
       else [])" for st
    by (cases st) (simp_all add: find_transitions_def TRANSITION_TABLE_def leaves_def)
  have auto_opens: "check_autopilot g Ready x = Inr () \<longleftrightarrow> autopilot_on x" if "status (ctx_contract x) = Escalated"
    using that by (simp add: check_autopilot_opens rows check_gate_opens)
  consider (refining) "status (ctx_contract x) = Refining" | (escalated) "status (ctx_contract x) = Escalated"
    | (other) "status (ctx_contract x) \<noteq> Refining" "status (ctx_contract x) \<noteq> Escalated" by blast
  then show ?thesis
  proof cases
    case refining
    then show ?thesis
      using assms by (cases "asked_actor q")
        (simp_all add: passes_iff rows check_row_to gate_opens may_ask_unnamed)
  next
    case escalated
    then show ?thesis
      using assms auto_opens by (cases "asked_actor q")
        (simp_all add: passes_iff rows check_row_to gate_opens may_ask_unnamed)
  next
    case other
    then show ?thesis using assms by (simp add: passes_iff rows)
  qed
qed


lemma sample_done: "evaluate_done prefix_globs (sample_contract\<lparr>status := Verifying, assignee := Some ''agent_1'',
    reviewer := Some ''agent_2''\<rparr>) sample_evidence = Inr ()"
  by code_simp

lemma sample_id: "task_id sample_contract = ''task_7''"
  by (simp add: sample_contract_def)

lemma sample_acceptance:
  "is_ok (evaluate_transition prefix_globs (sample_request ProductManagerActor Accepted) (sample_context Verifying))"
proof -
  have "row (Is Verifying) (Is Accepted) ProductManagerActor DefinitionOfDone \<in> set (find_transitions Verifying Accepted)"
    by (simp add: find_transitions_def TRANSITION_TABLE_def leaves_def)
  then show ?thesis
    unfolding passes_iff
    by (auto simp: may_ask_unnamed check_row_to check_gate_opens sample_done sample_parts sample_id
        intro!: bexI [of _ "row (Is Verifying) (Is Accepted) ProductManagerActor DefinitionOfDone"])
qed

theorem accepted_means_done_witness:
  "evaluate_done prefix_globs (ctx_contract (sample_context Verifying)) (ctx_done (sample_context Verifying)) = Inr ()"
proof -
  have "is_ok (evaluate_transition prefix_globs (sample_request ProductManagerActor Accepted) (sample_context Verifying))"
    by (rule sample_acceptance)
  then obtain d where "evaluate_transition prefix_globs (sample_request ProductManagerActor Accepted)
      (sample_context Verifying) = Inr d"
    by (auto simp: is_ok_iff)
  from accepted_means_done [OF this] show ?thesis by simp
qed

theorem ready_means_readiness_witness:
  "is_ok (evaluate_transition prefix_globs (sample_request GovernorActor Ready) (sample_context Refining))"
proof -
  have "evaluate_readiness prefix_globs (sample_contract\<lparr>status := Refining, assignee := Some ''agent_1'',
      reviewer := Some ''agent_2''\<rparr>) sample_ready_context = Inr ()"
    by code_simp
  then have "evaluate_readiness prefix_globs (ctx_contract (sample_context Refining))
      (ctx_readiness (sample_context Refining)) = Inr ()"
    by (simp add: sample_parts)
  then show ?thesis by (subst ready_means_readiness) simp_all
qed

section \<open>Autopilot\<close>

lemma autopilot_rows:
  "r \<in> set (find_transitions from to) \<Longrightarrow> row_gate r = Autopilot \<Longrightarrow> row_actor r = ProductManagerActor"
  by (auto simp: find_transitions_iff TRANSITION_TABLE_def)

text \<open>
  C15: A move that passes through the autopilot gate is the Product Manager's, autopilot is on, the
  task is blocked or escalated, and the human could make the very same move of the same task: the
  Product Manager needs what the human needs.
\<close>

theorem autopilot_needs_what_the_human_needs:
  assumes "evaluate_transition g q x = Inr d" and "row_gate (decided_row d) = Autopilot"
  shows "asked_actor q = ProductManagerActor \<and> autopilot_on x
    \<and> status (ctx_contract x) \<in> {Blocked, Escalated}
    \<and> is_ok (evaluate_transition g (q\<lparr>asked_actor := HumanActor\<rparr>) x)"
proof -
  from assms(1) obtain r where r: "r \<in> set (find_transitions (status (ctx_contract x)) (asked_to q))"
    and actor: "row_actor r = asked_actor q" and opens: "check_row g q x r = Inr ()"
    and d: "d = decision q x r" and task: "asked_task q = task_id (ctx_contract x)"
    by (rule evaluate_transition_InrE)
  from d assms(2) have auto_row: "row_gate r = Autopilot" by simp
  have pm: "asked_actor q = ProductManagerActor"
    using autopilot_rows [OF r auto_row] actor by simp
  with opens auto_row have gate: "check_autopilot g (asked_to q) x = Inr ()"
    by (simp add: check_row_to gate_opens)
  then obtain h where h: "h \<in> set (find_transitions (status (ctx_contract x)) (asked_to q))"
    "row_actor h = HumanActor" "check_gate g (row_gate h) HumanActor (asked_to q) x = Inr ()"
    and on: "autopilot_on x" "status (ctx_contract x) \<in> {Blocked, Escalated}"
    by (auto simp: check_autopilot_opens)
  let ?q = "q\<lparr>asked_actor := HumanActor\<rparr>"
  have "h \<in> set (rows_of ?q x)" using h by simp
  moreover have "check_row g ?q x h = Inr ()" using h by (simp add: check_row_to)
  moreover have "may_ask ?q x" by (simp add: may_ask_def)
  ultimately have "is_ok (evaluate_transition g ?q x)"
    unfolding passes_iff using task by auto
  with pm on show ?thesis by blast
qed

theorem autopilot_needs_what_the_human_needs_witness:
  "is_ok (evaluate_transition prefix_globs (sample_request HumanActor InProgress) (sample_context Blocked))"
proof -
  have rows: "find_transitions Blocked InProgress =
      [row (Is Blocked) (Is InProgress) ScrumMasterActor BlockerResolved,
       row (Is Blocked) (Is InProgress) HumanActor BlockerResolved,
       row (Is Blocked) (Is InProgress) ProductManagerActor Autopilot]"
    by (simp add: find_transitions_def TRANSITION_TABLE_def leaves_def)
  have "check_blocker_resolved (Some ''use the other key'') (Some InProgress) InProgress = Inr ()"
    by code_simp
  then have autopilot_sample: "check_autopilot prefix_globs InProgress (sample_context Blocked) = Inr ()"
    by (simp add: check_autopilot_opens rows check_gate_opens sample_parts(4,5))
  let ?pm = "row (Is Blocked) (Is InProgress) ProductManagerActor Autopilot"
  have "evaluate_transition prefix_globs (sample_request ProductManagerActor InProgress) (sample_context Blocked)
      = Inr (decision (sample_request ProductManagerActor InProgress) (sample_context Blocked) ?pm)"
    using autopilot_sample
    by (simp add: evaluate_transition_Inr_iff rows may_ask_unnamed check_row_to gate_opens)
  moreover have "row_gate (decided_row (decision (sample_request ProductManagerActor InProgress)
      (sample_context Blocked) ?pm)) = Autopilot"
    by simp
  ultimately show ?thesis
    using autopilot_needs_what_the_human_needs by (fastforce simp: sample_request_def)
qed

lemma manager_own_rows:
  "r \<in> set TRANSITION_TABLE \<Longrightarrow> row_actor r = ProductManagerActor \<Longrightarrow> row_gate r \<noteq> Autopilot \<Longrightarrow>
     (row_from r, row_to r) \<in> {(Is Draft, Is Refining), (Is Refining, Is Blocked),
       (Is Ready, Is Assigned), (Is Verifying, Is Accepted), (Is Ready, Is Refining)}"
proof -
  have "list_all (\<lambda>r. row_actor r = ProductManagerActor \<longrightarrow> row_gate r \<noteq> Autopilot \<longrightarrow>
     (row_from r, row_to r) \<in> {(Is Draft, Is Refining), (Is Refining, Is Blocked),
       (Is Ready, Is Assigned), (Is Verifying, Is Accepted), (Is Ready, Is Refining)}) TRANSITION_TABLE"
    by (simp add: TRANSITION_TABLE_def)
  then show "r \<in> set TRANSITION_TABLE \<Longrightarrow> row_actor r = ProductManagerActor \<Longrightarrow> row_gate r \<noteq> Autopilot \<Longrightarrow> ?thesis"
    by (simp add: list_all_iff)
qed

text \<open>
  For a task neither blocked nor escalated autopilot changes nothing: the Product Manager's moves
  are then exactly the five of its own, so the autopilot row from verifying to rejected never opens.
\<close>

theorem autopilot_adds_nothing_elsewhere:
  assumes "is_ok (evaluate_transition g q x)" and "asked_actor q = ProductManagerActor"
    and "status (ctx_contract x) \<notin> {Blocked, Escalated}"
  shows "(status (ctx_contract x), asked_to q)
    \<in> {(Draft, Refining), (Refining, Blocked), (Ready, Assigned), (Verifying, Accepted), (Ready, Refining)}"
proof -
  from assms(1,2) obtain r where r: "r \<in> set (find_transitions (status (ctx_contract x)) (asked_to q))"
    and actor: "row_actor r = ProductManagerActor" and opens: "check_row g q x r = Inr ()"
    by (auto simp: passes_iff)
  from opens assms(2,3) have "row_gate r \<noteq> Autopilot"
    by (auto simp: check_row_to gate_opens check_autopilot_opens)
  then have "(row_from r, row_to r) \<in> {(Is Draft, Is Refining), (Is Refining, Is Blocked),
      (Is Ready, Is Assigned), (Is Verifying, Is Accepted), (Is Ready, Is Refining)}"
    using manager_own_rows [of r] r actor by (simp only: find_transitions_iff simp_thms)
  then show ?thesis using r by (auto simp: find_transitions_iff leaves_def)
qed

theorem autopilot_adds_nothing_elsewhere_witness:
  "(status (ctx_contract (sample_context Verifying)), Accepted) \<in> {(Verifying, Accepted), (Ready, Refining)}
   \<and> \<not> is_ok (evaluate_transition prefix_globs (sample_request ProductManagerActor Rejected) (sample_context Verifying))"
proof -
  have "is_ok (evaluate_transition prefix_globs (sample_request ProductManagerActor Accepted) (sample_context Verifying))"
    by (rule sample_acceptance)
  from autopilot_adds_nothing_elsewhere [OF this] 
    autopilot_adds_nothing_elsewhere [of prefix_globs "sample_request ProductManagerActor Rejected" "sample_context Verifying"]
  show ?thesis by auto
qed

section \<open>The human, and the rejected task\<close>

lemma human_free_rows:
  "from \<noteq> to \<Longrightarrow> \<not> is_terminal from \<Longrightarrow> from = Escalated \<or> to = Escalated \<or> to = Cancelled \<Longrightarrow>
     \<exists>r. List.find (\<lambda>_. True) (filter (\<lambda>r. row_actor r = HumanActor) (find_transitions from to)) = Some r
        \<and> row_gate r = NoGate"
  by (cases "from"; cases to) (simp_all add: find_transitions_def TRANSITION_TABLE_def leaves_def)

text \<open>
  The human is never locked out: a task that is neither accepted nor cancelled can be escalated or
  cancelled by the human whatever its state, and an escalated one sent to any other status, through a
  row with no gate.
\<close>

theorem human_is_never_locked_out:
  assumes "asked_task q = task_id (ctx_contract x)" and "asked_actor q = HumanActor"
    and "\<not> is_terminal (status (ctx_contract x))" and "asked_to q \<noteq> status (ctx_contract x)"
    and "status (ctx_contract x) = Escalated \<or> asked_to q \<in> {Escalated, Cancelled}"
  shows "\<exists>d. evaluate_transition g q x = Inr d \<and> decided_to d = asked_to q \<and> row_gate (decided_row d) = NoGate"
proof -
  from human_free_rows [of "status (ctx_contract x)" "asked_to q"] assms(3-5)
  obtain r where r: "List.find (\<lambda>_. True) (rows_of q x) = Some r" "row_gate r = NoGate"
    using assms(2) by auto
  then have "List.find (\<lambda>r. check_row g q x r = Inr ()) (rows_of q x) = Some r"
    using assms(2) by (cases "rows_of q x") (simp_all add: check_row_to gate_opens)
  then have "evaluate_transition g q x = Inr (decision q x r)"
    using assms(1,2) by (simp add: evaluate_transition_Inr_iff may_ask_unnamed)
  with r(2) show ?thesis by auto
qed

theorem human_is_never_locked_out_witness:
  "\<exists>d. evaluate_transition prefix_globs (sample_request HumanActor Cancelled) (sample_context Verifying) = Inr d"
  using human_is_never_locked_out [of "sample_request HumanActor Cancelled" "sample_context Verifying" prefix_globs]
  by auto

text \<open>
  C32: A rejected task is never stuck and never worked past its limit: the Governor returns it to work
  exactly while its count of rejections, read in 32 bits, is below the contract's limit and the tries
  the human granted, saturating; and otherwise escalates it for its iterations.
\<close>

theorem rejected_task_is_worked_or_escalated:
  assumes "status (ctx_contract x) = Rejected"
    and "asked_task again = task_id (ctx_contract x)" "asked_actor again = GovernorActor" "asked_to again = InProgress"
    and "asked_task up = task_id (ctx_contract x)" "asked_actor up = GovernorActor" "asked_to up = Escalated"
  defines "tried \<equiv> min (unat (iteration_field (ctx_contract x))) (2 ^ 32 - 1)"
    and "limit \<equiv> min (min (unat (max_iterations_field (contract_budget (ctx_contract x)))) (2 ^ 32 - 1)
                      + unat (extra_iterations x)) (2 ^ 32 - 1)"
  shows "(is_ok (evaluate_transition g again x) \<longleftrightarrow> tried < limit)
    \<and> (limit \<le> tried \<longrightarrow> (\<exists>d. evaluate_transition g up x = Inr d
         \<and> decided_effects d = [RaiseEscalation IterationsReason]))"
proof -
  have numbers: "unat (iteration (ctx_contract x)) = tried" "unat (iteration_limit x) = limit"
    by (simp_all add: iteration_def iteration_limit_def max_iterations_def unat_u32_saturating
        unat_saturating_add tried_def limit_def)
  have rows: "find_transitions Rejected InProgress = [row (Is Rejected) (Is InProgress) GovernorActor IterationBelowLimit]"
    "filter (\<lambda>r. row_actor r = GovernorActor) (find_transitions Rejected Escalated)
      = [row (Is Rejected) (Is Escalated) GovernorActor IterationLimitReached, row Any (Is Escalated) GovernorActor GovernorEscalation]"
    by (simp_all add: find_transitions_def TRANSITION_TABLE_def leaves_def)
  have "is_ok (evaluate_transition g again x) \<longleftrightarrow> tried < limit"
    using assms(1-4) rows(1) numbers by (simp add: passes_iff may_ask_unnamed check_row_to gate_opens)
  moreover have "evaluate_transition g up x
      = Inr (decision up x (row (Is Rejected) (Is Escalated) GovernorActor IterationLimitReached))"
    if "limit \<le> tried"
    using assms(1,5-7) rows(2) numbers that
    by (simp add: evaluate_transition_Inr_iff may_ask_unnamed check_row_to gate_opens)
  moreover have "effects IterationLimitReached Escalated x = [RaiseEscalation IterationsReason]"
    using assms(1) by (simp add: effects_def reason_if_def escalation_reason_of_def)
  ultimately show ?thesis using assms(7) by auto
qed

theorem rejected_task_is_worked_or_escalated_witness:
  "is_ok (evaluate_transition prefix_globs (sample_request GovernorActor InProgress) (sample_context Rejected))"
proof -
  have "unat (iteration_field (ctx_contract (sample_context Rejected))) = 0"
    "unat (max_iterations_field (contract_budget (ctx_contract (sample_context Rejected)))) = 3"
    "unat (extra_iterations (sample_context Rejected)) = 0"
    by (simp_all add: sample_context_def sample_contract_def)
  then show ?thesis
    using rejected_task_is_worked_or_escalated [of "sample_context Rejected"
        "sample_request GovernorActor InProgress" "sample_request GovernorActor Escalated" prefix_globs]
    by simp
qed

section \<open>Effects\<close>

text \<open>
  What a move records: an escalation is raised exactly when the task enters escalated, once, with
  the reason of the gate that opened, and the Governor's own escalation always has a reason of its
  own; the count of tries goes up exactly when a rejected task returns to work; the blocker is
  cleared exactly when the task returns to work, or leaves a block or an escalation for verifying or
  refining; the block is stamped exactly when the task blocks; and nothing is recorded twice.
\<close>

theorem effects_are_exact:
  assumes "evaluate_transition g q x = Inr d"
  defines "from \<equiv> status (ctx_contract x)" and "to \<equiv> asked_to q" and "es \<equiv> decided_effects d"
  shows "distinct es
    \<and> (\<forall>reason. RaiseEscalation reason \<in> set es \<longleftrightarrow>
         to = Escalated \<and> reason = escalation_reason_of (row_gate (decided_row d)) x)
    \<and> (row_gate (decided_row d) = GovernorEscalation \<longrightarrow>
         governor_escalation_reason x = Some (escalation_reason_of GovernorEscalation x))
    \<and> (IncrementIteration \<in> set es \<longleftrightarrow> from = Rejected \<and> to = InProgress)
    \<and> (ResetBlocker \<in> set es \<longleftrightarrow>
         to = InProgress \<or> from \<in> {Blocked, Escalated} \<and> to \<in> {Verifying, Refining})
    \<and> (StampBlockedAt \<in> set es \<longleftrightarrow> to = Blocked)
    \<and> (NothingToIntegrate \<in> set es \<longleftrightarrow> to = Accepted
         \<and> (task_private_folder (ctx_contract x) \<noteq> None \<or> documents_stay_local x))"
proof -
  from assms(1) obtain r where r: "r \<in> set (find_transitions from to)"
    and opens: "check_row g q x r = Inr ()" and d: "d = decision q x r"
    unfolding from_def to_def by (rule evaluate_transition_InrE)
  have "governor_escalation_reason x = Some (escalation_reason_of GovernorEscalation x)"
    if "row_gate r = GovernorEscalation"
  proof -
    from that have "check_row g q x r = check_gate g GovernorEscalation (asked_actor q) (asked_to q) x"
      by (simp add: check_row_def)
    then have "check_gate g GovernorEscalation (asked_actor q) (asked_to q) x = Inr ()"
      using opens by metis
    then have "governor_escalation_reason x \<noteq> None" by (simp add: check_gate_opens)
    then show ?thesis by (auto simp: escalation_reason_of_def)
  qed
  then show ?thesis
    using d by (auto simp: es_def effects_def reason_if_def from_def to_def Let_def)
qed

theorem effects_are_exact_witness:
  "\<exists>d. evaluate_transition prefix_globs (sample_request HumanActor Escalated) (sample_context Verifying) = Inr d
     \<and> RaiseEscalation ExplicitRequest \<in> set (decided_effects d) \<and> IncrementIteration \<notin> set (decided_effects d)"
proof -
  have rows: "filter (\<lambda>r. row_actor r = HumanActor) (find_transitions Verifying Escalated)
      = [row Any (Is Escalated) HumanActor NoGate]"
    by (simp add: find_transitions_def TRANSITION_TABLE_def leaves_def)
  have d: "evaluate_transition prefix_globs (sample_request HumanActor Escalated) (sample_context Verifying)
      = Inr (decision (sample_request HumanActor Escalated) (sample_context Verifying)
               (row Any (Is Escalated) HumanActor NoGate))"
    by (simp add: evaluate_transition_Inr_iff rows may_ask_unnamed check_row_to gate_opens)
  show ?thesis
    using effects_are_exact [OF d] by (simp add: d escalation_reason_of_def)
qed

section \<open>Named agents\<close>

text \<open>
  A move of the assignee's passes only for the agent the contract names as its assignee, and one
  of the reviewer's only for the named reviewer, or for the Designer whose design review failed and
  then only to reject.
\<close>

theorem only_the_named_agent_moves:
  assumes "is_ok (evaluate_transition g q x)"
  shows "(asked_actor q = AssigneeActor \<longrightarrow>
      trimmed (asked_agent q) \<noteq> None \<and> trimmed (assignee (ctx_contract x)) = trimmed (asked_agent q))
    \<and> (asked_actor q = ReviewerActor \<longrightarrow> trimmed (asked_agent q) \<noteq> None \<and>
        (trimmed (reviewer (ctx_contract x)) = trimmed (asked_agent q)
         \<or> asked_to q = Rejected \<and> trimmed (design_reviewer x) = trimmed (asked_agent q)))"
  using assms by (auto simp: passes_iff may_ask_def designer_rejects_def)

theorem only_the_named_agent_moves_witness:
  "trimmed (assignee (ctx_contract (sample_context Assigned))) = Some ''agent_1''"
proof -
  have rows: "filter (\<lambda>r. row_actor r = AssigneeActor) (find_transitions Assigned InProgress)
      = [row (Is Assigned) (Is InProgress) AssigneeActor NoGate]"
    by (simp add: find_transitions_def TRANSITION_TABLE_def leaves_def)
  have agent: "trimmed (Some ''agent_1'') = Some ''agent_1''" by code_simp
  have "may_ask (sample_request AssigneeActor InProgress) (sample_context Assigned)"
    by (simp add: may_ask_def sample_request_def sample_parts agent)
  then have "is_ok (evaluate_transition prefix_globs (sample_request AssigneeActor InProgress) (sample_context Assigned))"
    by (simp add: passes_iff rows check_row_to gate_opens)
  from only_the_named_agent_moves [OF this] show ?thesis
    by (simp add: sample_request_def agent)
qed

text \<open>Witnesses of the two theorems on passing and refusal.\<close>

theorem transition_passes_iff_witness:
  "evaluate_transition prefix_globs (sample_request HumanActor Cancelled) (sample_context Verifying)
     = Inr \<lparr>decided_from = Verifying, decided_to = Cancelled,
            decided_row = row Any (Is Cancelled) HumanActor NoGate, decided_effects = []\<rparr>"
proof -
  have rows: "filter (\<lambda>r. row_actor r = HumanActor) (find_transitions Verifying Cancelled)
      = [] @ row Any (Is Cancelled) HumanActor NoGate # []"
    by (simp add: find_transitions_def TRANSITION_TABLE_def leaves_def)
  have "effects NoGate Cancelled (sample_context Verifying) = []"
    by (simp add: effects_def reason_if_def)
  then show ?thesis
    using rows by (subst transition_passes_iff)
      (simp add: may_ask_unnamed check_row_to gate_opens, fastforce)
qed

theorem transition_refusal_is_the_first_witness:
  "\<exists>allowed. evaluate_transition prefix_globs (sample_request AssigneeActor Accepted) (sample_context Verifying)
      = Inl (ActorNotAllowed AssigneeActor allowed)
     \<and> set allowed = {ProductManagerActor, GovernorActor}"
proof -
  have asks: "asks Verifying a Accepted \<longleftrightarrow> a \<in> {ProductManagerActor, GovernorActor}" for a
    by (cases a) (simp_all add: human_asks_def)
  then have "\<not> is_ok (evaluate_transition prefix_globs (sample_request AssigneeActor Accepted) (sample_context Verifying))"
    by (auto simp: passes_iff table_matches_asks [symmetric] has_row_iff)
  then obtain e where e: "evaluate_transition prefix_globs (sample_request AssigneeActor Accepted)
      (sample_context Verifying) = Inl e"
    by (cases "evaluate_transition prefix_globs (sample_request AssigneeActor Accepted) (sample_context Verifying)") auto
  have "\<not> (\<forall>a. \<not> asks Verifying a Accepted)" "\<not> asks Verifying AssigneeActor Accepted"
    "{a. asks Verifying a Accepted} = {ProductManagerActor, GovernorActor}"
    using asks by auto
  then show ?thesis
    using transition_refusal_is_the_first [OF e] e by (simp only: sample_fields if_False if_True simp_thms) auto
qed

end
