(* ===== verification/Permissions.thy ===== *)
theory Permissions
  imports Samples "HOL-Library.List_Lexorder" "HOL-Library.Char_ord"
begin

text \<open>
  The first part of crates/core/src/governor/permissions.rs: the tiers, the check of one tool call,
  and the check of one connector call. The check of a command is in the theory of commands.

  A JSON value is serde\_json's: an object is the list of its fields in the map's order, its keys
  distinct. What serde\_json writes for a value is a parameter, \<open>to_text\<close>; the program's own
  \<open>canonical_json\<close> (crates/core/src/team.rs), which sorts the keys, is written out over it.
\<close>

section \<open>Tiers\<close>

datatype permission_tier =
    Read | WriteWorkspace | Execute | Network | GitLocal | GitRemote | ExternalEffect

fun default_tiers :: "role \<Rightarrow> permission_tier list" where
  "default_tiers SoftwareDeveloper = [Read, WriteWorkspace, Execute, Network, GitLocal]"
| "default_tiers UiUxDesigner = [Read, WriteWorkspace, Execute, Network, GitLocal]"
| "default_tiers Architect = [Read, WriteWorkspace, Execute, Network, GitLocal]"
| "default_tiers FinanceSpecialist = [Read, Network]"
| "default_tiers ProcurementSpecialist = [Read, Network]"
| "default_tiers ScrumMaster = [Read, Network]"
| "default_tiers ProductManager = [Read, Network, WriteWorkspace, GitLocal]"
| "default_tiers MarketingSpecialist = [Read, Network, WriteWorkspace, GitLocal]"
| "default_tiers HumanRole = [Read]"

section \<open>Tool calls\<close>

record tool_descriptor =
  tool_name :: string
  tool_tier :: permission_tier

record tool_call_request =
  tool :: tool_descriptor
  call_paths :: "string list"
  call_input_hash :: string

record agent_grants =
  tiers :: "permission_tier set"
  preauthorized_external_tools :: "string set"

record approved_call =
  approved_tool :: string
  approved_input_hash :: string

record tool_call_context =
  call_allowed_paths :: "string list"
  call_protected_paths :: "string list"
  call_read_only_paths :: "string list"
  approved_calls :: "approved_call list"

datatype tool_refusal =
    TierNotGranted permission_tier
  | PathOutsideAllowed string
  | PathProtected string
  | PathReadOnly string
  | PathsMissing
  | InvalidGlob string string
  | RequiresHumanApproval string
  | DesignPlanNotApproved

definition first_path :: "path_refusal \<Rightarrow> (string \<Rightarrow> tool_refusal) \<Rightarrow> tool_refusal" where
  "first_path refusal to_refusal =
     (case refusal of
        Violations violations \<Rightarrow>
          to_refusal (case violations of [] \<Rightarrow> [] | violation # _ \<Rightarrow> violating_path violation)
      | Glob (Invalid pattern detail) \<Rightarrow> InvalidGlob pattern detail)"

definition check_design_plan :: "role \<Rightarrow> permission_tier \<Rightarrow> bool \<Rightarrow> (tool_refusal, unit) result" where
  "check_design_plan r tier approved =
     (let writes = tier \<in> {WriteWorkspace, Execute, GitLocal, GitRemote, ExternalEffect}
      in if r = UiUxDesigner \<and> writes \<and> \<not> approved then Inl DesignPlanNotApproved else Inr ())"

definition check_write ::
  "glob_engine \<Rightarrow> tool_call_request \<Rightarrow> tool_call_context \<Rightarrow> (tool_refusal, unit) result" where
  "check_write g request context =
     (if call_paths request = [] then Inl PathsMissing
      else
        and_then (map_err (\<lambda>refusal. first_path refusal PathReadOnly)
          (check_protected_paths g (call_paths request)
            (call_read_only_paths context @ [CATERVAS_STATE]))) (\<lambda>_.
        map_err (\<lambda>refusal. first_path refusal PathOutsideAllowed)
          (check_allowed_paths g (call_paths request) (call_allowed_paths context))))"

definition is_approved :: "tool_call_request \<Rightarrow> agent_grants \<Rightarrow> tool_call_context \<Rightarrow> bool" where
  "is_approved request grants context \<longleftrightarrow>
     tool_name (tool request) \<in> preauthorized_external_tools grants
     \<or> list_ex (\<lambda>approved. approved_tool approved = tool_name (tool request)
                  \<and> approved_input_hash approved = call_input_hash request) (approved_calls context)"

definition evaluate_tool_call ::
  "glob_engine \<Rightarrow> tool_call_request \<Rightarrow> agent_grants \<Rightarrow> tool_call_context \<Rightarrow>
   (tool_refusal, unit) result" where
  "evaluate_tool_call g request grants context =
     (let tier = tool_tier (tool request) in
      if tier \<notin> tiers grants then Inl (TierNotGranted tier)
      else
        and_then (map_err (\<lambda>refusal. first_path refusal PathProtected)
          (check_protected_paths g (call_paths request) CATERVAS_KEYS)) (\<lambda>_.
        and_then (map_err (\<lambda>refusal. first_path refusal PathProtected)
          (check_protected_paths g (call_paths request) (call_protected_paths context))) (\<lambda>_.
        and_then (if tier = WriteWorkspace then check_write g request context else Inr ()) (\<lambda>_.
          if tier = ExternalEffect \<and> \<not> is_approved request grants context
          then Inl (RequiresHumanApproval (tool_name (tool request)))
          else Inr ()))))"

section \<open>JSON\<close>

datatype json =
    JNull
  | JBool bool
  | JNumber string \<comment> \<open>a number by the text serde\_json keeps it as\<close>
  | JString string
  | JArray "json list"
  | JObject "(string \<times> json) list"

text \<open>\<open>Value::as_str\<close>.\<close>

fun as_str :: "json \<Rightarrow> string option" where
  "as_str (JString s) = Some s"
| "as_str _ = None"

fun canonical_json :: "(json \<Rightarrow> string) \<Rightarrow> json \<Rightarrow> string"
and canonical_members :: "(json \<Rightarrow> string) \<Rightarrow> (string \<times> json) list \<Rightarrow> (string \<times> string) list"
and canonical_items :: "(json \<Rightarrow> string) \<Rightarrow> json list \<Rightarrow> string list" where
  "canonical_json to_text (JObject entries) =
     ''{'' @ join '','' (map (\<lambda>(key, text). to_text (JString key) @ '':'' @ text)
                (sort_key fst (canonical_members to_text entries))) @ ''}''"
| "canonical_json to_text (JArray items) = ''['' @ join '','' (canonical_items to_text items) @ '']''"
| "canonical_json to_text other = to_text other"
| "canonical_members to_text [] = []"
| "canonical_members to_text ((key, item) # entries) =
     (key, canonical_json to_text item) # canonical_members to_text entries"
| "canonical_items to_text [] = []"
| "canonical_items to_text (item # items) = canonical_json to_text item # canonical_items to_text items"

section \<open>Connector calls\<close>

datatype connector_tag = NetworkTag | ExternalEffectTag | PaidTag | AskTag | DeniedTag

record session_connector =
  server :: string
  origin_of :: "string option"
  connector_tools :: "string \<rightharpoonup> connector_tag"
  allowances :: "string \<rightharpoonup> u32"
  plan_tools :: "string set"

definition MAX_ALLOWANCE :: u32 where "MAX_ALLOWANCE = 1000"

record connector_pass =
  pass_tag :: connector_tag
  pass_approval :: "u64 option"
  pass_allowance :: "u32 option"
  plan_approved :: bool
  autopilot_approved :: bool

definition MAX_APPROVAL_INPUT :: nat where "MAX_APPROVAL_INPUT = 64 * 1024"

datatype connector_refusal =
    ConnectorNotInSession
  | ToolNotTagged
  | ToolDenied
  | ApprovalNeeded
  | InputTooLarge
  | NoActivePlan
  | UrlOutsidePreview string

definition inside_origin :: "string \<Rightarrow> json \<Rightarrow> bool" where
  "inside_origin origin field =
     (case as_str field of
        None \<Rightarrow> False
      | Some url \<Rightarrow>
          (case strip_prefix origin url of
             None \<Rightarrow> False
           | Some rest \<Rightarrow> rest = [] \<or> hd rest \<in> {CHR ''/'', CHR ''?'', CHR ''#''}))"

fun check_urls :: "(json \<Rightarrow> string) \<Rightarrow> json \<Rightarrow> string \<Rightarrow> (connector_refusal, unit) result"
and check_fields :: "(json \<Rightarrow> string) \<Rightarrow> (string \<times> json) list \<Rightarrow> string \<Rightarrow> (connector_refusal, unit) result"
and check_items :: "(json \<Rightarrow> string) \<Rightarrow> json list \<Rightarrow> string \<Rightarrow> (connector_refusal, unit) result" where
  "check_urls to_text (JObject entries) origin = check_fields to_text entries origin"
| "check_urls to_text (JArray items) origin = check_items to_text items origin"
| "check_urls to_text _ origin = Inr ()"
| "check_fields to_text [] origin = Inr ()"
| "check_fields to_text ((key, field) # entries) origin =
     (if key = ''url'' \<and> \<not> inside_origin origin field
      then Inl (UrlOutsidePreview (case as_str field of None \<Rightarrow> to_text field | Some url \<Rightarrow> url))
      else and_then (check_urls to_text field origin) (\<lambda>_. check_fields to_text entries origin))"
| "check_items to_text [] origin = Inr ()"
| "check_items to_text (item # items) origin =
     and_then (check_urls to_text item origin) (\<lambda>_. check_items to_text items origin)"

definition connector_passes :: "connector_tag \<Rightarrow> u64 option \<Rightarrow> u32 option \<Rightarrow> connector_pass" where
  "connector_passes tag approval allowance =
     \<lparr>pass_tag = tag, pass_approval = approval, pass_allowance = allowance,
      plan_approved = False, autopilot_approved = False\<rparr>"

text \<open>What follows the \<open>url\<close> check: the tag decides, and the call may have to be allowed.\<close>

definition allow_call ::
  "(json \<Rightarrow> string) \<Rightarrow> string \<Rightarrow> json \<Rightarrow> session_connector \<Rightarrow> connector_tag \<Rightarrow> u64 option \<Rightarrow> u32 \<Rightarrow>
   bool \<Rightarrow> bool \<Rightarrow> (connector_refusal, connector_pass) result" where
  "allow_call to_text name input connector tag granted used active_plan autopilot =
     (if tag = NetworkTag then Inr (connector_passes tag None None)
      else if tag = ExternalEffectTag \<and> name \<notin> plan_tools connector
      then Inr (connector_passes tag None None)
      else if utf8_len (canonical_json to_text input) > MAX_APPROVAL_INPUT then Inl InputTooLarge
      else if name \<in> plan_tools connector
      then (if active_plan then Inr ((connector_passes tag None None)\<lparr>plan_approved := True\<rparr>)
            else Inl NoActivePlan)
      else if autopilot then Inr ((connector_passes tag None None)\<lparr>autopilot_approved := True\<rparr>)
      else (case granted of
              Some approval \<Rightarrow> Inr (connector_passes tag (Some approval) None)
            | None \<Rightarrow>
                (case allowances connector name of
                   Some allowed \<Rightarrow>
                     if used < allowed then Inr (connector_passes tag None (Some allowed))
                     else Inl ApprovalNeeded
                 | None \<Rightarrow> Inl ApprovalNeeded)))"

definition evaluate_connector_call ::
  "(json \<Rightarrow> string) \<Rightarrow> string \<Rightarrow> json \<Rightarrow> session_connector option \<Rightarrow> u64 option \<Rightarrow> u32 \<Rightarrow> bool \<Rightarrow> bool \<Rightarrow>
   (connector_refusal, connector_pass) result" where
  "evaluate_connector_call to_text name input connector granted used active_plan autopilot =
     (case connector of
        None \<Rightarrow> Inl ConnectorNotInSession
      | Some c \<Rightarrow>
          (case connector_tools c name of
             None \<Rightarrow> Inl ToolNotTagged
           | Some DeniedTag \<Rightarrow> Inl ToolDenied
           | Some tag \<Rightarrow>
               and_then (case origin_of c of
                           None \<Rightarrow> Inr ()
                         | Some origin \<Rightarrow> check_urls to_text input origin) (\<lambda>_.
                 allow_call to_text name input c tag granted used active_plan autopilot)))"

section \<open>What a tool call that passes may touch\<close>

lemma check_write_ok:
  "check_write g r x = Inr () \<longleftrightarrow>
     call_paths r \<noteq> []
     \<and> check_protected_paths g (call_paths r) (call_read_only_paths x @ [CATERVAS_STATE]) = Inr ()
     \<and> check_allowed_paths g (call_paths r) (call_allowed_paths x) = Inr ()"
  by (auto simp: check_write_def and_then_Inr_iff)

lemma evaluate_tool_call_ok:
  "evaluate_tool_call g r grants x = Inr () \<longleftrightarrow>
     tool_tier (tool r) \<in> tiers grants
     \<and> check_protected_paths g (call_paths r) CATERVAS_KEYS = Inr ()
     \<and> check_protected_paths g (call_paths r) (call_protected_paths x) = Inr ()
     \<and> (tool_tier (tool r) = WriteWorkspace \<longrightarrow> check_write g r x = Inr ())
     \<and> (tool_tier (tool r) = ExternalEffect \<longrightarrow> is_approved r grants x)"
  by (auto simp: evaluate_tool_call_def Let_def and_then_Inr_iff)

lemma unprotected_normalises:
  "check_protected_paths g paths globs = Inr () \<Longrightarrow> p \<in> set paths \<Longrightarrow>
     \<exists>q. normalise p = Some q \<and> \<not> is_protected g globs (True, globs) q"
  by (auto simp: protected.ok_iff permits_unprotected_def split: option.splits)

lemma allowed_normalises:
  "check_allowed_paths g paths globs = Inr () \<Longrightarrow> p \<in> set paths \<Longrightarrow>
     \<exists>q. normalise p = Some q \<and> is_match g (False, globs) q"
  by (auto simp: allowed.ok_iff permits_allowed_def split: option.splits)

text \<open>
  C28: A tool call that passes is within the agent's tiers, and every path it names is a safe relative
  path that none of Catervas's keys and none of the protected paths covers; a write moreover names a
  path, each covered by an allowed glob and by no read-only one nor Catervas's state; an external
  effect was pre-authorised by name or approved by the human for this very input.
\<close>

theorem tool_call_is_confined:
  assumes "evaluate_tool_call g r grants x = Inr ()"
  shows "tool_tier (tool r) \<in> tiers grants
    \<and> (\<forall>p \<in> set (call_paths r). \<exists>q. normalise p = Some q
         \<and> \<not> is_protected g CATERVAS_KEYS (True, CATERVAS_KEYS) q
         \<and> \<not> is_protected g (call_protected_paths x) (True, call_protected_paths x) q
         \<and> (tool_tier (tool r) = WriteWorkspace \<longrightarrow>
              is_match g (False, call_allowed_paths x) q
              \<and> \<not> is_protected g (call_read_only_paths x @ [CATERVAS_STATE])
                    (True, call_read_only_paths x @ [CATERVAS_STATE]) q))
    \<and> (tool_tier (tool r) = WriteWorkspace \<longrightarrow> call_paths r \<noteq> [])
    \<and> (tool_tier (tool r) = ExternalEffect \<longrightarrow> is_approved r grants x)"
proof -
  from assms have ok: "tool_tier (tool r) \<in> tiers grants"
    "check_protected_paths g (call_paths r) CATERVAS_KEYS = Inr ()"
    "check_protected_paths g (call_paths r) (call_protected_paths x) = Inr ()"
    "tool_tier (tool r) = WriteWorkspace \<longrightarrow> check_write g r x = Inr ()"
    "tool_tier (tool r) = ExternalEffect \<longrightarrow> is_approved r grants x"
    by (simp_all add: evaluate_tool_call_ok)
  have "\<exists>q. normalise p = Some q
         \<and> \<not> is_protected g CATERVAS_KEYS (True, CATERVAS_KEYS) q
         \<and> \<not> is_protected g (call_protected_paths x) (True, call_protected_paths x) q
         \<and> (tool_tier (tool r) = WriteWorkspace \<longrightarrow>
              is_match g (False, call_allowed_paths x) q
              \<and> \<not> is_protected g (call_read_only_paths x @ [CATERVAS_STATE])
                    (True, call_read_only_paths x @ [CATERVAS_STATE]) q)"
    if p: "p \<in> set (call_paths r)" for p
    using unprotected_normalises [OF ok(2) p] unprotected_normalises [OF ok(3) p] ok(4)
      unprotected_normalises [OF _ p, of g "call_read_only_paths x @ [CATERVAS_STATE]"]
      allowed_normalises [OF _ p, of g "call_allowed_paths x"]
    by (auto simp: check_write_ok)
  with ok show ?thesis by (auto simp: check_write_ok)
qed

definition sample_write :: tool_call_request where
  "sample_write = \<lparr>tool = \<lparr>tool_name = ''write_file'', tool_tier = WriteWorkspace\<rparr>,
     call_paths = [''src/parser/./a.rs''], call_input_hash = ''00''\<rparr>"

definition sample_call_context :: tool_call_context where
  "sample_call_context = \<lparr>call_allowed_paths = [''src/parser/**''],
     call_protected_paths = DEFAULT_PROTECTED_PATHS, call_read_only_paths = [''.github/**''],
     approved_calls = []\<rparr>"

theorem tool_call_is_confined_witness:
  "\<exists>q. normalise ''src/parser/./a.rs'' = Some q \<and> is_match prefix_globs (False, [''src/parser/**'']) q"
proof -
  have ok: "evaluate_tool_call prefix_globs sample_write
      \<lparr>tiers = {Read, WriteWorkspace}, preauthorized_external_tools = {}\<rparr> sample_call_context = Inr ()"
    by code_simp
  show ?thesis
    using tool_call_is_confined [OF ok]
    by (auto simp: sample_write_def sample_call_context_def)
qed

text \<open>
  Rules that protect more refuse more: a call that passes still passes when fewer paths are
  protected or read only, more are allowed, and the agent holds more tiers and approvals, as long as
  the globs can be read.
\<close>

theorem tool_call_monotone:
  assumes "evaluate_tool_call g r grants x = Inr ()"
    and "tiers grants \<subseteq> tiers grants2"
    and "preauthorized_external_tools grants \<subseteq> preauthorized_external_tools grants2"
    and "set (approved_calls x) \<subseteq> set (approved_calls y)"
    and "set (call_protected_paths y) \<subseteq> set (call_protected_paths x)"
    and "set (call_read_only_paths y) \<subseteq> set (call_read_only_paths x)"
    and "set (call_allowed_paths x) \<subseteq> set (call_allowed_paths y)"
    and "globs_readable g True (call_protected_paths y)"
    and "globs_readable g True (call_read_only_paths y @ [CATERVAS_STATE])"
    and "globs_readable g False (call_allowed_paths y)"
  shows "evaluate_tool_call g r grants2 y = Inr ()"
proof -
  have "check_protected_paths g (call_paths r) (call_protected_paths y) = Inr ()"
    using assms(1,5,8) protected_antimono by (auto simp: evaluate_tool_call_ok)
  moreover have "check_write g r y = Inr ()" if "check_write g r x = Inr ()"
  proof -
    have "set (call_read_only_paths y @ [CATERVAS_STATE]) \<subseteq> set (call_read_only_paths x @ [CATERVAS_STATE])"
      using assms(6) by auto
    then show ?thesis
      using that assms(7,9,10) protected_antimono allowed_mono by (simp only: check_write_ok) blast
  qed
  moreover have "is_approved r grants2 y" if "is_approved r grants x"
    using that assms(3,4) by (auto simp: is_approved_def list_ex_iff)
  ultimately show ?thesis
    using assms(1,2) by (auto simp: evaluate_tool_call_ok)
qed

theorem tool_call_monotone_witness:
  "evaluate_tool_call prefix_globs sample_write
     \<lparr>tiers = {Read, WriteWorkspace, Execute}, preauthorized_external_tools = {}\<rparr>
     (sample_call_context\<lparr>call_read_only_paths := []\<rparr>) = Inr ()"
proof (rule tool_call_monotone)
  show "evaluate_tool_call prefix_globs sample_write
      \<lparr>tiers = {Read, WriteWorkspace}, preauthorized_external_tools = {}\<rparr> sample_call_context = Inr ()"
    by code_simp
qed (simp_all add: sample_call_context_def globs_readable_def prefix_globs_def list_all_iff)

section \<open>What a connector call that passes may name and cost\<close>

inductive holds_field :: "json \<Rightarrow> string \<Rightarrow> json \<Rightarrow> bool" where
  own_field: "(k, f) \<in> set entries \<Longrightarrow> holds_field (JObject entries) k f"
| field_below: "(l, v) \<in> set entries \<Longrightarrow> holds_field v k f \<Longrightarrow> holds_field (JObject entries) k f"
| item_below: "v \<in> set items \<Longrightarrow> holds_field v k f \<Longrightarrow> holds_field (JArray items) k f"

inductive_simps holds_field_simps [simp]:
  "holds_field JNull k f"
  "holds_field (JBool b) k f"
  "holds_field (JNumber n) k f"
  "holds_field (JString s) k f"

inductive_simps holds_field_inside:
  "holds_field (JArray items) k f"
  "holds_field (JObject entries) k f"

lemma holds_field_Cons [simp]:
  "\<not> holds_field (JObject []) k f"
  "\<not> holds_field (JArray []) k f"
  "holds_field (JObject ((l, v) # entries)) k f \<longleftrightarrow>
     l = k \<and> f = v \<or> holds_field v k f \<or> holds_field (JObject entries) k f"
  "holds_field (JArray (v # items)) k f \<longleftrightarrow> holds_field v k f \<or> holds_field (JArray items) k f"
  by (auto simp: holds_field_inside)

lemma check_urls_ok:
  "check_urls to_text v origin = Inr () \<longleftrightarrow> (\<forall>f. holds_field v ''url'' f \<longrightarrow> inside_origin origin f)"
  "check_fields to_text entries origin = Inr () \<longleftrightarrow>
     (\<forall>f. holds_field (JObject entries) ''url'' f \<longrightarrow> inside_origin origin f)"
  "check_items to_text items origin = Inr () \<longleftrightarrow>
     (\<forall>f. holds_field (JArray items) ''url'' f \<longrightarrow> inside_origin origin f)"
  by (induction to_text v origin and to_text entries origin and to_text items origin
      rule: check_urls_check_fields_check_items.induct)
    (auto simp: and_then_Inr_iff)

lemma inside_origin_iff:
  "inside_origin origin f \<longleftrightarrow>
     (\<exists>rest. f = JString (origin @ rest) \<and> (rest = [] \<or> hd rest \<in> {CHR ''/'', CHR ''?'', CHR ''#''}))"
proof (cases f)
  case (JString s)
  show ?thesis
  proof (cases "strip_prefix origin s")
    case None
    then have "s \<noteq> origin @ t" for t by (auto simp: strip_prefix_def starts_with_iff)
    with JString None show ?thesis by (simp add: inside_origin_def)
  next
    case (Some t)
    moreover from this have "s = origin @ t" by (simp add: strip_prefix_Some_iff)
    ultimately show ?thesis using JString by (simp add: inside_origin_def)
  qed
qed (simp_all add: inside_origin_def)

lemma allow_call_Inr:
  assumes "allow_call to_text name input c tag granted used active_plan autopilot = Inr pass"
  shows "pass_tag pass = tag
    \<and> (tag = NetworkTag \<or> tag = ExternalEffectTag \<and> name \<notin> plan_tools c \<longrightarrow>
        pass = connector_passes tag None None)
    \<and> (tag \<in> {PaidTag, AskTag} \<or> tag \<noteq> NetworkTag \<and> name \<in> plan_tools c \<longrightarrow>
        utf8_len (canonical_json to_text input) \<le> MAX_APPROVAL_INPUT
        \<and> (name \<in> plan_tools c \<and> active_plan \<and> pass = (connector_passes tag None None)\<lparr>plan_approved := True\<rparr>
           \<or> name \<notin> plan_tools c \<and> autopilot \<and> pass = (connector_passes tag None None)\<lparr>autopilot_approved := True\<rparr>
           \<or> name \<notin> plan_tools c \<and> \<not> autopilot \<and> granted \<noteq> None \<and> pass = connector_passes tag granted None
           \<or> name \<notin> plan_tools c \<and> \<not> autopilot \<and> granted = None
             \<and> (\<exists>allowed. allowances c name = Some allowed \<and> used < allowed
                  \<and> pass = connector_passes tag None (Some allowed))))"
proof -
  have "pass_tag pass = tag"
    using assms by (auto simp: allow_call_def connector_passes_def split: if_splits option.splits)
  then show ?thesis
    using assms
    by (cases tag; cases granted; cases "allowances c name")
      (auto simp: allow_call_def not_less split: if_splits)
qed

text \<open>
  C29: A connector call that passes is of a tool the session's connector tags, never a denied one; of a
  connector confined to an origin, every field named url at any depth of the input is a string that
  is the origin, or the origin followed by a slash, a question mark or a hash. A network tool, even
  one that the owner's plan marks, and an external effect that no plan marks run on no ground at
  all: neither a plan, autopilot, a grant nor an allowance is read (a kit may mark only paid tools,
  which kit.rs checks and not the governor). A tool that costs money or asks,
  and an external effect that the plan marks, run on exactly one ground: an active plan for a marked
  tool, autopilot, the human's grant, or an allowance with a place left, in that order.
\<close>

theorem connector_call_is_confined:
  assumes "evaluate_connector_call to_text name input connector granted used active_plan autopilot = Inr pass"
  shows "\<exists>c tag. connector = Some c \<and> connector_tools c name = Some tag \<and> tag \<noteq> DeniedTag \<and> pass_tag pass = tag
    \<and> (\<forall>origin f. origin_of c = Some origin \<longrightarrow> holds_field input ''url'' f \<longrightarrow>
         (\<exists>rest. f = JString (origin @ rest) \<and> (rest = [] \<or> hd rest \<in> {CHR ''/'', CHR ''?'', CHR ''#''})))
    \<and> (tag = NetworkTag \<or> tag = ExternalEffectTag \<and> name \<notin> plan_tools c \<longrightarrow>
        pass = connector_passes tag None None)
    \<and> (tag \<in> {PaidTag, AskTag} \<or> tag \<noteq> NetworkTag \<and> name \<in> plan_tools c \<longrightarrow>
        utf8_len (canonical_json to_text input) \<le> MAX_APPROVAL_INPUT
        \<and> (name \<in> plan_tools c \<and> active_plan \<and> pass = (connector_passes tag None None)\<lparr>plan_approved := True\<rparr>
           \<or> name \<notin> plan_tools c \<and> autopilot \<and> pass = (connector_passes tag None None)\<lparr>autopilot_approved := True\<rparr>
           \<or> name \<notin> plan_tools c \<and> \<not> autopilot \<and> granted \<noteq> None \<and> pass = connector_passes tag granted None
           \<or> name \<notin> plan_tools c \<and> \<not> autopilot \<and> granted = None
             \<and> (\<exists>allowed. allowances c name = Some allowed \<and> used < allowed
                  \<and> pass = connector_passes tag None (Some allowed))))"
proof -
  from assms obtain c tag where c: "connector = Some c" "connector_tools c name = Some tag" "tag \<noteq> DeniedTag"
    and urls: "(case origin_of c of None \<Rightarrow> Inr () | Some origin \<Rightarrow> check_urls to_text input origin) = Inr ()"
    and allow: "allow_call to_text name input c tag granted used active_plan autopilot = Inr pass"
    by (auto simp: evaluate_connector_call_def and_then_Inr_iff
        split: option.splits connector_tag.splits)
  have "\<forall>origin f. origin_of c = Some origin \<longrightarrow> holds_field input ''url'' f \<longrightarrow>
         (\<exists>rest. f = JString (origin @ rest) \<and> (rest = [] \<or> hd rest \<in> {CHR ''/'', CHR ''?'', CHR ''#''}))"
    using urls by (auto simp: check_urls_ok inside_origin_iff)
  then show ?thesis
    using c allow_call_Inr [OF allow] by blast
qed

definition sample_connector :: session_connector where
  "sample_connector = \<lparr>server = ''shop'', origin_of = Some ''http://localhost:4000'',
     connector_tools = [''buy'' \<mapsto> PaidTag, ''drop'' \<mapsto> DeniedTag], allowances = [''buy'' \<mapsto> 3],
     plan_tools = {}\<rparr>"

lemma sample_url_inside:
  "check_urls (\<lambda>_. ''x'') (JObject [(''url'', JString ''http://localhost:4000/cart'')]) ''http://localhost:4000'' = Inr ()"
  "utf8_len (canonical_json (\<lambda>_. ''x'') (JObject [(''url'', JString ''http://localhost:4000/cart'')])) \<le> MAX_APPROVAL_INPUT"
  by (simp_all add: inside_origin_def starts_with_def strip_prefix_def MAX_APPROVAL_INPUT_def utf8_len_def
      code_point_def and_then_def)

theorem connector_call_is_confined_witness:
  "evaluate_connector_call (\<lambda>_. ''x'') ''buy'' (JObject [(''url'', JString ''http://localhost:4000/cart'')])
     (Some sample_connector) None 2 False False = Inr (connector_passes PaidTag None (Some 3))
   \<and> (\<exists>rest. ''http://localhost:4000/cart'' = ''http://localhost:4000'' @ rest)"
proof -
  have ok: "evaluate_connector_call (\<lambda>_. ''x'') ''buy'' (JObject [(''url'', JString ''http://localhost:4000/cart'')])
     (Some sample_connector) None 2 False False = Inr (connector_passes PaidTag None (Some 3))"
    using sample_url_inside by (simp add: evaluate_connector_call_def sample_connector_def allow_call_def)
  show ?thesis
    using connector_call_is_confined [OF ok] ok by (auto simp: sample_connector_def)
qed

lemma check_urls_never_asks:
  "check_urls to_text v origin \<noteq> Inl ApprovalNeeded"
  "check_fields to_text entries origin \<noteq> Inl ApprovalNeeded"
  "check_items to_text items origin \<noteq> Inl ApprovalNeeded"
  by (induction to_text v origin and to_text entries origin and to_text items origin
      rule: check_urls_check_fields_check_items.induct)
    (auto simp: and_then_Inl_iff)

lemma allow_call_asks:
  "allow_call to_text name input c tag granted used active_plan autopilot = Inl ApprovalNeeded \<longleftrightarrow>
     tag \<noteq> NetworkTag \<and> tag \<noteq> ExternalEffectTag
     \<and> utf8_len (canonical_json to_text input) \<le> MAX_APPROVAL_INPUT
     \<and> name \<notin> plan_tools c \<and> \<not> autopilot \<and> granted = None
     \<and> (\<forall>allowed. allowances c name = Some allowed \<longrightarrow> allowed \<le> used)"
  by (cases granted; cases "allowances c name") (auto simp: allow_call_def not_less)

text \<open>
  The refusals come in their order: no connector, an untagged tool, a denied one, a url outside
  the origin, then for a call that may have to be allowed an input too long to show, a marked tool
  without a plan, and only then a call that nothing allows.
\<close>

theorem connector_refusals_in_order:
  "evaluate_connector_call to_text name input connector granted used active_plan autopilot = Inl ApprovalNeeded \<longleftrightarrow>
     (\<exists>c tag. connector = Some c \<and> connector_tools c name = Some tag \<and> tag \<in> {PaidTag, AskTag}
       \<and> (\<forall>origin. origin_of c = Some origin \<longrightarrow> check_urls to_text input origin = Inr ())
       \<and> utf8_len (canonical_json to_text input) \<le> MAX_APPROVAL_INPUT
       \<and> name \<notin> plan_tools c \<and> \<not> autopilot \<and> granted = None
       \<and> (\<forall>allowed. allowances c name = Some allowed \<longrightarrow> allowed \<le> used))"
proof -
  show ?thesis
  proof (cases connector)
    case (Some c)
    show ?thesis
    proof (cases "connector_tools c name")
      case tag: (Some tag)
      have urls: "(case origin_of c of None \<Rightarrow> Inr () | Some origin \<Rightarrow> check_urls to_text input origin) = Inr ()
          \<longleftrightarrow> (\<forall>origin. origin_of c = Some origin \<longrightarrow> check_urls to_text input origin = Inr ())"
        by (cases "origin_of c") simp_all
      have not_asked: "(case origin_of c of None \<Rightarrow> Inr () | Some origin \<Rightarrow> check_urls to_text input origin)
          \<noteq> Inl ApprovalNeeded"
        by (cases "origin_of c") (simp_all add: check_urls_never_asks)
      show ?thesis
        using Some tag
        by (cases tag) (simp_all add: evaluate_connector_call_def and_then_Inl_iff not_asked
            allow_call_asks urls conj_ac)
    qed (simp add: evaluate_connector_call_def Some)
  qed (simp add: evaluate_connector_call_def)
qed

theorem connector_refusals_in_order_witness:
  "evaluate_connector_call (\<lambda>_. ''x'') ''buy'' (JObject [(''url'', JString ''http://localhost:4000/cart'')])
     (Some sample_connector) None 3 False False = Inl ApprovalNeeded
   \<and> evaluate_connector_call (\<lambda>_. ''x'') ''buy'' (JObject [(''url'', JString ''http://localhost:4000/cart'')])
     (Some sample_connector) None 2 False False \<noteq> Inl ApprovalNeeded"
proof -
  show ?thesis
    unfolding connector_refusals_in_order using sample_url_inside by (auto simp: sample_connector_def)
qed

end
