(* ===== verification/Commands.thy ===== *)
theory Commands
  imports Team
begin

text \<open>
  The second part of crates/core/src/governor/permissions.rs: what \<open>catervas_exec\<close> may run. The
  regular expression engine (the crate \<open>regress\<close>) is a parameter: the words it refuses a pattern
  with, and whether a compiled pattern is found in a text.
\<close>

record regex_engine =
  regex_fault :: "string \<Rightarrow> string option"
  regex_finds :: "string \<Rightarrow> string \<Rightarrow> bool"

datatype command_refusal =
    ForbiddenCommand string
  | GitViaExec
  | KeptLocal
  | InvalidPattern string string

definition WRAPPERS :: "string list" where
  "WRAPPERS =
     [''env'', ''sudo'', ''doas'', ''command'', ''exec'', ''nohup'', ''time'', ''timeout'', ''nice'',
      ''setsid'', ''xargs'']"

definition READ_ONLY_GIT :: "string list" where
  "READ_ONLY_GIT =
     [''status'', ''diff'', ''log'', ''show'', ''ls-files'', ''grep'', ''rev-parse'', ''blame'']"

definition GIT_OPTIONS_THAT_ACT :: "string list" where
  "GIT_OPTIONS_THAT_ACT = [''--output'', ''--open-files-in-pager'']"

definition PUSHING_GIT :: "string list" where
  "PUSHING_GIT = [''push'', ''send-pack'']"

section \<open>Words\<close>

definition split_whitespace :: "string \<Rightarrow> string list" where
  "split_whitespace text = filter (\<lambda>w. w \<noteq> []) (split_on is_white_space text)"

definition bare_word :: "string \<Rightarrow> string option" where
  "bare_word word =
     (if starts_with word ''>'' \<or> starts_with word ''<'' then None
      else
        let trimmed = trim_matches (\<lambda>c. c \<in> set ''(){}!;`'' \<union> {CHR 0x22, CHR 0x27}) word;
            name = last (split_on (\<lambda>c. c = CHR ''/'' \<or> c = CHR 0x5C) trimmed);
            bare = (case strip_suffix ''.exe'' name of None \<Rightarrow> name | Some b \<Rightarrow> b)
        in if bare = [] then None else Some bare)"

definition is_assignment :: "string \<Rightarrow> bool" where
  "is_assignment word \<longleftrightarrow>
     CHR ''='' \<in> set word
     \<and> (let name = takeWhile (\<lambda>c. c \<noteq> CHR ''='') word
        in name \<noteq> [] \<and> list_all (\<lambda>c. is_alphanumeric_ascii c \<or> c = CHR ''_'') name)"

definition bare_words :: "string \<Rightarrow> string list" where
  "bare_words segment = filter_map bare_word (split_whitespace segment)"

text \<open>\<open>Iterator::position\<close>.\<close>

fun position :: "('a \<Rightarrow> bool) \<Rightarrow> 'a list \<Rightarrow> nat option" where
  "position p [] = None"
| "position p (x # xs) = (if p x then Some 0 else map_option Suc (position p xs))"

text \<open>\<open>slice::get\<close>.\<close>

definition get :: "'a list \<Rightarrow> nat \<Rightarrow> 'a option" where
  "get xs i = (if i < length xs then Some (xs ! i) else None)"

text \<open>Where the segment runs git: the opening lines that \<open>pushes\<close> and \<open>runs_git\<close> both have.\<close>

definition git_at :: "string list \<Rightarrow> nat option" where
  "git_at words =
     (case words of
        [] \<Rightarrow> None
      | first # rest \<Rightarrow>
          if first = ''git'' then Some 0
          else if is_assignment first \<or> first \<in> set WRAPPERS
          then map_option (\<lambda>i. i + 1) (position (\<lambda>word. word = ''git'') rest)
          else None)"

definition pushes :: "string \<Rightarrow> bool" where
  "pushes segment =
     (let words = bare_words segment in
      case git_at words of
        None \<Rightarrow> False
      | Some i \<Rightarrow> (case get words (i + 1) of None \<Rightarrow> False | Some sub \<Rightarrow> sub \<in> set PUSHING_GIT))"

definition runs_git :: "string \<Rightarrow> string list \<Rightarrow> bool" where
  "runs_git segment owner_allowed =
     (let words = bare_words segment in
      case git_at words of
        None \<Rightarrow> False
      | Some i \<Rightarrow>
          if (case get words (i + 1) of None \<Rightarrow> False | Some sub \<Rightarrow> sub \<in> set owner_allowed) then False
          else
            let read_only = (case get words (i + 1) of None \<Rightarrow> False | Some sub \<Rightarrow> sub \<in> set READ_ONLY_GIT);
                acts = list_ex (\<lambda>word. list_ex (\<lambda>option. starts_with word option) GIT_OPTIONS_THAT_ACT)
                         (drop (i + 1) words)
            in \<not> read_only \<or> acts)"

section \<open>The check of a command\<close>

text \<open>\<open>compile_patterns\<close>: the first pattern that does not compile, if one does not.\<close>

fun compile_patterns :: "regex_engine \<Rightarrow> string list \<Rightarrow> (command_refusal, string list) result" where
  "compile_patterns e [] = Inr []"
| "compile_patterns e (pattern # patterns) =
     (case regex_fault e pattern of
        Some detail \<Rightarrow> Inl (InvalidPattern pattern detail)
      | None \<Rightarrow> and_then (compile_patterns e patterns) (\<lambda>compiled. Inr (pattern # compiled)))"

definition command_segments :: "string \<Rightarrow> string list" where
  "command_segments command =
     filter (\<lambda>segment. segment \<noteq> [])
       (map trim (split_on (\<lambda>c. c \<in> {CHR 0x0A, CHR '';'', CHR ''|'', CHR ''&''}) command))"

definition evaluate_command ::
  "regex_engine \<Rightarrow> string \<Rightarrow> team_rules \<Rightarrow> (command_refusal, unit) result" where
  "evaluate_command e command rules =
     and_then (compile_patterns e (forbidden_commands rules)) (\<lambda>patterns.
       let segs = command_segments command in
       if keeps_local rules \<and> list_ex pushes segs then Inl KeptLocal
       else if list_ex (\<lambda>segment. runs_git segment (git_subcommands rules)) segs then Inl GitViaExec
       else (case List.find (\<lambda>pattern. regex_finds e pattern command
                                \<or> list_ex (regex_finds e pattern) segs) patterns of
               Some pattern \<Rightarrow> Inl (ForbiddenCommand pattern)
             | None \<Rightarrow> Inr ()))"

section \<open>What a command that passes runs\<close>

lemma position_Some_iff:
  "position p xs = Some i \<longleftrightarrow> i < length xs \<and> p (xs ! i) \<and> (\<forall>j < i. \<not> p (xs ! j))"
proof (induction xs arbitrary: i)
  case (Cons x xs)
  show ?case
  proof (cases i)
    case 0
    then show ?thesis by (cases "p x") auto
  next
    case (Suc k)
    have "(\<forall>j < Suc k. \<not> p ((x # xs) ! j)) \<longleftrightarrow> \<not> p x \<and> (\<forall>j < k. \<not> p (xs ! j))"
      by (auto simp: less_Suc_eq_0_disj)
    with Suc Cons show ?thesis by (cases "p x") auto
  qed
qed simp

lemma position_None_iff: "position p xs = None \<longleftrightarrow> (\<forall>x \<in> set xs. \<not> p x)"
  by (induction xs) auto

text \<open>The segment runs git: its first bare word is git, or an assignment or a wrapper with git
  after it.\<close>

definition calls_git :: "string list \<Rightarrow> bool" where
  "calls_git words \<longleftrightarrow>
     (\<exists>first rest. words = first # rest
        \<and> (first = ''git'' \<or> (is_assignment first \<or> first \<in> set WRAPPERS) \<and> ''git'' \<in> set rest))"

lemma git_at_None_iff: "git_at words = None \<longleftrightarrow> \<not> calls_git words"
  by (cases words) (auto simp: git_at_def calls_git_def position_None_iff)

lemma git_at_Some: "git_at words = Some i \<Longrightarrow> i < length words \<and> words ! i = ''git''"
  by (cases words) (auto simp: git_at_def position_Some_iff split: if_splits)

lemma compile_patterns_Inr_iff:
  "compile_patterns e patterns = Inr compiled \<longleftrightarrow>
     compiled = patterns \<and> (\<forall>p \<in> set patterns. regex_fault e p = None)"
  by (induction patterns arbitrary: compiled) (auto simp: and_then_Inr_iff split: option.splits)

text \<open>The subcommand a segment's git call names may run.\<close>

definition git_call_allowed :: "team_rules \<Rightarrow> string \<Rightarrow> bool" where
  "git_call_allowed rules segment \<longleftrightarrow>
     (\<forall>i. git_at (bare_words segment) = Some i \<longrightarrow>
        (\<exists>sub. get (bare_words segment) (i + 1) = Some sub
           \<and> (sub \<in> set (git_subcommands rules)
              \<or> sub \<in> set READ_ONLY_GIT
                \<and> (\<forall>word \<in> set (drop (i + 1) (bare_words segment)).
                     \<forall>opt \<in> set GIT_OPTIONS_THAT_ACT. \<not> starts_with word opt))))"

lemma runs_git_iff: "runs_git segment (git_subcommands rules) \<longleftrightarrow> \<not> git_call_allowed rules segment"
  by (auto simp: runs_git_def git_call_allowed_def Let_def list_ex_iff split: option.splits)

lemma pushes_iff:
  "pushes segment \<longleftrightarrow>
     (\<exists>i sub. git_at (bare_words segment) = Some i \<and> get (bare_words segment) (i + 1) = Some sub
        \<and> sub \<in> set PUSHING_GIT)"
  by (auto simp: pushes_def Let_def split: option.splits)

text \<open>
  A command passes exactly when every forbidden pattern compiles, no segment's git call pushes on
  a team that keeps everything local, whatever the owner allowed, every segment's git call names a
  subcommand the owner allowed or a read-only one with no option on the list of those that act, and
  no forbidden pattern is found in the command or in one of its segments.
\<close>

theorem evaluate_command_iff:
  "evaluate_command e command rules = Inr () \<longleftrightarrow>
     (\<forall>p \<in> set (forbidden_commands rules). regex_fault e p = None
        \<and> \<not> regex_finds e p command \<and> (\<forall>s \<in> set (command_segments command). \<not> regex_finds e p s))
     \<and> (\<forall>s \<in> set (command_segments command).
          git_call_allowed rules s \<and> \<not> (keeps_local rules \<and> pushes s))"
proof -
  have "evaluate_command e command rules = Inr () \<longleftrightarrow>
     (\<forall>p \<in> set (forbidden_commands rules). regex_fault e p = None)
     \<and> \<not> (keeps_local rules \<and> list_ex pushes (command_segments command))
     \<and> \<not> list_ex (\<lambda>s. runs_git s (git_subcommands rules)) (command_segments command)
     \<and> List.find (\<lambda>p. regex_finds e p command \<or> list_ex (regex_finds e p) (command_segments command))
          (forbidden_commands rules) = None"
    by (auto simp: evaluate_command_def Let_def and_then_Inr_iff compile_patterns_Inr_iff
        split: option.splits if_splits)
  then show ?thesis
    by (auto simp: find_None_iff list_ex_iff runs_git_iff)
qed

definition literal_regex :: regex_engine where
  "literal_regex = \<lparr>regex_fault = (\<lambda>_. None), regex_finds = has_substring\<rparr>"

lemma sample_command_passes:
  "evaluate_command literal_regex ''cd src && git log --oneline | head''
     (default_team_rules\<lparr>forbidden_commands := [''rm -rf'']\<rparr>) = Inr ()"
  by code_simp

theorem evaluate_command_iff_witness:
  "\<not> has_substring ''rm -rf'' ''cd src && git log --oneline | head''
   \<and> git_call_allowed default_team_rules ''git log --oneline''"
proof -
  have "''git log --oneline'' \<in> set (command_segments ''cd src && git log --oneline | head'')"
    by code_simp
  then show ?thesis
    using sample_command_passes unfolding evaluate_command_iff
    by (auto simp: literal_regex_def git_call_allowed_def)
qed

text \<open>
  A team that keeps everything on this computer pushes nothing: no segment of a command that
  passes calls git with a pushing subcommand, even when the owner allowed that subcommand.
\<close>

theorem kept_local_never_pushes:
  assumes "evaluate_command e command rules = Inr ()" and "keeps_local rules"
    and "segment \<in> set (command_segments command)" and "calls_git (bare_words segment)"
  shows "\<exists>i sub. git_at (bare_words segment) = Some i \<and> get (bare_words segment) (i + 1) = Some sub
    \<and> sub \<noteq> ''push'' \<and> sub \<noteq> ''send-pack''"
proof -
  have pass: "git_call_allowed rules segment" "\<not> pushes segment"
  proof -
    have "keeps_local rules \<and> list_ex pushes (command_segments command) \<longrightarrow> evaluate_command e command rules \<noteq> Inr ()"
      by (auto simp: evaluate_command_def Let_def and_then_Inr_iff)
    then show "\<not> pushes segment" using assms by (auto simp: list_ex_iff)
    have "list_ex (\<lambda>s. runs_git s (git_subcommands rules)) (command_segments command)
        \<longrightarrow> evaluate_command e command rules \<noteq> Inr ()"
      by (auto simp: evaluate_command_def Let_def and_then_Inr_iff)
    then show "git_call_allowed rules segment" using assms by (auto simp: list_ex_iff runs_git_iff)
  qed
  from assms(4) obtain i where "git_at (bare_words segment) = Some i"
    using git_at_None_iff by (cases "git_at (bare_words segment)") auto
  with pass show ?thesis
    by (auto simp: git_call_allowed_def pushes_iff PUSHING_GIT_def)
qed

theorem kept_local_never_pushes_witness:
  "\<exists>i sub. git_at [''git'', ''log''] = Some i \<and> get [''git'', ''log''] (i + 1) = Some sub \<and> sub \<noteq> ''push''"
proof -
  have h: "evaluate_command literal_regex ''git log''
      (default_team_rules\<lparr>keeps_local := True, git_subcommands := [''push'']\<rparr>) = Inr ()"
    "keeps_local (default_team_rules\<lparr>keeps_local := True, git_subcommands := [''push'']\<rparr>)"
    "''git log'' \<in> set (command_segments ''git log'')"
    "bare_words ''git log'' = [''git'', ''log'']"
    by code_simp+
  have "calls_git (bare_words ''git log'')" by (simp add: h(4) calls_git_def)
  from kept_local_never_pushes [OF h(1-3) this] show ?thesis unfolding h(4) by blast
qed

text \<open>
  The list of options that act is of long options in full, so a read-only subcommand still runs a
  program or writes a file when the option is spelt otherwise: \<open>git grep -Osh\<close>, whose \<open>-O\<close> is the
  short form of the refused \<open>--open-files-in-pager\<close>, and \<open>git diff --outp=f\<close>, an abbreviation git
  reads as the refused \<open>--output\<close>, pass the default rules, which refuse the long forms.
\<close>

theorem short_options_that_act_pass:
  "evaluate_command e ''git grep -Osh KEY'' default_team_rules = Inr ()
   \<and> evaluate_command e ''git diff --outp=f'' default_team_rules = Inr ()
   \<and> evaluate_command e ''git grep --open-files-in-pager=sh KEY'' default_team_rules = Inl GitViaExec
   \<and> evaluate_command e ''git diff --output=f'' default_team_rules = Inl GitViaExec"
proof -
  have c: "compile_patterns e (forbidden_commands default_team_rules) = Inr []"
    "keeps_local default_team_rules = False" "git_subcommands default_team_rules = []"
    by (simp_all add: default_team_rules_def)
  have "command_segments ''git grep -Osh KEY'' = [''git grep -Osh KEY'']"
    "command_segments ''git diff --outp=f'' = [''git diff --outp=f'']"
    "command_segments ''git grep --open-files-in-pager=sh KEY'' = [''git grep --open-files-in-pager=sh KEY'']"
    "command_segments ''git diff --output=f'' = [''git diff --output=f'']"
    "\<not> runs_git ''git grep -Osh KEY'' []" "\<not> runs_git ''git diff --outp=f'' []"
    "runs_git ''git grep --open-files-in-pager=sh KEY'' []" "runs_git ''git diff --output=f'' []"
    by code_simp+
  then show ?thesis
    unfolding evaluate_command_def c by simp
qed

end
