(* ===== verification/Autopilot_Choices.thy ===== *)
theory Autopilot_Choices
  imports Transition
begin

text \<open>
  What the team may decide for the owner under autopilot (crates/core/src/autopilot.rs): the choices
  for each thing that waits, what each does to the task, and who answers the team's own questions.
  The lemmas say that every choice offered can be made: it does something, and a move it asks for has
  a row of the transition table for the Product Manager, beside the human's own.
\<close>

section \<open>Choices\<close>

definition TEAM_GRANTS_PER_TASK :: u32 where "TEAM_GRANTS_PER_TASK = 3"
definition REOPENS_PER_TASK :: u32 where "REOPENS_PER_TASK = 3"
definition DECIDE_SESSIONS_PER_WAIT :: u32 where "DECIDE_SESSIONS_PER_WAIT = 3"

datatype decide_choice =
    MoreTries | MoreRoom | BackToPlan | TryReadinessAgain | ReopenIntegration | AnswerBlock | Cancel
  | ApprovePlan | AcceptResult | CarryOn | RetryFolderChange | Flag

definition ALL_CHOICES :: "decide_choice list" where
  "ALL_CHOICES =
     [MoreTries, MoreRoom, BackToPlan, TryReadinessAgain, ReopenIntegration, AnswerBlock, Cancel,
      ApprovePlan, AcceptResult, CarryOn, RetryFolderChange, Flag]"

fun choice_wire :: "decide_choice \<Rightarrow> string" where
  "choice_wire MoreTries = ''more_tries''"
| "choice_wire MoreRoom = ''more_room''"
| "choice_wire BackToPlan = ''back_to_plan''"
| "choice_wire TryReadinessAgain = ''try_readiness_again''"
| "choice_wire ReopenIntegration = ''reopen_integration''"
| "choice_wire AnswerBlock = ''answer_block''"
| "choice_wire Cancel = ''cancel''"
| "choice_wire ApprovePlan = ''approve_plan''"
| "choice_wire AcceptResult = ''accept_result''"
| "choice_wire CarryOn = ''carry_on''"
| "choice_wire RetryFolderChange = ''retry_folder_change''"
| "choice_wire Flag = ''flag''"

definition choice_from_wire :: "string \<Rightarrow> decide_choice option" where
  "choice_from_wire s = List.find (\<lambda>c. choice_wire c = s) ALL_CHOICES"

datatype question_about = ProductQuestion | TechnicalQuestion

record team_spent =
  spent_grants :: u32
  spent_reopens :: u32

datatype decide_move =
    MoveTo task_status "nat option" bool \<comment> \<open>the status, the tries it grants, whether it grants room\<close>
  | ReopenMove | RetryFolderChangeMove | ApprovePlanMove | AcceptResultMove | FlagMove

definition may_carry_on :: "task_status option \<Rightarrow> bool" where
  "may_carry_on before = (case before of None \<Rightarrow> False | Some b \<Rightarrow> b \<noteq> Refining \<and> b \<noteq> Escalated)"

text \<open>The arms of the code's match, by the words the log uses for a wait.\<close>

datatype wait_kind =
    OutOfTries | OutOfRoom | BlockWait | NotReadyWait | IntegrationWait | ApprovalWait | AcceptanceWait
  | PermissionWait | PreviewWait | FolderChangeWait | OtherWait

definition wait_kind_of :: "string \<Rightarrow> wait_kind" where
  "wait_kind_of reason =
     (if reason = ''iterations'' then OutOfTries
      else if reason \<in> {''budget'', ''sessions''} then OutOfRoom
      else if reason \<in> {''blocker_age'', ''blocked''} then BlockWait
      else if reason = ''readiness_failures'' then NotReadyWait
      else if reason = ''integration'' then IntegrationWait
      else if reason \<in> {''approval'', ''risk_gate''} then ApprovalWait
      else if reason = ''acceptance'' then AcceptanceWait
      else if reason \<in> {''permission'', ''explicit_request''} then PermissionWait
      else if reason = ''preview'' then PreviewWait
      else if reason = ''folder_change'' then FolderChangeWait
      else OtherWait)"

definition choices_for ::
  "string \<Rightarrow> task_status option \<Rightarrow> task_status option \<Rightarrow> team_spent \<Rightarrow> decide_choice list" where
  "choices_for reason before blocked_from spent =
     (let carry_on = (if may_carry_on before then [CarryOn] else []);
          granted_out = (TEAM_GRANTS_PER_TASK \<le> spent_grants spent) in
      (case wait_kind_of reason of
         OutOfTries \<Rightarrow> if granted_out then [BackToPlan, Cancel] else [MoreTries, BackToPlan, Cancel]
       | OutOfRoom \<Rightarrow> if granted_out then [BackToPlan, Cancel]
                     else (if before \<noteq> None then [MoreRoom] else []) @ [Cancel]
       | BlockWait \<Rightarrow> [AnswerBlock]
           @ (if return_from_block blocked_from \<noteq> Refining then [BackToPlan] else []) @ [Cancel]
       | NotReadyWait \<Rightarrow> [TryReadinessAgain, Cancel]
       | IntegrationWait \<Rightarrow> if spent_reopens spent < REOPENS_PER_TASK then [ReopenIntegration] else []
       | ApprovalWait \<Rightarrow> [ApprovePlan, BackToPlan, Cancel]
       | AcceptanceWait \<Rightarrow> [AcceptResult]
       | PermissionWait \<Rightarrow> carry_on @ [BackToPlan, Cancel]
       | PreviewWait \<Rightarrow> carry_on @ [Cancel]
       | FolderChangeWait \<Rightarrow> if spent_reopens spent < REOPENS_PER_TASK then [RetryFolderChange] else []
       | OtherWait \<Rightarrow> [BackToPlan, Cancel]) @ [Flag])"

fun move_of :: "decide_choice \<Rightarrow> task_status option \<Rightarrow> task_status option \<Rightarrow> decide_move option" where
  "move_of MoreTries before blocked_from = Some (MoveTo InProgress (Some 2) False)"
| "move_of MoreRoom before blocked_from = map_option (\<lambda>s. MoveTo s None True) before"
| "move_of BackToPlan before blocked_from = Some (MoveTo Refining None False)"
| "move_of TryReadinessAgain before blocked_from = Some (MoveTo Refining None False)"
| "move_of AnswerBlock before blocked_from = Some (MoveTo (return_from_block blocked_from) None False)"
| "move_of CarryOn before blocked_from = map_option (\<lambda>s. MoveTo s None False) before"
| "move_of Cancel before blocked_from = Some (MoveTo Cancelled None False)"
| "move_of ReopenIntegration before blocked_from = Some ReopenMove"
| "move_of RetryFolderChange before blocked_from = Some RetryFolderChangeMove"
| "move_of ApprovePlan before blocked_from = Some ApprovePlanMove"
| "move_of AcceptResult before blocked_from = Some AcceptResultMove"
| "move_of Flag before blocked_from = Some FlagMove"

definition answerer :: "question_about \<Rightarrow> role \<Rightarrow> bool \<Rightarrow> role" where
  "answerer about asker has_architect =
     (if about = TechnicalQuestion \<and> has_architect \<and> asker \<noteq> Architect then Architect else ProductManager)"

section \<open>Reading them\<close>

lemma ALL_CHOICES_complete: "c \<in> set ALL_CHOICES" "distinct ALL_CHOICES"
  by (cases c) (simp_all add: ALL_CHOICES_def)

lemma choice_wire_inject: "choice_wire c = choice_wire d \<longleftrightarrow> c = d"
proof -
  have "distinct (map choice_wire ALL_CHOICES)" by code_simp
  then show ?thesis using ALL_CHOICES_complete(1) by (metis distinct_map inj_onD)
qed

text \<open>The wire's name of a choice reads back as it.\<close>

lemma choice_round_trip: "choice_from_wire s = Some c \<longleftrightarrow> s = choice_wire c"
proof
  assume "choice_from_wire s = Some c"
  then show "s = choice_wire c" using find_Some_in unfolding choice_from_wire_def by fast
next
  assume s: "s = choice_wire c"
  obtain d where d: "choice_from_wire s = Some d"
    using ALL_CHOICES_complete(1) [of c] s unfolding choice_from_wire_def
    by (cases "List.find (\<lambda>d. choice_wire d = s) ALL_CHOICES") (auto simp: find_None_iff)
  then have "s = choice_wire d" using find_Some_in unfolding choice_from_wire_def by fast
  then show "choice_from_wire s = Some c" using d s choice_wire_inject by simp
qed

lemma choices_for_flag_last: "last (choices_for reason before blocked_from spent) = Flag"
  unfolding choices_for_def Let_def by simp

lemma choices_for_distinct: "distinct (choices_for reason before blocked_from spent)"
  by (simp add: choices_for_def Let_def split: wait_kind.split)

text \<open>What stands behind each choice offered: more tries and more room only below the limit on them,
  an integration or a folder change again only below that on them.\<close>

lemma offered_within_limits:
  assumes "c \<in> set (choices_for reason before blocked_from spent)"
  shows "c \<in> {MoreTries, MoreRoom} \<Longrightarrow> spent_grants spent < TEAM_GRANTS_PER_TASK"
    and "c \<in> {ReopenIntegration, RetryFolderChange} \<Longrightarrow> spent_reopens spent < REOPENS_PER_TASK"
    and "c = RetryFolderChange \<Longrightarrow> wait_kind_of reason = FolderChangeWait"
    and "c \<in> {MoreRoom, CarryOn} \<Longrightarrow> before \<noteq> None"
  using assms
  by (cases "wait_kind_of reason"; auto simp: choices_for_def Let_def may_carry_on_def not_le
        split: if_splits option.splits)+

lemma offered_does_something:
  assumes "c \<in> set (choices_for reason before blocked_from spent)"
  shows "move_of c before blocked_from \<noteq> None"
  using offered_within_limits(4) [OF assms] by (cases c) auto

lemma escalated_rows:
  assumes "to \<noteq> Escalated"
  shows "row (Is Escalated) Any ProductManagerActor Autopilot \<in> set (find_transitions Escalated to)"
    and "human_asks Escalated to"
  using assms by (simp_all add: find_transitions_iff TRANSITION_TABLE_def leaves_def human_asks_def)

lemma return_from_block_cases: "return_from_block b \<in> {InProgress, Verifying, Refining}"
  by (simp add: return_from_block_def split: option.split task_status.split)

lemma blocked_rows:
  assumes "to \<in> {InProgress, Verifying, Refining, Cancelled}"
  shows "\<exists>r \<in> set (find_transitions Blocked to). row_actor r = ProductManagerActor \<and> row_gate r = Autopilot"
    and "human_asks Blocked to"
  using assms by (auto simp: find_transitions_def TRANSITION_TABLE_def leaves_def human_asks_def)

text \<open>The moves of a wait: a block's go where a block may, any other's to the status the task came
  from, to work, to planning or to the end.\<close>

lemma offered_moves:
  assumes "c \<in> set (choices_for reason before blocked_from spent)"
    and "move_of c before blocked_from = Some (MoveTo to tries room)"
  shows "wait_kind_of reason = BlockWait \<Longrightarrow> to \<in> {InProgress, Verifying, Refining, Cancelled}"
    and "to \<in> {InProgress, Verifying, Refining, Cancelled} \<or> Some to = before"
  using assms return_from_block_cases [of blocked_from]
  by (cases "wait_kind_of reason"; auto simp: choices_for_def Let_def split: if_splits)+

lemma wait_kind_blocked [simp]: "wait_kind_of ''blocked'' = BlockWait"
  by (simp add: wait_kind_of_def)

text \<open>
  C22: Every choice the Product Manager is offered can be made: the list ends with \<open>flag\<close> and names
  nothing twice, each choice does something, and a move it asks for, out of the status the task waits
  in, has a row of the transition table that is the Product Manager's under autopilot and one that is
  the human's.
\<close>

theorem offered_choice_can_be_made:
  assumes "c \<in> set (choices_for reason before blocked_from spent)"
    and "waits_in = (if reason = ''blocked'' then Blocked else Escalated)"
    and "before \<noteq> Some Escalated"
  shows "last (choices_for reason before blocked_from spent) = Flag
    \<and> distinct (choices_for reason before blocked_from spent)
    \<and> choice_from_wire (choice_wire c) = Some c
    \<and> (\<exists>m. move_of c before blocked_from = Some m
        \<and> (\<forall>to tries room. m = MoveTo to tries room \<longrightarrow> human_asks waits_in to
            \<and> (\<exists>r \<in> set (find_transitions waits_in to).
                 row_actor r = ProductManagerActor \<and> row_gate r = Autopilot)))"
proof -
  have rows: "human_asks waits_in to \<and> (\<exists>r \<in> set (find_transitions waits_in to).
      row_actor r = ProductManagerActor \<and> row_gate r = Autopilot)"
    if m: "move_of c before blocked_from = Some (MoveTo to tries room)" for to tries room
  proof (cases "reason = ''blocked''")
    case True
    then show ?thesis using blocked_rows offered_moves(1) [OF assms(1) m] assms(2) by simp
  next
    case False
    have "to \<noteq> Escalated" using offered_moves(2) [OF assms(1) m] assms(3) by auto
    then show ?thesis using escalated_rows False assms(2) by (metis row_simps(3,4))
  qed
  obtain m where "move_of c before blocked_from = Some m" using offered_does_something [OF assms(1)] by blast
  then show ?thesis using rows choices_for_flag_last choices_for_distinct choice_round_trip by blast
qed

theorem offered_choice_can_be_made_witness:
  "choices_for ''blocked'' None (Some Verifying) \<lparr>spent_grants = 0, spent_reopens = 0\<rparr>
     = [AnswerBlock, BackToPlan, Cancel, Flag]
   \<and> (\<exists>r \<in> set (find_transitions Blocked Verifying). row_actor r = ProductManagerActor \<and> row_gate r = Autopilot)"
proof -
  have offered: "choices_for ''blocked'' None (Some Verifying) \<lparr>spent_grants = 0, spent_reopens = 0\<rparr>
     = [AnswerBlock, BackToPlan, Cancel, Flag]"
    by (simp add: choices_for_def wait_kind_of_def return_from_block_def)
  then have "AnswerBlock \<in> set (choices_for ''blocked'' None (Some Verifying)
      \<lparr>spent_grants = 0, spent_reopens = 0\<rparr>)"
    by simp
  from offered_choice_can_be_made [OF this refl] offered show ?thesis
    by (simp add: return_from_block_def) metis
qed

end
