(* ===== verification/Events.thy ===== *)
theory Events
  imports Autopilot_Choices
begin

text \<open>
  The log of what happened: crates/protocol/src/event.rs (an event and its body, as far as the
  board and the governor's door read it), the append and the reads of crates/store/src/event\_log.rs,
  and what crates/store/src/waiting.rs and crates/runtime/src/transitions.rs read from a task's
  history. A status, an actor or a gate of the wire is the governor's own, since a test of the
  repository pins the two lists to each other. A kind that none of these readers looks at is an
  \<open>OtherEvent\<close> with its name.

  A sequence number is a \<open>nat\<close>: SQLite holds it in a signed 64-bit integer, and \<open>append\<close> refuses
  the first number past that. \<open>read\<close> gives the events in the order of their numbers.
\<close>

section \<open>Events\<close>

datatype triage_size = Small | Large

record contract_summary =
  summary_kind :: kind
  summary_parent :: "string option"
  summary_title :: string
  summary_status :: task_status
  summary_risk :: risk

datatype effect_item =
    IncrementIterationItem | RaiseEscalationItem | ResetBlockerItem | StampBlockedAtItem
  | NothingToIntegrateItem

record move_body =
  move_from :: task_status
  move_to :: task_status
  move_actor :: transition_actor
  move_requested_by :: string
  move_gate :: gate_id
  move_effects :: "effect_item list"
  move_assignee :: "string option"
  move_reviewer :: "string option"
  move_iteration :: u32
  move_blocker :: "blocker option"
  move_blocker_resolution :: "string option"
  move_rejection :: "rejection option"
  move_reason :: "string option"
  move_changed :: "string list option"

record refused_body =
  refused_from :: task_status
  refused_to :: task_status
  refused_actor :: transition_actor
  refused_requested_by :: string
  refusal :: transition_refusal

datatype waiting_event =
    QuestionAsked string string \<comment> \<open>who asked, the question\<close>
  | QuestionAnswered nat
  | TeamQuestionAsked string string question_about \<comment> \<open>who asked, the question, whom it is for\<close>
  | TeamQuestionAnswered nat string string \<comment> \<open>the question, the answer, who answered\<close>
  | EscalationRaised escalation_reason string
  | ToolApprovalRequested string string string \<comment> \<open>server, tool, the hash of the input\<close>
  | ToolApprovalGranted nat
  | ToolApprovalRefused nat
  | MarketingPlanProposed
  | MarketingPlanApproved
  | MarketingPlanReturned

datatype sprint_event =
    SprintStarted string "f64 option"
  | SprintPlanned string "string list"
  | SprintEnded string "string list" "bool option" \<comment> \<open>sprint, left, backlog\<close>

datatype judged_gate = EvaluatedReady | EvaluatedDone
datatype note_kind = CompletionNote | ReviewNote | ProgressNote
datatype accepted_subject = AcceptedContract | AcceptedResult

datatype session_purpose =
    Triage | Refine | PlanPurpose | Explore | Implement | Verify | Ceremony | Conversation | Chat
  | Goal | Decide

record team_decided =
  decided_choice :: decide_choice
  decided_reason :: string
  decided_by :: string
  decided_answer :: "string option"
  decided_needs :: "string option"
  decided_change :: "nat option"

record doc_proposed =
  proposed_path :: string
  proposed_text :: string
  proposed_agent_text :: string
  proposed_summary :: string
  proposed_sprint :: string
  proposed_by :: string

datatype folder_event =
    FolderDocWritten string string nat "string option" \<comment> \<open>path, who wrote it, change, branch\<close>
  | FolderDocProposed doc_proposed
  | FolderDocApproved "nat list" "string option" "nat option" "string option" \<comment> \<open>proposals, note, change, branch\<close>
  | FolderDocReturned "nat list" string \<comment> \<open>proposals, reason\<close>
  | FolderDocEdited string nat "string option" \<comment> \<open>path, change, branch\<close>
  | DocumentStorageChanged bool "nat option" "string option" \<comment> \<open>kept here, change, branch\<close>
  | FolderChangeOpened nat
  | FolderChangeIntegrated nat
  | FolderChangeEscalated nat

datatype event_body =
    TaskCreated contract_summary bool "bool option" "string option"
      \<comment> \<open>the summary, whether it raises a plan's budget, product plan, the agent it is given to\<close>
  | ContractWritten contract_summary
  | RequestTriaged triage_size
  | ContractLocked
  | ContractUnlocked
  | TaskTransitioned move_body
  | TransitionRefused refused_body
  | TaskReassigned string string \<comment> \<open>from, to\<close>
  | TaskIntegrated
  | WaitingEvent waiting_event
  | SprintEvent sprint_event
  | TeamUpdated "bool option" \<comment> \<open>plan in sprints\<close>
  | CostRecorded session_purpose f64
  | ContractEvaluated judged_gate bool "gate_detail list"
  | CriterionRecorded string bool string run_by string \<comment> \<open>the id, passed, the evidence, the runner, who recorded it\<close>
  | NoteWritten note_kind string
  | ReviewRecorded bool
  | HumanAccepted accepted_subject "string option"
  | SessionStarted session_purpose
  | SessionEnded bool \<comment> \<open>whether the provider refused the key\<close>
  | ToolCalled "nat option" \<comment> \<open>the approval it used\<close>
  | AutopilotChanged bool
  | ProjectStarted string string
  | WorktreeTidied "string list" "string list"
  | DesignReviewRecorded bool
  | DesignPlanReturned
  | EscalationResolved task_status string string "nat option"
      \<comment> \<open>where the task goes, the message, who resolved it, the extra tries it grants\<close>
  | TaskRoomGranted nat f64 \<comment> \<open>sessions, dollars\<close>
  | TeamDecided team_decided
  | TaskFlagged string string \<comment> \<open>what the owner must give, who flagged it\<close>
  | ToolApproved string string string \<comment> \<open>server, tool, the hash of the input\<close>
  | FolderEvent folder_event
  | OtherEvent string

record event_ids =
  about_task :: "string option"
  by_agent :: "string option"
  in_session :: "string option"

record event =
  seq :: nat
  recorded_at :: date_time
  ids :: event_ids
  body :: event_body

section \<open>The log\<close>

type_synonym log = "event list"

definition SEQ_MAX :: nat where "SEQ_MAX = 9223372036854775807"

lemma SEQ_MAX_eq: "SEQ_MAX = 2 ^ 63 - 1"
  by (simp add: SEQ_MAX_def)

datatype store_error =
    LogFull \<comment> \<open>the engine has no sequence number left\<close>
  | EventRefused \<comment> \<open>not an event its schema or \<open>new_event\<close> takes\<close>
  | DatabaseRefused \<comment> \<open>SQLite's own errors\<close>
  | PastTheEngine nat \<comment> \<open>event ... is past what the engine can hold\<close>
  | UnreadableRow string string \<comment> \<open>the projection of ... holds ... as its ...\<close>

text \<open>The next sequence number is one past the last: the table's \<open>AUTOINCREMENT\<close> never hands one
  out twice, and no event is ever deleted. A blank agent or session id names nobody and is dropped
  (\<open>new_event\<close>). The check of the event against its schema, and the insert, are libraries'; \<open>stop\<close>
  says whether either refused this event.\<close>

definition last_seq :: "log \<Rightarrow> nat" where
  "last_seq l = (if l = [] then 0 else seq (last l))"

definition append ::
  "store_error option \<Rightarrow> log \<Rightarrow> date_time \<Rightarrow> event_ids \<Rightarrow> event_body \<Rightarrow> (store_error, event) result" where
  "append stop l now i b =
     (case stop of
        Some e \<Rightarrow> Inl e
      | None \<Rightarrow>
          if SEQ_MAX \<le> last_seq l then Inl LogFull
          else Inr \<lparr>seq = last_seq l + 1, recorded_at = now,
                    ids = i\<lparr>by_agent := trimmed (by_agent i), in_session := trimmed (in_session i)\<rparr>,
                    body = b\<rparr>)"

definition read_after :: "log \<Rightarrow> nat \<Rightarrow> log" where
  "read_after l after_seq = filter (\<lambda>e. after_seq < seq e) l"

definition history_of :: "log \<Rightarrow> string \<Rightarrow> log" where
  "history_of l task = filter (\<lambda>e. about_task (ids e) = Some task) l"

text \<open>A log as \<open>append\<close> builds it: the numbers are \<open>1, 2, \<dots>\<close> in order.\<close>

definition well_numbered :: "log \<Rightarrow> bool" where
  "well_numbered l \<longleftrightarrow> map seq l = [1..<length l + 1] \<and> length l \<le> SEQ_MAX"

lemma well_numbered_Nil [simp]: "well_numbered []"
  by (simp add: well_numbered_def)

lemma well_numbered_last: "well_numbered l \<Longrightarrow> last_seq l = length l"
proof (cases l rule: rev_cases)
  case (snoc xs e)
  assume "well_numbered l"
  then have "map seq xs @ [seq e] = [1..<Suc (length xs)] @ [Suc (length xs)]"
    using snoc by (simp add: well_numbered_def)
  then show ?thesis using snoc by (simp add: last_seq_def)
qed (simp add: last_seq_def)

lemma well_numbered_snoc:
  "well_numbered (l @ [e]) \<longleftrightarrow> well_numbered l \<and> seq e = length l + 1 \<and> length l < SEQ_MAX"
  by (auto simp: well_numbered_def)

lemma append_well_numbered:
  assumes "well_numbered l" and "append stop l now i b = Inr e"
  shows "well_numbered (l @ [e]) \<and> seq e = length l + 1 \<and> body e = b \<and> about_task (ids e) = about_task i"
  using assms well_numbered_last [of l]
  by (auto simp: append_def well_numbered_snoc split: if_splits option.splits)

lemma well_numbered_nth:
  assumes "well_numbered l" and "i < length l"
  shows "seq (l ! i) = i + 1"
proof -
  have "map seq l ! i = [1..<length l + 1] ! i"
    using assms(1) by (simp add: well_numbered_def del: upt_Suc)
  then show ?thesis using assms(2) by (simp del: upt_Suc)
qed

lemma read_after_drop:
  assumes "well_numbered l"
  shows "read_after l n = drop n l"
  using assms
proof (induction l rule: rev_induct)
  case (snoc e l)
  then show ?case by (auto simp: well_numbered_snoc read_after_def)
qed (simp add: read_after_def)

section \<open>What is read from a task's history\<close>

definition is_move_into :: "task_status \<Rightarrow> event \<Rightarrow> bool" where
  "is_move_into st e = (case body e of TaskTransitioned b \<Rightarrow> move_to b = st | _ \<Rightarrow> False)"

definition last_move_into :: "log \<Rightarrow> task_status \<Rightarrow> event option" where
  "last_move_into history st = List.find (is_move_into st) (rev history)"

definition seq_of_last_move :: "log \<Rightarrow> task_status \<Rightarrow> nat" where
  "seq_of_last_move history st = (case last_move_into history st of None \<Rightarrow> 0 | Some e \<Rightarrow> seq e)"

definition review_passed_in :: "log \<Rightarrow> bool" where
  "review_passed_in history =
     (let since = seq_of_last_move history Verifying in
      case find_map (\<lambda>e. case body e of ReviewRecorded p \<Rightarrow> Some p | _ \<Rightarrow> None)
             (takeWhile (\<lambda>e. since < seq e) (rev history)) of
        None \<Rightarrow> False | Some p \<Rightarrow> p)"

definition refining_began :: "log \<Rightarrow> nat" where
  "refining_began history =
     fold max (map seq (filter (\<lambda>e. (case body e of RequestTriaged _ \<Rightarrow> True | _ \<Rightarrow> False)
                                    \<or> is_move_into Refining e) history)) 0"

definition u32_of :: "nat \<Rightarrow> u32" where
  "u32_of n = (if n < 2 ^ 32 then of_nat n else - 1)"

definition failed_readiness :: "event \<Rightarrow> bool" where
  "failed_readiness e =
     (case body e of ContractEvaluated EvaluatedReady p _ \<Rightarrow> \<not> p | _ \<Rightarrow> False)"

definition readiness_failures_in :: "log \<Rightarrow> u32" where
  "readiness_failures_in history =
     (let since = refining_began history in
      u32_of (length (filter failed_readiness (filter (\<lambda>e. since < seq e) history))))"

definition contract_accepted :: "log \<Rightarrow> bool" where
  "contract_accepted history =
     (let since = fold max (map seq (filter (\<lambda>e.
            (case body e of ContractWritten _ \<Rightarrow> True | _ \<Rightarrow> False) \<or> is_move_into Refining e) history)) 0
      in list_ex (\<lambda>e. since < seq e
            \<and> (case body e of HumanAccepted AcceptedContract _ \<Rightarrow> True | _ \<Rightarrow> False)) history)"

definition result_accepted :: "log \<Rightarrow> (nat \<times> string option) option" where
  "result_accepted history =
     (let since = seq_of_last_move history Verifying in
      find_map (\<lambda>e. case body e of HumanAccepted AcceptedResult m \<Rightarrow> Some (seq e, m) | _ \<Rightarrow> None)
        (filter (\<lambda>e. since < seq e) (rev history)))"

text \<open>\<open>evidence_since_work_began\<close>: one pass over the events since the last move into
  \<open>in_progress\<close>. A criterion recorded again by the same runner replaces the older result.\<close>

record evidence =
  evidence_results :: "criterion_result list"
  evidence_completion :: "string option"
  evidence_review :: "string option"

definition take_evidence :: "evidence \<Rightarrow> event \<Rightarrow> evidence" where
  "take_evidence v e =
     (case body e of
        CriterionRecorded cid p text by _ \<Rightarrow>
          v\<lparr>evidence_results :=
              filter (\<lambda>r. result_criterion_id r \<noteq> cid \<or> result_run_by r \<noteq> by) (evidence_results v)
              @ [\<lparr>result_criterion_id = cid, passed = p, evidence_text = text, result_run_by = by\<rparr>]\<rparr>
      | NoteWritten CompletionNote text \<Rightarrow> v\<lparr>evidence_completion := Some text\<rparr>
      | NoteWritten ReviewNote text \<Rightarrow> v\<lparr>evidence_review := Some text\<rparr>
      | _ \<Rightarrow> v)"

definition no_evidence :: evidence where
  "no_evidence = \<lparr>evidence_results = [], evidence_completion = None, evidence_review = None\<rparr>"

definition evidence_since_work_began :: "log \<Rightarrow> evidence" where
  "evidence_since_work_began history =
     (let since = seq_of_last_move history InProgress in
      foldl take_evidence no_evidence (filter (\<lambda>e. since < seq e) history))"

text \<open>crates/runtime/src/cost.rs and crates/runtime/src/tools/design.rs: the tries the human granted,
  and how many of the task's design plans came back.\<close>

definition extra_tries :: "log \<Rightarrow> u32" where
  "extra_tries history =
     foldl saturating_add 0
       (map u32_of (filter_map (\<lambda>e. case body e of EscalationResolved _ _ _ tries \<Rightarrow> tries | _ \<Rightarrow> None) history))"

definition design_returns :: "log \<Rightarrow> u32" where
  "design_returns history =
     u32_of (length (filter (\<lambda>e. case body e of DesignPlanReturned \<Rightarrow> True | _ \<Rightarrow> False) history))"

text \<open>\<open>design_review\<close>'s answer: the review recorded since the task last entered \<open>verifying\<close>, with who
  recorded it, or what it waits for.\<close>

datatype review_state =
    ReviewNotNeeded | ReviewPassed | ReviewFailed | PreviewMissing | DesignerNeedsSandbox
  | DesignerNeedsBrowser | WaitingOnDesigner | ReviewWaiting

definition recorded_review :: "log \<Rightarrow> (bool \<times> string option) option" where
  "recorded_review history =
     (let since = seq_of_last_move history Verifying in
      find_map (\<lambda>e. case body e of DesignReviewRecorded pass \<Rightarrow> Some (pass, by_agent (ids e)) | _ \<Rightarrow> None)
        (takeWhile (\<lambda>e. since < seq e) (rev history)))"

definition given_to :: "log \<Rightarrow> string \<Rightarrow> string option" where
  "given_to l task =
     (case List.find (\<lambda>e. case body e of TaskCreated _ _ _ _ \<Rightarrow> True | _ \<Rightarrow> False) (history_of l task) of
        None \<Rightarrow> None
      | Some e \<Rightarrow> (case body e of TaskCreated _ _ _ g \<Rightarrow> g | _ \<Rightarrow> None))"

definition autopilot_in :: "log \<Rightarrow> bool" where
  "autopilot_in l =
     (case find_map (\<lambda>e. case body e of AutopilotChanged on \<Rightarrow> Some on | _ \<Rightarrow> None) (rev l) of
        None \<Rightarrow> False | Some on \<Rightarrow> on)"

definition is_the_product_plan_in :: "log \<Rightarrow> bool" where
  "is_the_product_plan_in history =
     list_ex (\<lambda>e. case body e of TaskCreated _ _ drafts _ \<Rightarrow> drafts = Some True | _ \<Rightarrow> False) history"

definition product_plan_tasks :: "log \<Rightarrow> (string \<times> date_time) list" where
  "product_plan_tasks l =
     filter_map (\<lambda>e. map_option (\<lambda>t. (t, recorded_at e)) (about_task (ids e)))
       (filter (\<lambda>e. is_the_product_plan_in [e]) l)"

definition new_project :: "log \<Rightarrow> (string \<times> string) option" where
  "new_project l = find_map (\<lambda>e. case body e of ProjectStarted n d \<Rightarrow> Some (n, d) | _ \<Rightarrow> None) l"

end
