(* ===== verification/Projections.thy ===== *)
theory Projections
  imports Events "HOL-Library.List_Lexorder" "HOL-Library.Char_ord" "HOL-Library.Product_Lexorder"
begin

text \<open>
  crates/store/src/projections.rs: the board, derived from the log one event at a time. The tables
  of the database are lists of rows: \<open>task_rows\<close> holds one row per task id (its primary key),
  \<open>sprints\<close> one per sprint, \<open>cost_records\<close> one per cost, and \<open>cursor\<close> is the last event applied. A
  count is the integer SQLite holds, read back into a \<open>u32\<close> or refused. Of a cost only what the
  board sums is kept. The lemmas show that however events are handed over (again, or with a gap),
  the tables are those of a replay of the log up to the cursor.
\<close>

section \<open>The tables\<close>

record task_row =
  row_task :: string
  row_kind :: kind
  row_parent :: "string option"
  row_title :: string
  row_status :: task_status
  row_risk :: risk
  row_triaged :: bool
  row_locked :: bool
  updated_seq :: nat
  row_assignee :: "string option"
  row_reviewer :: "string option"
  row_iteration :: u32
  awaiting_integration :: bool
  open_questions :: nat
  open_approvals :: nat
  open_plans :: nat
  awaiting_approval :: bool
  verifications :: nat
  rejections :: nat
  interventions :: nat
  row_sprint :: "string option"
  left_for_the_backlog :: bool
  skips_sprints :: bool
  counted_seq :: "nat option"

record sprint_row =
  sprint_id :: string
  sprint_budget :: "f64 option"
  sprint_open :: bool

record cost_row =
  cost_seq :: nat
  cost_task :: "string option"
  cost_agent :: "string option"
  cost_session :: "string option"
  cost_purpose :: session_purpose
  cost_day :: int
  cost_of_row :: f64
  cost_sprint :: "string option"

record tables =
  task_rows :: "task_row list"
  sprints :: "sprint_row list"
  cost_records :: "cost_row list"
  cursor :: nat

definition empty_tables :: tables where
  "empty_tables = \<lparr>task_rows = [], sprints = [], cost_records = [], cursor = 0\<rparr>"

section \<open>Writing a row\<close>

text \<open>\<open>UPDATE task_projections SET f WHERE test\<close>, and the same for the row of one id.\<close>

definition update_where :: "(task_row \<Rightarrow> bool) \<Rightarrow> (task_row \<Rightarrow> task_row) \<Rightarrow> tables \<Rightarrow> tables" where
  "update_where test f t = t\<lparr>task_rows := map (\<lambda>r. if test r then f r else r) (task_rows t)\<rparr>"

definition update :: "string \<Rightarrow> (task_row \<Rightarrow> task_row) \<Rightarrow> tables \<Rightarrow> tables" where
  "update i = update_where (\<lambda>r. row_task r = i)"

definition row_in :: "tables \<Rightarrow> string \<Rightarrow> task_row option" where
  "row_in t i = List.find (\<lambda>r. row_task r = i) (task_rows t)"

definition new_row :: "string \<Rightarrow> contract_summary \<Rightarrow> nat \<Rightarrow> task_row" where
  "new_row i summary at_seq =
     \<lparr>row_task = i, row_kind = summary_kind summary, row_parent = summary_parent summary,
      row_title = summary_title summary, row_status = summary_status summary,
      row_risk = summary_risk summary, row_triaged = False, row_locked = False,
      updated_seq = at_seq, row_assignee = None, row_reviewer = None, row_iteration = 0,
      awaiting_integration = False, open_questions = 0, open_approvals = 0, open_plans = 0,
      awaiting_approval = False, verifications = 0, rejections = 0, interventions = 0,
      row_sprint = None, left_for_the_backlog = False, skips_sprints = False, counted_seq = None\<rparr>"

definition write_summary :: "string \<Rightarrow> contract_summary \<Rightarrow> nat \<Rightarrow> tables \<Rightarrow> tables" where
  "write_summary i summary at_seq t =
     (case row_in t i of
        None \<Rightarrow> t\<lparr>task_rows := task_rows t @ [new_row i summary at_seq]\<rparr>
      | Some _ \<Rightarrow> update i (\<lambda>r. r\<lparr>row_kind := summary_kind summary, row_parent := summary_parent summary,
           row_title := summary_title summary, row_status := summary_status summary,
           row_risk := summary_risk summary, updated_seq := at_seq\<rparr>) t)"

definition set_locked :: "string \<Rightarrow> bool \<Rightarrow> nat \<Rightarrow> tables \<Rightarrow> tables" where
  "set_locked i held at_seq = update i (\<lambda>r. r\<lparr>row_locked := held, updated_seq := at_seq\<rparr>)"

definition counted_status :: "task_status \<Rightarrow> bool" where
  "counted_status = counts_towards_wip"

definition is_intervention :: "move_body \<Rightarrow> bool" where
  "is_intervention b \<longleftrightarrow>
     move_actor b = HumanActor \<and> move_from b \<noteq> Escalated \<and> move_to b \<noteq> Escalated"

definition move_row :: "move_body \<Rightarrow> nat \<Rightarrow> task_row \<Rightarrow> task_row" where
  "move_row b at_seq r =
     (let has_a_branch = NothingToIntegrateItem \<notin> set (move_effects b) in
      r\<lparr>row_status := move_to b, row_assignee := move_assignee b, row_reviewer := move_reviewer b,
        row_iteration := move_iteration b, updated_seq := at_seq, awaiting_approval := False,
        counted_seq := (if counted_status (move_to b) \<and> \<not> counted_status (row_status r)
                        then Some at_seq else counted_seq r),
        awaiting_integration := (if move_to b = Accepted then row_kind r = Task \<and> has_a_branch
                                 else if row_status r = Accepted then False
                                 else awaiting_integration r),
        verifications := verifications r + (if move_to b = Verifying then 1 else 0),
        rejections := rejections r + (if move_to b = Rejected then 1 else 0),
        interventions := interventions r + (if is_intervention b then 1 else 0)\<rparr>)"

definition apply_move :: "string \<Rightarrow> move_body \<Rightarrow> nat \<Rightarrow> tables \<Rightarrow> tables" where
  "apply_move i b at_seq = update i (move_row b at_seq)"

definition waits :: "task_row \<Rightarrow> bool" where
  "waits r \<longleftrightarrow> 0 < open_questions r \<or> 0 < open_approvals r \<or> 0 < open_plans r"

fun wait_row :: "waiting_event \<Rightarrow> nat \<Rightarrow> task_row \<Rightarrow> task_row" where
  "wait_row (QuestionAsked _ _) n r = r\<lparr>open_questions := open_questions r + 1, updated_seq := n\<rparr>"
| "wait_row (TeamQuestionAsked _ _ _) n r = r\<lparr>open_questions := open_questions r + 1, updated_seq := n\<rparr>"
| "wait_row (QuestionAnswered _) n r = r\<lparr>open_questions := open_questions r - 1, updated_seq := n\<rparr>"
| "wait_row (TeamQuestionAnswered _ _ _) n r = r\<lparr>open_questions := open_questions r - 1, updated_seq := n\<rparr>"
| "wait_row (ToolApprovalRequested _ _ _) n r = r\<lparr>open_approvals := open_approvals r + 1, updated_seq := n\<rparr>"
| "wait_row (ToolApprovalGranted _) n r = r\<lparr>open_approvals := open_approvals r - 1, updated_seq := n\<rparr>"
| "wait_row (ToolApprovalRefused _) n r = r\<lparr>open_approvals := open_approvals r - 1, updated_seq := n\<rparr>"
| "wait_row MarketingPlanProposed n r = r\<lparr>open_plans := open_plans r + 1, updated_seq := n\<rparr>"
| "wait_row MarketingPlanApproved n r = r\<lparr>open_plans := open_plans r - 1, updated_seq := n\<rparr>"
| "wait_row MarketingPlanReturned n r = r\<lparr>open_plans := open_plans r - 1, updated_seq := n\<rparr>"
| "wait_row (EscalationRaised reason _) n r =
     (let is_approval = (reason = Approval \<or> reason = RiskGate) in
      r\<lparr>awaiting_approval := is_approval,
        interventions := interventions r + (if is_approval then 0 else 1), updated_seq := n\<rparr>)"

definition apply_wait_counts :: "string \<Rightarrow> waiting_event \<Rightarrow> nat \<Rightarrow> tables \<Rightarrow> tables" where
  "apply_wait_counts i w n = update i (wait_row w n)"

definition waiting_now :: "tables \<Rightarrow> string \<Rightarrow> bool" where
  "waiting_now t i = (case row_in t i of None \<Rightarrow> False | Some r \<Rightarrow> waits r)"

definition apply_waiting :: "string \<Rightarrow> waiting_event \<Rightarrow> nat \<Rightarrow> tables \<Rightarrow> tables" where
  "apply_waiting i w n t =
     (let t' = apply_wait_counts i w n t in
      if waiting_now t i \<and> \<not> waiting_now t' i
      then update_where (\<lambda>r. row_task r = i \<and> counted_status (row_status r))
             (\<lambda>r. r\<lparr>counted_seq := Some n\<rparr>) t'
      else t')"

definition open_sprint :: "tables \<Rightarrow> string \<Rightarrow> bool" where
  "open_sprint t s = list_ex (\<lambda>r. sprint_id r = s \<and> sprint_open r) (sprints t)"

fun apply_sprint :: "sprint_event \<Rightarrow> nat \<Rightarrow> tables \<Rightarrow> tables" where
  "apply_sprint (SprintStarted s usd) n t =
     t\<lparr>sprints := (if list_ex (\<lambda>r. sprint_id r = s) (sprints t)
        then map (\<lambda>r. if sprint_id r = s then r\<lparr>sprint_budget := usd, sprint_open := True\<rparr> else r) (sprints t)
        else sprints t @ [\<lparr>sprint_id = s, sprint_budget = usd, sprint_open = True\<rparr>])\<rparr>"
| "apply_sprint (SprintPlanned s tasks) n t =
     foldl (\<lambda>u i. if open_sprint u s
              then update i (\<lambda>r. r\<lparr>row_sprint := Some s, left_for_the_backlog := False, updated_seq := n\<rparr>) u
              else u) t tasks"
| "apply_sprint (SprintEnded s left backlog) n t =
     (let closed = t\<lparr>sprints := map (\<lambda>r. if sprint_id r = s then r\<lparr>sprint_open := False\<rparr> else r) (sprints t)\<rparr>;
          out = update_where (\<lambda>r. row_sprint r = Some s \<and> row_status r \<noteq> Accepted \<and> row_status r \<noteq> Cancelled)
                  (\<lambda>r. r\<lparr>row_sprint := None, updated_seq := n\<rparr>) closed
      in if backlog = Some True
         then foldl (\<lambda>u i. update i (\<lambda>r. r\<lparr>left_for_the_backlog := True\<rparr>) u) out left
         else out)"

text \<open>The UTC day of an instant, as the number of days since 1970; an instant is in nanoseconds.\<close>

definition utc_day :: "date_time \<Rightarrow> int" where
  "utc_day instant = instant div 86400000000000"

definition write_cost :: "event \<Rightarrow> session_purpose \<Rightarrow> f64 \<Rightarrow> tables \<Rightarrow> tables" where
  "write_cost e purpose usd t =
     t\<lparr>cost_records := cost_records t
        @ [\<lparr>cost_seq = seq e, cost_task = about_task (ids e), cost_agent = by_agent (ids e),
            cost_session = in_session (ids e), cost_purpose = purpose,
            cost_day = utc_day (recorded_at e), cost_of_row = usd,
            cost_sprint = (case about_task (ids e) of None \<Rightarrow> None
                           | Some i \<Rightarrow> (case row_in t i of None \<Rightarrow> None | Some r \<Rightarrow> row_sprint r))\<rparr>]\<rparr>"

section \<open>Applying an event\<close>

text \<open>The second match of \<open>apply_to\<close>, on an event about the task \<open>i\<close>.\<close>

fun apply_about :: "string \<Rightarrow> event_body \<Rightarrow> nat \<Rightarrow> tables \<Rightarrow> tables" where
  "apply_about i (TaskCreated summary raises plan_of given) n t =
     (let t' = write_summary i summary n t in
      if raises \<or> plan_of \<noteq> None then update i (\<lambda>r. r\<lparr>skips_sprints := True\<rparr>) t' else t')"
| "apply_about i (ContractWritten summary) n t = write_summary i summary n t"
| "apply_about i (RequestTriaged sized) n t =
     update i (\<lambda>r. r\<lparr>row_triaged := True, row_kind := (if sized = Large then Epic else Task),
                     updated_seq := n\<rparr>) t"
| "apply_about i ContractLocked n t = set_locked i True n t"
| "apply_about i ContractUnlocked n t = set_locked i False n t"
| "apply_about i (TaskTransitioned b) n t = apply_move i b n t"
| "apply_about i (TaskReassigned _ to) n t =
     update i (\<lambda>r. r\<lparr>row_assignee := Some to, counted_seq := Some n, updated_seq := n\<rparr>) t"
| "apply_about i TaskIntegrated n t =
     update i (\<lambda>r. r\<lparr>awaiting_integration := False, updated_seq := n\<rparr>) t"
| "apply_about i (WaitingEvent w) n t = apply_waiting i w n t"
| "apply_about i _ n t = t"

definition apply_to :: "event \<Rightarrow> tables \<Rightarrow> (store_error, tables) result" where
  "apply_to e t =
     (if SEQ_MAX < seq e then Inl (PastTheEngine (seq e)) else Inr
       (let t' = (case body e of CostRecorded purpose usd \<Rightarrow> write_cost e purpose usd t | _ \<Rightarrow> t) in
        case body e of
          SprintEvent s \<Rightarrow> apply_sprint s (seq e) t'
        | TeamUpdated (Some False) \<Rightarrow>
            update_where left_for_the_backlog (\<lambda>r. r\<lparr>left_for_the_backlog := False\<rparr>) t'
        | _ \<Rightarrow> (case about_task (ids e) of None \<Rightarrow> t' | Some i \<Rightarrow> apply_about i (body e) (seq e) t')))"

definition apply_in_order :: "event \<Rightarrow> tables \<Rightarrow> (store_error, tables) result" where
  "apply_in_order e t =
     (if seq e \<le> cursor t then Inr t
      else and_then (apply_to e t) (\<lambda>t'. Inr (t'\<lparr>cursor := seq e\<rparr>)))"

fun apply_all :: "log \<Rightarrow> tables \<Rightarrow> (store_error, tables) result" where
  "apply_all [] t = Inr t"
| "apply_all (e # es) t = and_then (apply_in_order e t) (apply_all es)"

definition catch_up :: "log \<Rightarrow> tables \<Rightarrow> (store_error, tables) result" where
  "catch_up l t = apply_all (read_after l (cursor t)) t"

definition apply_event :: "log \<Rightarrow> event \<Rightarrow> tables \<Rightarrow> (store_error, tables) result" where
  "apply_event l e t =
     (if min (cursor t + 1) 18446744073709551615 < seq e then catch_up l t else apply_in_order e t)"

definition rebuild :: "log \<Rightarrow> tables \<Rightarrow> (store_error, tables) result" where
  "rebuild l t =
     catch_up l (t\<lparr>task_rows := [], cost_records := [], sprints := [], cursor := 0\<rparr>)"

definition open_projections :: "log \<Rightarrow> tables \<Rightarrow> (store_error, tables) result" where
  "open_projections = catch_up"

section \<open>Reading the board\<close>

record board_row =
  b_task :: string
  b_kind :: kind
  b_parent :: "string option"
  b_title :: string
  b_status :: task_status
  b_risk :: risk
  b_triaged :: bool
  b_locked :: bool
  b_updated_seq :: nat
  b_cost_usd :: f64
  b_assignee :: "string option"
  b_reviewer :: "string option"
  b_iteration :: u32
  b_awaiting_integration :: bool
  b_waiting_on_human :: bool
  b_awaiting_approval :: bool
  b_verifications :: u32
  b_rejections :: u32
  b_interventions :: u32
  b_sprint :: "string option"
  b_left_for_the_backlog :: bool
  b_skips_sprints :: bool
  b_counted_seq :: "nat option"

definition row_counts_towards_wip :: "board_row \<Rightarrow> bool" where
  "row_counts_towards_wip r \<longleftrightarrow> counted_status (b_status r) \<and> \<not> b_waiting_on_human r"

definition u32_try :: "nat \<Rightarrow> u32 option" where
  "u32_try n = (if n < 2 ^ 32 then Some (of_nat n) else None)"

definition projection_of_row :: "f64 \<Rightarrow> task_row \<Rightarrow> (store_error, board_row) result" where
  "projection_of_row cost r =
     (case u32_try (verifications r) of
        None \<Rightarrow> Inl (UnreadableRow (row_task r) ''verifications'')
      | Some v \<Rightarrow> (case u32_try (rejections r) of
        None \<Rightarrow> Inl (UnreadableRow (row_task r) ''rejections'')
      | Some j \<Rightarrow> (case u32_try (interventions r) of
        None \<Rightarrow> Inl (UnreadableRow (row_task r) ''interventions'')
      | Some v' \<Rightarrow> Inr
        \<lparr>b_task = row_task r, b_kind = row_kind r, b_parent = row_parent r, b_title = row_title r,
         b_status = row_status r, b_risk = row_risk r, b_triaged = row_triaged r,
         b_locked = row_locked r, b_updated_seq = updated_seq r, b_cost_usd = cost,
         b_assignee = row_assignee r, b_reviewer = row_reviewer r, b_iteration = row_iteration r,
         b_awaiting_integration = awaiting_integration r, b_waiting_on_human = waits r,
         b_awaiting_approval = awaiting_approval r, b_verifications = v, b_rejections = j,
         b_interventions = v', b_sprint = row_sprint r,
         b_left_for_the_backlog = left_for_the_backlog r, b_skips_sprints = skips_sprints r,
         b_counted_seq = counted_seq r\<rparr>)))"

text \<open>\<open>SUM(cost_usd)\<close> adds floats in an order of SQLite's: it is the parameter \<open>sum_usd\<close>.\<close>

definition cost_on :: "(f64 list \<Rightarrow> f64) \<Rightarrow> tables \<Rightarrow> string \<Rightarrow> f64" where
  "cost_on sum_usd t i =
     sum_usd (map cost_of_row (filter (\<lambda>c. cost_task c = Some i) (cost_records t)))"

text \<open>\<open>BY_NUMBER\<close>: the number after \<open>CTV-\<close>, then the id itself. A task id has one to six digits there.\<close>

definition number_in :: "string \<Rightarrow> nat" where
  "number_in i = foldl (\<lambda>n c. 10 * n + (code_point c - 48)) 0 (takeWhile is_digit_ascii (drop 4 i))"

definition by_number :: "task_row \<Rightarrow> nat \<times> string" where
  "by_number r = (number_in (row_task r), row_task r)"

fun each_ok :: "('e, 'a) result list \<Rightarrow> ('e, 'a list) result" where
  "each_ok [] = Inr []"
| "each_ok (r # rs) = and_then r (\<lambda>a. and_then (each_ok rs) (\<lambda>as. Inr (a # as)))"

definition board :: "(f64 list \<Rightarrow> f64) \<Rightarrow> tables \<Rightarrow> (store_error, board_row list) result" where
  "board sum_usd t =
     each_ok (map (\<lambda>r. projection_of_row (cost_on sum_usd t (row_task r)) r)
       (sort_key by_number (task_rows t)))"

definition task_on :: "(f64 list \<Rightarrow> f64) \<Rightarrow> tables \<Rightarrow> string \<Rightarrow> (store_error, board_row option) result" where
  "task_on sum_usd t i =
     (case row_in t i of
        None \<Rightarrow> Inr None
      | Some r \<Rightarrow> and_then (projection_of_row (cost_on sum_usd t i) r) (\<lambda>b. Inr (Some b)))"

section \<open>The tables are a replay of the log\<close>

definition replay :: "log \<Rightarrow> (store_error, tables) result" where
  "replay l = apply_all l empty_tables"

fun hand_over :: "log \<Rightarrow> log \<Rightarrow> tables \<Rightarrow> (store_error, tables) result" where
  "hand_over l [] t = Inr t"
| "hand_over l (e # es) t = and_then (apply_event l e t) (hand_over l es)"

definition is_replay :: "log \<Rightarrow> tables \<Rightarrow> bool" where
  "is_replay l t \<longleftrightarrow> cursor t \<le> length l \<and> replay (take (cursor t) l) = Inr t"

lemma cursor_updates [simp]:
  "cursor (update_where p f t) = cursor t" "cursor (update i f t) = cursor t"
  by (simp_all add: update_where_def update_def)

lemma cursor_write_summary [simp]: "cursor (write_summary i s n t) = cursor t"
  by (simp add: write_summary_def split: option.split)

lemma apply_all_append:
  "apply_all (xs @ ys) t = and_then (apply_all xs t) (apply_all ys)"
  by (induction xs arbitrary: t) (simp_all add: and_then_def split: sum.split)

lemma apply_in_order_next:
  assumes "seq e \<le> SEQ_MAX"
  shows "\<exists>t'. apply_in_order e t = Inr t' \<and> cursor t' = max (cursor t) (seq e)"
proof (cases "seq e \<le> cursor t")
  case False
  obtain u where "apply_to e t = Inr u"
    using assms by (simp add: apply_to_def)
  then show ?thesis using False by (simp add: apply_in_order_def)
qed (simp add: apply_in_order_def)

lemma apply_all_Inr:
  assumes "\<forall>e \<in> set es. seq e \<le> SEQ_MAX"
  shows "\<exists>t'. apply_all es t = Inr t' \<and> cursor t' = fold max (map seq es) (cursor t)"
  using assms
proof (induction es arbitrary: t)
  case (Cons e es)
  then obtain t' where "apply_in_order e t = Inr t'" "cursor t' = max (cursor t) (seq e)"
    using apply_in_order_next [of e t] by auto
  then show ?case using Cons.IH [of t'] Cons.prems by (auto simp: max.commute)
qed simp

lemma well_numbered_le_max:
  assumes "well_numbered l" and "e \<in> set l"
  shows "seq e \<le> length l \<and> seq e \<le> SEQ_MAX \<and> 0 < seq e"
  using assms by (auto simp: in_set_conv_nth well_numbered_nth well_numbered_def)

lemma well_numbered_take: "well_numbered l \<Longrightarrow> well_numbered (take n l)"
  by (auto simp: well_numbered_def take_map [symmetric] min_def)

lemma cursor_replay:
  assumes "well_numbered l" and "replay l = Inr t"
  shows "cursor t = length l"
  using assms
proof (induction l arbitrary: t rule: rev_induct)
  case (snoc e l)
  then obtain u where "replay l = Inr u" "apply_in_order e u = Inr t"
    by (auto simp: replay_def apply_all_append and_then_def split: sum.splits)
  moreover have "seq e \<le> SEQ_MAX" "seq e = length l + 1"
    using snoc.prems(1) by (auto simp: well_numbered_snoc)
  ultimately show ?case
    using snoc.IH snoc.prems(1) apply_in_order_next [of e u] by (auto simp: well_numbered_snoc)
qed (simp add: replay_def empty_tables_def)

lemma replay_Inr: "well_numbered l \<Longrightarrow> \<exists>t. replay l = Inr t"
  using apply_all_Inr [of l empty_tables] well_numbered_le_max [of l] unfolding replay_def by blast

lemma is_replay_empty [simp]: "is_replay l empty_tables"
  by (simp add: is_replay_def replay_def empty_tables_def)

lemma is_replay_grows: "is_replay l t \<Longrightarrow> is_replay (l @ l') t"
  by (simp add: is_replay_def)

lemma catch_up_replays:
  assumes "well_numbered l" and "is_replay l t"
  shows "catch_up l t = replay l"
proof -
  have "replay l = replay (take (cursor t) l @ drop (cursor t) l)" by simp
  also have "\<dots> = apply_all (drop (cursor t) l) t"
    unfolding replay_def apply_all_append using assms(2) by (simp add: is_replay_def replay_def)
  finally show ?thesis using assms(1) by (simp add: catch_up_def read_after_drop)
qed

lemma is_replay_iff_whole: "well_numbered l \<Longrightarrow> replay l = Inr t \<Longrightarrow> is_replay l t"
  by (simp add: is_replay_def cursor_replay)

lemma apply_event_replays:
  assumes l: "well_numbered l" and t: "is_replay l t" and e: "e \<in> set l"
  shows "\<exists>t'. apply_event l e t = Inr t' \<and> is_replay l t' \<and> seq e \<le> cursor t' \<and> cursor t \<le> cursor t'"
proof -
  from e l obtain i where i: "i < length l" "e = l ! i" "seq e = i + 1"
    by (auto simp: in_set_conv_nth well_numbered_nth)
  have len: "length l \<le> SEQ_MAX" using l by (simp add: well_numbered_def)
  have small: "cursor t + 1 \<le> 18446744073709551615"
    using t len by (auto simp: is_replay_def SEQ_MAX_def)
  consider "cursor t + 1 < seq e" | "seq e = cursor t + 1" | "seq e \<le> cursor t" by linarith
  then show ?thesis
  proof cases
    case 1
    obtain t' where t': "replay l = Inr t'" using replay_Inr [OF l] by blast
    have "apply_event l e t = catch_up l t" using 1 small by (simp add: apply_event_def)
    then show ?thesis
      using t' catch_up_replays [OF l t] is_replay_iff_whole [OF l t'] cursor_replay [OF l t'] i t
      by (auto simp: is_replay_def)
  next
    case 2
    then have here: "cursor t = i" using i by simp
    obtain t' where t': "apply_in_order e t = Inr t'" "cursor t' = max (cursor t) (seq e)"
      using apply_in_order_next [of e t] well_numbered_le_max [OF l e] by blast
    have "replay (take (Suc i) l) = Inr t'"
      using t t'(1) i here
      by (simp add: take_Suc_conv_app_nth replay_def apply_all_append is_replay_def)
    then have "is_replay l t'" using t'(2) 2 i by (simp add: is_replay_def)
    then show ?thesis using t' 2 small by (auto simp: apply_event_def)
  next
    case 3
    then show ?thesis using t small by (auto simp: apply_event_def apply_in_order_def)
  qed
qed

text \<open>
  C34: However the events of a log are handed to the projections - in any order, again, with
  gaps - every hand-over succeeds and the tables are those of a replay of the log up to the
  cursor, which is past every event handed over. Catching up from there, or throwing the tables
  away and rebuilding them, gives the replay of the whole log.
\<close>

theorem projections_are_a_replay:
  assumes "well_numbered l" and "set es \<subseteq> set l"
  shows "\<exists>t. hand_over l es empty_tables = Inr t
    \<and> replay (take (cursor t) l) = Inr t \<and> (\<forall>e \<in> set es. seq e \<le> cursor t)
    \<and> catch_up l t = replay l \<and> rebuild l t = replay l"
proof -
  have "\<exists>t'. hand_over l es t = Inr t' \<and> is_replay l t' \<and> cursor t \<le> cursor t'
          \<and> (\<forall>e \<in> set es. seq e \<le> cursor t')" if "is_replay l t" for t
    using that assms(2)
  proof (induction es arbitrary: t)
    case (Cons e es)
    then obtain u where "apply_event l e t = Inr u" "is_replay l u" "seq e \<le> cursor u"
      "cursor t \<le> cursor u"
      using apply_event_replays [OF assms(1)] by (metis list.set_intros(1) subsetD)
    then show ?case using Cons.IH [of u] Cons.prems(2) by fastforce
  qed simp
  from this [of empty_tables] obtain t where t: "hand_over l es empty_tables = Inr t" "is_replay l t"
    "\<forall>e \<in> set es. seq e \<le> cursor t"
    by auto
  have "t\<lparr>task_rows := [], cost_records := [], sprints := [], cursor := 0\<rparr> = empty_tables"
    by (simp add: empty_tables_def)
  then show ?thesis
    using t catch_up_replays [OF assms(1)] is_replay_empty
    by (auto simp: rebuild_def is_replay_def)
qed

definition sample_summary :: contract_summary where
  "sample_summary = \<lparr>summary_kind = Task, summary_parent = None, summary_title = ''Fix the parser'',
     summary_status = Draft, summary_risk = Low\<rparr>"

definition sample_event :: "nat \<Rightarrow> event_body \<Rightarrow> event" where
  "sample_event n b = \<lparr>seq = n, recorded_at = 0,
     ids = \<lparr>about_task = Some ''CTV-7'', by_agent = None, in_session = None\<rparr>, body = b\<rparr>"

definition sample_log :: log where
  "sample_log = [sample_event 1 (TaskCreated sample_summary False None None),
     sample_event 2 (WaitingEvent (QuestionAsked ''agent_1'' ''which parser'')),
     sample_event 3 (RequestTriaged Small)]"

lemma sample_log_numbered: "well_numbered sample_log"
  by (simp add: sample_log_def sample_event_def well_numbered_def SEQ_MAX_def upt_rec)

lemmas run_defs = apply_event_def apply_in_order_def apply_to_def catch_up_def read_after_def
  SEQ_MAX_def empty_tables_def apply_waiting_def apply_wait_counts_def waiting_now_def row_in_def
  waits_def update_def update_where_def write_summary_def new_row_def sample_summary_def
  counted_status_def apply_move_def move_row_def

theorem projections_are_a_replay_witness:
  "\<exists>t. hand_over sample_log [sample_log ! 2, sample_log ! 0, sample_log ! 2] empty_tables = Inr t
    \<and> rebuild sample_log t = Inr t \<and> map row_triaged (task_rows t) = [True]"
proof -
  have sub: "set [sample_log ! 2, sample_log ! 0, sample_log ! 2] \<subseteq> set sample_log"
    by (simp add: sample_log_def)
  have triaged: "case hand_over sample_log [sample_log ! 2, sample_log ! 0, sample_log ! 2] empty_tables of
      Inl _ \<Rightarrow> False | Inr t \<Rightarrow> map row_triaged (task_rows t) = [True]"
    by (simp add: sample_log_def sample_event_def run_defs)
  obtain t where t: "hand_over sample_log [sample_log ! 2, sample_log ! 0, sample_log ! 2] empty_tables = Inr t"
    "replay (take (cursor t) sample_log) = Inr t" "3 \<le> cursor t" "rebuild sample_log t = replay sample_log"
    using projections_are_a_replay [OF sample_log_numbered sub]
    by (auto simp: sample_log_def sample_event_def)
  have "take (cursor t) sample_log = sample_log" using t(3) by (simp add: sample_log_def)
  then show ?thesis using t triaged by auto
qed

section \<open>Every row can be read back\<close>

definition row_kept :: "nat \<Rightarrow> task_row \<Rightarrow> bool" where
  "row_kept n r \<longleftrightarrow> updated_seq r \<le> n \<and> (\<forall>s. counted_seq r = Some s \<longrightarrow> s \<le> n)
     \<and> verifications r \<le> n \<and> rejections r \<le> n \<and> interventions r \<le> n"

definition tables_kept :: "nat \<Rightarrow> tables \<Rightarrow> bool" where
  "tables_kept n t \<longleftrightarrow>
     distinct (map row_task (task_rows t)) \<and> (\<forall>r \<in> set (task_rows t). row_kept n r)"

text \<open>What one event may do to a row: it keeps the id, and from a row kept up to \<open>m\<close> it makes one
  kept up to \<open>n\<close>.\<close>

definition keeps :: "nat \<Rightarrow> nat \<Rightarrow> (task_row \<Rightarrow> task_row) \<Rightarrow> bool" where
  "keeps m n f \<longleftrightarrow> (\<forall>r. row_task (f r) = row_task r \<and> (row_kept m r \<longrightarrow> row_kept n (f r)))"

lemma row_kept_mono: "row_kept m r \<Longrightarrow> m \<le> n \<Longrightarrow> row_kept n r"
  unfolding row_kept_def by (meson le_trans)

lemma update_where_kept:
  assumes "tables_kept m t" and "keeps m n f" and "m \<le> n"
  shows "tables_kept n (update_where p f t)"
  using assms row_kept_mono unfolding tables_kept_def update_where_def keeps_def
  by (auto simp: comp_def if_distrib cong: if_cong)

lemma update_kept: "tables_kept m t \<Longrightarrow> keeps m n f \<Longrightarrow> m \<le> n \<Longrightarrow> tables_kept n (update i f t)"
  by (simp add: update_def update_where_kept)

lemma tables_kept_mono: "tables_kept m t \<Longrightarrow> m \<le> n \<Longrightarrow> tables_kept n t"
  unfolding tables_kept_def using row_kept_mono by blast

lemma tables_kept_cong: "task_rows t' = task_rows t \<Longrightarrow> tables_kept n t' = tables_kept n t"
  by (simp add: tables_kept_def)

lemma foldl_kept:
  assumes "\<And>u i. tables_kept n u \<Longrightarrow> tables_kept n (f u i)" and "tables_kept n t"
  shows "tables_kept n (foldl f t is)"
  using assms(2) by (induction "is" arbitrary: t) (auto intro: assms(1))

lemma row_in_None: "row_in t i = None \<longleftrightarrow> i \<notin> row_task ` set (task_rows t)"
  by (auto simp: row_in_def find_None_iff)

lemma write_summary_kept:
  assumes "tables_kept m t" and "m \<le> n"
  shows "tables_kept n (write_summary i s n t)"
proof (cases "row_in t i")
  case None
  then have "write_summary i s n t = t\<lparr>task_rows := task_rows t @ [new_row i s n]\<rparr>"
    by (simp add: write_summary_def)
  then show ?thesis using tables_kept_mono [OF assms] None row_in_None [of t i]
    by (auto simp: tables_kept_def row_kept_def new_row_def)
next
  case (Some r)
  then show ?thesis using assms
    by (auto simp: write_summary_def row_kept_def keeps_def intro!: update_kept)
qed

lemma wait_row_keeps: "m < n \<Longrightarrow> keeps m n (wait_row w n)"
  by (cases w) (auto simp: keeps_def row_kept_def Let_def)

lemma move_row_keeps: "m < n \<Longrightarrow> keeps m n (move_row b n)"
  by (auto simp: keeps_def row_kept_def move_row_def Let_def)

lemma apply_about_kept:
  assumes "tables_kept m t" and "m < n"
  shows "tables_kept n (apply_about i b n t)"
  using assms
  by (cases b)
    (auto simp: Let_def apply_move_def apply_waiting_def apply_wait_counts_def set_locked_def
      intro!: update_kept update_where_kept write_summary_kept move_row_keeps wait_row_keeps
      simp: keeps_def row_kept_def elim: tables_kept_mono)

lemma apply_sprint_kept:
  assumes "tables_kept m t" and "m < n"
  shows "tables_kept n (apply_sprint s n t)"
proof (cases s)
  case (SprintStarted i usd)
  have "tables_kept n t" using assms by (auto elim: tables_kept_mono)
  then show ?thesis using SprintStarted by (simp add: tables_kept_def)
next
  case (SprintPlanned i tasks)
  have "tables_kept n t" using assms by (auto elim: tables_kept_mono)
  then show ?thesis
    unfolding SprintPlanned apply_sprint.simps
    by (intro foldl_kept) (auto intro!: update_kept simp: keeps_def row_kept_def)
next
  case (SprintEnded i left backlog)
  let ?closed = "t\<lparr>sprints := map (\<lambda>r. if sprint_id r = i then r\<lparr>sprint_open := False\<rparr> else r) (sprints t)\<rparr>"
  have "tables_kept m ?closed" using assms(1) by (simp add: tables_kept_def)
  then have "tables_kept n (update_where (\<lambda>r. row_sprint r = Some i \<and> row_status r \<noteq> Accepted \<and> row_status r \<noteq> Cancelled)
      (\<lambda>r. r\<lparr>row_sprint := None, updated_seq := n\<rparr>) ?closed)"
    by (rule update_where_kept) (use assms(2) in \<open>auto simp: keeps_def row_kept_def\<close>)
  then show ?thesis
    unfolding SprintEnded apply_sprint.simps Let_def
    by (auto intro!: foldl_kept update_kept simp: keeps_def row_kept_def)
qed

lemma write_cost_rows: "task_rows (write_cost e purpose usd t) = task_rows t"
  by (simp add: write_cost_def)

lemma apply_in_order_kept:
  assumes kept: "tables_kept (cursor t) t" and ok: "apply_in_order e t = Inr t'"
  shows "tables_kept (cursor t') t'"
proof (cases "seq e \<le> cursor t")
  case True
  then show ?thesis using assms by (simp add: apply_in_order_def)
next
  case False
  let ?n = "seq e"
  define u where "u = (case body e of CostRecorded purpose usd \<Rightarrow> write_cost e purpose usd t | _ \<Rightarrow> t)"
  have u: "tables_kept (cursor t) u" "cursor t < ?n"
    using kept False by (auto simp: u_def write_cost_rows tables_kept_def split: event_body.split)
  obtain v where v: "apply_to e t = Inr v" "t' = v\<lparr>cursor := ?n\<rparr>"
    using ok False by (auto simp: apply_in_order_def and_then_def split: sum.splits)
  have about: "tables_kept ?n (case about_task (ids e) of None \<Rightarrow> u | Some i \<Rightarrow> apply_about i (body e) ?n u)"
    using u apply_about_kept [of "cursor t" u ?n] by (auto split: option.split elim: tables_kept_mono)
  have "tables_kept ?n (update_where left_for_the_backlog (\<lambda>r. r\<lparr>left_for_the_backlog := False\<rparr>) u)"
    by (rule update_where_kept [OF u(1)]) (use u(2) in \<open>auto simp: keeps_def row_kept_def\<close>)
  then have "tables_kept ?n v"
    using v(1) about apply_sprint_kept [OF u] unfolding apply_to_def Let_def u_def [symmetric]
    by (auto split: if_splits event_body.splits option.splits bool.splits)
  then show ?thesis using v(2) by (simp add: tables_kept_def)
qed

lemma apply_all_kept:
  "tables_kept (cursor t) t \<Longrightarrow> apply_all es t = Inr t' \<Longrightarrow> tables_kept (cursor t') t'"
proof (induction es arbitrary: t)
  case (Cons e es)
  then show ?case using apply_in_order_kept [of t e]
    by (cases "apply_in_order e t") auto
qed simp

lemma replay_kept:
  assumes "well_numbered l" and "replay l = Inr t"
  shows "tables_kept (length l) t"
proof -
  have "tables_kept (cursor empty_tables) empty_tables" by (simp add: tables_kept_def empty_tables_def)
  then show ?thesis
    using apply_all_kept assms cursor_replay [OF assms] by (metis replay_def)
qed

lemma each_ok_Inr:
  assumes "\<And>x. x \<in> set xs \<Longrightarrow> \<exists>y. f x = Inr y \<and> P x y"
  shows "\<exists>ys. each_ok (map f xs) = Inr ys \<and> list_all2 P xs ys"
  using assms
proof (induction xs)
  case (Cons x xs)
  then obtain y ys where "f x = Inr y" "P x y" "each_ok (map f xs) = Inr ys" "list_all2 P xs ys"
    by (meson list.set_intros)
  then show ?case by simp
qed simp

lemma projection_of_row_reads:
  assumes "row_kept n r" and "n < 2 ^ 32"
  shows "\<exists>b. projection_of_row c r = Inr b \<and> b_task b = row_task r \<and> b_status b = row_status r
    \<and> b_assignee b = row_assignee r \<and> b_reviewer b = row_reviewer r \<and> b_iteration b = row_iteration r
    \<and> b_waiting_on_human b = waits r
    \<and> unat (b_verifications b) = verifications r \<and> unat (b_rejections b) = rejections r
    \<and> unat (b_interventions b) = interventions r"
  using assms
  by (auto simp: projection_of_row_def u32_try_def row_kept_def unat_of_nat take_bit_nat_def)

lemma list_all2_map_eq: "list_all2 (\<lambda>x y. g y = f x \<and> Q x y) xs ys \<Longrightarrow> map g ys = map f xs"
  by (induction rule: list_all2_induct) auto

text \<open>
  A board can always be read: for any log short of \<open>2 ^ 32\<close> events, every row the replay
  makes is read back (no count is outside a \<open>u32\<close>), each task once, in the order of the task
  numbers and then the ids.
\<close>

theorem board_reads:
  assumes "well_numbered l" and "length l < 2 ^ 32" and "replay l = Inr t"
  shows "\<exists>b. board sum_usd t = Inr b \<and> distinct (map b_task b)
    \<and> set (map b_task b) = set (map row_task (task_rows t))
    \<and> sorted (map (\<lambda>r. (number_in (b_task r), b_task r)) b)"
proof -
  let ?rows = "sort_key by_number (task_rows t)"
  have kept: "distinct (map row_task (task_rows t))" "\<And>r. r \<in> set (task_rows t) \<Longrightarrow> row_kept (length l) r"
    using replay_kept [OF assms(1,3)] by (auto simp: tables_kept_def)
  have "\<exists>b. board sum_usd t = Inr b \<and> list_all2 (\<lambda>r b. b_task b = row_task r \<and> True) ?rows b"
    unfolding board_def
    by (rule each_ok_Inr) (use kept(2) projection_of_row_reads [OF _ assms(2)] in fastforce)
  then obtain b where b: "board sum_usd t = Inr b" "map b_task b = map row_task ?rows"
    using list_all2_map_eq [of b_task row_task "\<lambda>_ _. True"] by blast
  have "map (\<lambda>r. (number_in (b_task r), b_task r)) b = map (\<lambda>i. (number_in i, i)) (map b_task b)"
    by simp
  also have "\<dots> = map by_number ?rows" unfolding b(2) by (simp add: by_number_def)
  finally have "sorted (map (\<lambda>r. (number_in (b_task r), b_task r)) b)"
    using sorted_sort_key [of by_number "task_rows t"] by simp
  moreover have "distinct (map b_task b)"
    unfolding b(2) using kept(1)
    by (simp add: distinct_map)
  moreover have "set (map b_task b) = set (map row_task (task_rows t))"
    unfolding b(2) by simp
  ultimately show ?thesis using b(1) by blast
qed

theorem board_reads_witness:
  "\<exists>t b. replay sample_log = Inr t \<and> board (\<lambda>_. Finite 0) t = Inr b \<and> distinct (map b_task b)"
proof -
  obtain t where t: "replay sample_log = Inr t" using replay_Inr [OF sample_log_numbered] by blast
  have "length sample_log < 2 ^ 32" by (simp add: sample_log_def)
  from board_reads [OF sample_log_numbered this t, of "\<lambda>_. Finite 0"] t show ?thesis by blast
qed

end
