(* ===== verification/Connectors.thy ===== *)
theory Connectors
  imports Permissions
begin

text \<open>
  The connector rules of crates/core/src/team.rs (\<open>server_errors\<close> and what it calls): what an
  \<open>mcp_servers\<close> entry of the team file may hold. Each refusal is the field it is at and a
  constructor for its message. The file is shared, so most rules keep a key out of it; the theorem
  says what an accepted entry cannot hold.
\<close>

datatype server_source = Builtin | Custom | Kit
datatype server_transport = Stdio | Http

record oauth_settings =
  client_id :: "string option"
  callback_port :: "u64 option"
  scopes :: "string list"

record server_entry =
  entry_name :: string
  entry_source :: server_source
  entry_transport :: "server_transport option"
  entry_command :: "string option"
  entry_args :: "string list"
  entry_url :: "string option"
  entry_headers :: "(string \<times> string) list"
  entry_keys :: "string list option"
  entry_tools :: "(string \<times> connector_tag) list"
  entry_allowances :: "(string \<times> u64) list"
  entry_oauth :: "oauth_settings option"

datatype server_fault =
    UnknownConnector string
  | BuiltinHasNo string
  | NameReserved string
  | SayHowReached
  | HasNoField server_transport string
  | NeedsField server_transport string
  | CommandNotAbsolute string
  | ArgHoldsSecret nat
  | UrlHoldsSecret
  | HeaderKeyUnknown string
  | HeaderHoldsSecret string
  | OauthOnStdio
  | OauthWithKeys
  | OauthHeaderConflict
  | OwnConnectorClient
  | CallbackPortWithoutClient
  | AllowanceNotKit string
  | AllowanceNotPaid string

type_synonym server_refusal = "string \<times> server_fault"

section \<open>Keys in the arguments\<close>

definition lower_ascii :: "string \<Rightarrow> string" where
  "lower_ascii s = map to_lower_ascii s"

definition SECRET_WORDS :: "string list" where
  "SECRET_WORDS = [''authorization'', ''cookie'', ''key'', ''apikey'', ''token'', ''secret'', ''auth'',
     ''password'', ''passwd'', ''pass'', ''credential'', ''credentials'']"

definition names_a_secret :: "string \<Rightarrow> bool" where
  "names_a_secret header =
     list_ex (\<lambda>word. word \<in> set SECRET_WORDS) (split_on (\<lambda>c. c \<in> set ''-_'') (lower_ascii header))"

definition KEY_WORDS :: "string list" where
  "KEY_WORDS = [''apikey'', ''token'', ''password'', ''passwd'', ''pass'', ''secret'', ''auth'',
     ''pat'', ''credential'', ''credentials'']"

definition flag_names_a_key :: "string \<Rightarrow> bool" where
  "flag_names_a_key name =
     (let words = filter (\<lambda>w. w \<noteq> []) (split_on (\<lambda>c. c \<in> set ''-_'') (lower_ascii name)) in
      if words = [] \<or> hd words = ''no'' then False
      else if 2 \<le> length words \<and> last words = ''key''
      then last (butlast words) \<in> {''api'', ''access'', ''secret''}
      else last words \<in> set KEY_WORDS)"

definition is_a_value :: "string \<Rightarrow> bool" where
  "is_a_value v \<longleftrightarrow> v \<noteq> [] \<and> \<not> list_all is_digit_ascii v"

definition KEY_PREFIXES :: "string list" where
  "KEY_PREFIXES = [''sk-'', ''sk_live_'', ''sk_test_'', ''rk_live_'', ''rk_test_'', ''ghp_'',
     ''gho_'', ''ghs_'', ''github_pat_'', ''glpat-'', ''xoxb-'', ''xoxp-'']"

definition is_header_char :: "char \<Rightarrow> bool" where
  "is_header_char c \<longleftrightarrow> is_alphanumeric_ascii c \<or> c = CHR ''-'' \<or> c = CHR ''_''"

definition arg_is_a_key :: "string \<Rightarrow> bool" where
  "arg_is_a_key arg =
     (let prefixed = list_ex (starts_with arg) KEY_PREFIXES;
          aws = utf8_len arg = 20 \<and> starts_with arg ''AKIA''
                \<and> list_all (\<lambda>c. is_upper_ascii c \<or> is_digit_ascii c) arg;
          header = (case break_at (CHR '':'') arg of
                      None \<Rightarrow> False
                    | Some (name, v) \<Rightarrow> name \<noteq> [] \<and> list_all is_header_char name
                        \<and> names_a_secret name \<and> trim v \<noteq> []);
          variable = (case break_at (CHR ''='') arg of
                        None \<Rightarrow> False
                      | Some (name, v) \<Rightarrow> \<not> starts_with name ''-'' \<and> flag_names_a_key name
                          \<and> is_a_value v)
      in prefixed \<or> aws \<or> header \<or> variable)"

definition flag_of :: "string \<Rightarrow> string option" where
  "flag_of arg = (case strip_prefix ''--'' arg of Some f \<Rightarrow> Some f | None \<Rightarrow> strip_prefix ''-'' arg)"

text \<open>The indices one argument adds: its own, or the next one's when it is a flag naming a key.\<close>

definition held_at :: "string list \<Rightarrow> nat \<Rightarrow> nat list" where
  "held_at args index =
     (let arg = args ! index in
      case flag_of arg of
        None \<Rightarrow> if arg_is_a_key arg then [index] else []
      | Some flag \<Rightarrow> (case break_at (CHR ''='') flag of
          Some (name, v) \<Rightarrow>
            if (flag_names_a_key name \<and> is_a_value v) \<or> arg_is_a_key v then [index] else []
        | None \<Rightarrow>
            if flag_names_a_key flag \<and> index + 1 < length args
               \<and> \<not> starts_with (args ! (index + 1)) ''--'' \<and> is_a_value (args ! (index + 1))
            then [index + 1] else []))"

definition args_holding_secrets :: "string list \<Rightarrow> nat list" where
  "args_holding_secrets args =
     remdups_adj (sort (concat (map (held_at args) [0..<length args])))"

section \<open>Keys in the address and the headers\<close>

fun after_scheme :: "string \<Rightarrow> string option" where
  "after_scheme [] = None"
| "after_scheme (c # cs) =
     (case strip_prefix ''://'' (c # cs) of Some rest \<Rightarrow> Some rest | None \<Rightarrow> after_scheme cs)"

definition url_holds_secret :: "string \<Rightarrow> bool" where
  "url_holds_secret url =
     (let rest = (case after_scheme url of None \<Rightarrow> url | Some r \<Rightarrow> r);
          authority = hd (split_on (\<lambda>c. c \<in> set ''/?#'') rest)
      in CHR ''@'' \<in> set authority \<or> CHR ''?'' \<in> set rest)"

definition header_names_only :: "string \<Rightarrow> string list \<Rightarrow> bool" where
  "header_names_only template keys =
     list_all (\<lambda>part. case break_at (CHR ''}'') part of None \<Rightarrow> False | Some (key, _) \<Rightarrow> key \<in> set keys)
       (tl (split_on (\<lambda>c. c = CHR ''{'') template))"

definition piece_holds_a_value :: "nat \<Rightarrow> string \<Rightarrow> bool" where
  "piece_holds_a_value index piece =
     (case break_at (CHR ''{'') piece of
        None \<Rightarrow> 0 < index \<or> piece = [] \<or> \<not> (is_upper_ascii (hd piece) \<or> is_lower_ascii (hd piece))
                \<or> \<not> list_all is_alphanumeric_ascii piece
      | Some (before, after) \<Rightarrow>
          let name = (case strip_suffix ''='' before of None \<Rightarrow> before | Some n \<Rightarrow> n);
              names = before = []
                \<or> (ends_with before ''='' \<and> name \<noteq> []
                   \<and> list_all (\<lambda>c. is_alphanumeric_ascii c \<or> c \<in> set ''_-.'') name)
          in \<not> names
             \<or> (case break_at (CHR ''}'') after of None \<Rightarrow> True | Some (_, rest) \<Rightarrow> rest \<noteq> []))"

definition pieces :: "string \<Rightarrow> string list" where
  "pieces template = filter (\<lambda>p. p \<noteq> []) (split_on (\<lambda>c. c \<in> set '' ;'') template)"

definition holds_a_value :: "string \<Rightarrow> bool" where
  "holds_a_value template =
     list_ex (\<lambda>(index, piece). piece_holds_a_value index piece) (List.enumerate 0 (pieces template))"

definition header_error :: "string \<Rightarrow> string \<Rightarrow> string list \<Rightarrow> server_fault option" where
  "header_error header template keys =
     (if \<not> header_names_only template keys then Some (HeaderKeyUnknown header)
      else if names_a_secret header \<and> (CHR ''{'' \<notin> set template \<or> holds_a_value template)
      then Some (HeaderHoldsSecret header) else None)"

definition given_keys :: "server_entry \<Rightarrow> string list" where
  "given_keys s = (case entry_keys s of None \<Rightarrow> [] | Some ks \<Rightarrow> ks)"

definition secret_errors :: "server_entry \<Rightarrow> server_refusal list" where
  "secret_errors s =
     map (\<lambda>index. (''args'', ArgHoldsSecret (index + 1))) (args_holding_secrets (entry_args s))
     @ (case entry_url s of
          None \<Rightarrow> [] | Some url \<Rightarrow> if url_holds_secret url then [(''url'', UrlHoldsSecret)] else [])
     @ filter_map (\<lambda>(header, template).
         map_option (\<lambda>f. (''headers/'' @ header, f)) (header_error header template (given_keys s)))
         (entry_headers s)"

section \<open>Signing in and allowances\<close>

definition is_connector_word :: "string \<Rightarrow> bool" where
  "is_connector_word word \<longleftrightarrow>
     utf8_len word \<le> 40
     \<and> (case word of
          [] \<Rightarrow> False
        | first # letters \<Rightarrow> is_lower_ascii first
            \<and> list_all (\<lambda>l. is_lower_ascii l \<or> is_digit_ascii l \<or> l = CHR ''-'') letters)"

definition names_catervas_connector :: "server_entry \<Rightarrow> bool" where
  "names_catervas_connector s \<longleftrightarrow>
     entry_command s = Some ''catervas''
     \<and> (case entry_args s of
          [first, word] \<Rightarrow> first = ''connector'' \<and> is_connector_word word | _ \<Rightarrow> False)"

definition oauth_errors :: "server_entry \<Rightarrow> server_refusal list" where
  "oauth_errors s =
     (case entry_oauth s of
        None \<Rightarrow> []
      | Some oauth \<Rightarrow>
          let stdio = (entry_transport s = Some Stdio);
              own = stdio \<and> names_catervas_connector s
          in (if stdio \<and> \<not> own then [(''oauth'', OauthOnStdio)] else [])
             @ (if given_keys s \<noteq> [] then [(''credential_keys'', OauthWithKeys)] else [])
             @ filter_map (\<lambda>(header, _). if eq_ignore_ascii_case header ''authorization''
                  then Some (''headers/'' @ header, OauthHeaderConflict) else None) (entry_headers s)
             @ (if own then
                  (if client_id oauth \<noteq> None then [(''oauth/client_id'', OwnConnectorClient)] else [])
                  @ (if callback_port oauth \<noteq> None then [(''oauth/callback_port'', OwnConnectorClient)] else [])
                else if callback_port oauth \<noteq> None \<and> client_id oauth = None
                then [(''oauth/callback_port'', CallbackPortWithoutClient)] else []))"

definition allowance_errors :: "server_entry \<Rightarrow> server_refusal list" where
  "allowance_errors s =
     filter_map (\<lambda>(t, _).
       if entry_source s \<noteq> Kit then Some (''allowances/'' @ t, AllowanceNotKit t)
       else if map_of (entry_tools s) t \<notin> {Some PaidTag, Some AskTag, Some ExternalEffectTag}
       then Some (''allowances/'' @ t, AllowanceNotPaid t) else None) (entry_allowances s)"

section \<open>One entry\<close>

definition BUILTIN_CONNECTORS :: "string list" where
  "BUILTIN_CONNECTORS = [''playwright'']"

definition present_fields :: "server_entry \<Rightarrow> string list" where
  "present_fields s = map fst (filter snd
     [(''transport'', entry_transport s \<noteq> None), (''command'', entry_command s \<noteq> None),
      (''args'', entry_args s \<noteq> []), (''url'', entry_url s \<noteq> None), (''headers'', entry_headers s \<noteq> []),
      (''credential_keys'', entry_keys s \<noteq> None), (''tools'', entry_tools s \<noteq> []),
      (''allowances'', entry_allowances s \<noteq> []), (''oauth'', entry_oauth s \<noteq> None)])"

fun other_fields :: "server_transport \<Rightarrow> string list" where
  "other_fields Stdio = [''url'', ''headers'']"
| "other_fields Http = [''command'', ''args'']"

fun required_field :: "server_transport \<Rightarrow> string" where
  "required_field Stdio = ''command''"
| "required_field Http = ''url''"

definition server_errors :: "server_entry \<Rightarrow> server_refusal list" where
  "server_errors s =
     (let name = entry_name s; given = present_fields s in
      if entry_source s = Builtin then
        (if name \<in> set BUILTIN_CONNECTORS then [] else [(''name'', UnknownConnector name)])
        @ map (\<lambda>f. (f, BuiltinHasNo f)) given
      else
        (if name = ''catervas'' \<or> name \<in> set BUILTIN_CONNECTORS then [(''name'', NameReserved name)] else [])
        @ (case entry_transport s of
             None \<Rightarrow> [(''transport'', SayHowReached)]
           | Some how \<Rightarrow>
               map (\<lambda>f. (f, HasNoField how f)) (filter (\<lambda>f. f \<in> set given) (other_fields how))
               @ (if required_field how \<in> set given then []
                  else [(required_field how, NeedsField how (required_field how))])
               @ (case entry_command s of
                    None \<Rightarrow> []
                  | Some cmd \<Rightarrow> if CHR ''/'' \<in> set cmd \<and> \<not> starts_with cmd ''/''
                      then [(''command'', CommandNotAbsolute cmd)] else [])
               @ secret_errors s @ oauth_errors s @ allowance_errors s))"

section \<open>What an accepted entry cannot hold\<close>

lemma remdups_adj_Nil_iff: "remdups_adj xs = [] \<longleftrightarrow> xs = []"
  by (cases xs rule: remdups_adj.cases) auto

lemma args_holding_secrets_Nil:
  "args_holding_secrets args = [] \<longleftrightarrow> (\<forall>i < length args. held_at args i = [])"
proof -
  have "args_holding_secrets args = [] \<longleftrightarrow> concat (map (held_at args) [0..<length args]) = []"
    unfolding args_holding_secrets_def remdups_adj_Nil_iff by (metis set_empty set_sort)
  then show ?thesis by auto
qed

lemma secret_errors_Nil:
  "secret_errors s = [] \<longleftrightarrow>
     (\<forall>i < length (entry_args s). held_at (entry_args s) i = [])
     \<and> (\<forall>url. entry_url s = Some url \<longrightarrow> \<not> url_holds_secret url)
     \<and> (\<forall>(header, template) \<in> set (entry_headers s). header_error header template (given_keys s) = None)"
  by (auto simp: secret_errors_def args_holding_secrets_Nil filter_map_Nil_iff split: option.splits)

lemma server_errors_Nil:
  assumes "entry_source s \<noteq> Builtin"
  shows "server_errors s = [] \<longleftrightarrow>
     entry_name s \<notin> set (''catervas'' # BUILTIN_CONNECTORS)
     \<and> (\<exists>how. entry_transport s = Some how
          \<and> set (other_fields how) \<inter> set (present_fields s) = {}
          \<and> required_field how \<in> set (present_fields s)
          \<and> (\<forall>cmd. entry_command s = Some cmd \<longrightarrow> CHR ''/'' \<in> set cmd \<longrightarrow> starts_with cmd ''/'')
          \<and> secret_errors s = [] \<and> oauth_errors s = [] \<and> allowance_errors s = [])"
  using assms
  by (cases "entry_transport s"; cases "entry_command s")
    (auto simp: server_errors_def Let_def filter_empty_conv split: if_splits)

lemma named_in: "k \<in> set (map fst (filter snd xs)) \<longleftrightarrow> (k, True) \<in> set xs"
  by force

lemma present_fields_iff:
  "''command'' \<in> set (present_fields s) \<longleftrightarrow> entry_command s \<noteq> None"
  "''args'' \<in> set (present_fields s) \<longleftrightarrow> entry_args s \<noteq> []"
  "''url'' \<in> set (present_fields s) \<longleftrightarrow> entry_url s \<noteq> None"
  "''headers'' \<in> set (present_fields s) \<longleftrightarrow> entry_headers s \<noteq> []"
  unfolding present_fields_def named_in by simp_all

lemma piece_without_value:
  assumes "\<not> piece_holds_a_value i piece"
  shows "(i = 0 \<and> piece \<noteq> [] \<and> list_all is_alphanumeric_ascii piece)
    \<or> (\<exists>before key. piece = before @ CHR ''{'' # key @ ''}'' \<and> (before = [] \<or> ends_with before ''=''))"
proof (cases "break_at (CHR ''{'') piece")
  case None
  then show ?thesis using assms by (auto simp: piece_holds_a_value_def)
next
  case (Some parts)
  obtain before after where parts: "parts = (before, after)" by (cases parts)
  obtain key where "break_at (CHR ''}'') after = Some (key, [])" "before = [] \<or> ends_with before ''=''"
    using assms Some parts by (auto simp: piece_holds_a_value_def Let_def split: option.splits)
  then show ?thesis using Some parts break_at_Some(1) by metis
qed

lemma header_error_None:
  assumes "header_error header template keys = None" and "names_a_secret header"
    and "(i, piece) \<in> set (List.enumerate 0 (pieces template))"
  shows "\<not> piece_holds_a_value i piece"
  using assms by (auto simp: header_error_def holds_a_value_def list_ex_iff split: if_splits)

text \<open>
  An entry of the shared team file that is accepted and is not one Catervas ships holds no key:
  no argument looks like one (by its prefix, or as the value of a flag that names a key), the
  address has no user and no query, a header that carries a credential holds only a scheme word
  and \<open>{KEY}\<close>s, an entry that signs in has no keys and no \<open>Authorization\<close> header of its own, and it
  has the fields of its transport and not the other's.
\<close>

theorem accepted_connector_holds_no_key:
  assumes ok: "server_errors s = []" and own: "entry_source s \<noteq> Builtin"
  shows "(\<forall>i < length (entry_args s). flag_of (entry_args s ! i) = None \<longrightarrow>
           \<not> arg_is_a_key (entry_args s ! i))
    \<and> (\<forall>i flag. i + 1 < length (entry_args s) \<longrightarrow> flag_of (entry_args s ! i) = Some flag \<longrightarrow>
         CHR ''='' \<notin> set flag \<longrightarrow> flag_names_a_key flag \<longrightarrow>
         starts_with (entry_args s ! (i + 1)) ''--'' \<or> \<not> is_a_value (entry_args s ! (i + 1)))
    \<and> (\<forall>url. entry_url s = Some url \<longrightarrow> \<not> url_holds_secret url)
    \<and> (\<forall>(header, template) \<in> set (entry_headers s).
         header_names_only template (given_keys s)
         \<and> (names_a_secret header \<longrightarrow> CHR ''{'' \<in> set template
              \<and> (\<forall>(i, piece) \<in> set (List.enumerate 0 (pieces template)).
                   (i = 0 \<and> list_all is_alphanumeric_ascii piece)
                   \<or> (\<exists>before key. piece = before @ CHR ''{'' # key @ ''}''
                        \<and> (before = [] \<or> ends_with before ''='')))))
    \<and> (entry_oauth s \<noteq> None \<longrightarrow> given_keys s = []
         \<and> (\<forall>(header, _) \<in> set (entry_headers s). \<not> eq_ignore_ascii_case header ''authorization''))
    \<and> (case entry_transport s of
         None \<Rightarrow> False
       | Some Stdio \<Rightarrow> entry_command s \<noteq> None \<and> entry_url s = None \<and> entry_headers s = []
       | Some Http \<Rightarrow> entry_url s \<noteq> None \<and> entry_command s = None \<and> entry_args s = [])"
    (is "?args \<and> ?flags \<and> ?url \<and> ?headers \<and> ?oauth \<and> ?fields")
proof -
  obtain how where how: "entry_transport s = Some how"
    "set (other_fields how) \<inter> set (present_fields s) = {}"
    "required_field how \<in> set (present_fields s)"
    and none: "secret_errors s = []" "oauth_errors s = []"
    using ok server_errors_Nil [OF own] by auto
  note secrets = none(1) [unfolded secret_errors_Nil]
  have held: "held_at (entry_args s) i = []" if "i < length (entry_args s)" for i
    using secrets that by blast
  have ?args using held by (force simp: held_at_def)
  moreover have ?flags
  proof (intro allI impI)
    fix i flag
    assume i: "i + 1 < length (entry_args s)" "flag_of (entry_args s ! i) = Some flag"
      and f: "CHR ''='' \<notin> set flag" "flag_names_a_key flag"
    from f(1) have "break_at (CHR ''='') flag = None" by (simp add: break_at_None_iff)
    with held [of i] i f(2)
    show "starts_with (entry_args s ! (i + 1)) ''--'' \<or> \<not> is_a_value (entry_args s ! (i + 1))"
      by (auto simp: held_at_def split: if_splits)
  qed
  moreover have ?url using secrets by blast
  moreover have ?headers
  proof (intro ballI, clarify)
    fix header template assume "(header, template) \<in> set (entry_headers s)"
    then have none: "header_error header template (given_keys s) = None" using secrets by blast
    then have "header_names_only template (given_keys s)"
      "names_a_secret header \<longrightarrow> CHR ''{'' \<in> set template"
      by (auto simp: header_error_def split: if_splits)
    moreover have "names_a_secret header \<longrightarrow> (\<forall>(i, piece) \<in> set (List.enumerate 0 (pieces template)).
        (i = 0 \<and> list_all is_alphanumeric_ascii piece)
        \<or> (\<exists>before key. piece = before @ CHR ''{'' # key @ ''}'' \<and> (before = [] \<or> ends_with before ''='')))"
      using header_error_None [OF none] piece_without_value by fast
    ultimately show "header_names_only template (given_keys s)
         \<and> (names_a_secret header \<longrightarrow> CHR ''{'' \<in> set template
              \<and> (\<forall>(i, piece) \<in> set (List.enumerate 0 (pieces template)).
                   (i = 0 \<and> list_all is_alphanumeric_ascii piece)
                   \<or> (\<exists>before key. piece = before @ CHR ''{'' # key @ ''}''
                        \<and> (before = [] \<or> ends_with before ''=''))))"
      by blast
  qed
  moreover have ?oauth
    using none(2) by (auto simp: oauth_errors_def Let_def filter_map_Nil_iff split: option.splits if_splits)
  moreover have ?fields
    using how by (cases how) (auto simp: present_fields_iff)
  ultimately show ?thesis by blast
qed

definition sample_entry :: server_entry where
  "sample_entry = \<lparr>entry_name = ''shop'', entry_source = Custom, entry_transport = Some Http,
     entry_command = None, entry_args = [], entry_url = Some ''https://shop.example/mcp'',
     entry_headers = [(''Authorization'', ''Bearer {SHOP_KEY}'')], entry_keys = Some [''SHOP_KEY''],
     entry_tools = [(''buy'', PaidTag)], entry_allowances = [], entry_oauth = None\<rparr>"

theorem accepted_connector_holds_no_key_witness:
  "server_errors sample_entry = []
   \<and> server_errors (sample_entry\<lparr>entry_headers := [(''Authorization'', ''Bearer sk-1'')]\<rparr>)
       = [(''headers/Authorization'', HeaderHoldsSecret ''Authorization'')]
   \<and> \<not> url_holds_secret ''https://shop.example/mcp''"
proof -
  have ok: "server_errors sample_entry = []" by code_simp
  have bad: "server_errors (sample_entry\<lparr>entry_headers := [(''Authorization'', ''Bearer sk-1'')]\<rparr>)
       = [(''headers/Authorization'', HeaderHoldsSecret ''Authorization'')]" by code_simp
  have "entry_source sample_entry \<noteq> Builtin" by (simp add: sample_entry_def)
  from accepted_connector_holds_no_key [OF ok this] ok bad show ?thesis
    by (simp add: sample_entry_def)
qed

end
