(* ===== verification/Roster.thy ===== *)
theory Roster
  imports Connectors Budgets
begin

text \<open>
  The team file of crates/core/src/team.rs: its agents, its policy and its rules, the checks
  \<open>validate_team\<close> adds to the schema, and what the governor reads from it (who is active, the tiers
  an agent holds, the rules for the team and for one agent). The JSON Schema validator and serde are
  libraries: for a wire value, the errors of the schema are the parameter \<open>schema\<close> and the
  typed team or why it cannot be built is the parameter \<open>typed\<close>; for a team, the wire value
  or why it cannot be written is the parameter \<open>written\<close>. Personas and models
  are left out, since no modelled rule reads them; of the preview only whether there is one is kept.
\<close>

record agent_rules =
  own_protected_paths :: "string list"
  own_read_only_paths :: "string list"
  own_forbidden_commands :: "string list"
  own_git_subcommands :: "string list"
  own_lifted_paths :: "string list"

text \<open>\<open>sessionLimits\<close> of the schema: each limit a positive integer of 64 bits, or left unset.\<close>

record limits_set =
  set_input_tokens :: "u64 option"
  set_output_tokens :: "u64 option"
  set_wall_clock_seconds :: "nat option"
  set_tool_calls :: "nat option"

record agent =
  agent_id :: string
  agent_role :: role
  agent_status :: agent_status
  grants_of :: "permission_tier list"
  revokes_of :: "permission_tier list"
  servers_of :: "server_entry list"
  skills_of :: "string list"
  rules_of :: "agent_rules option"
  session_of :: "limits_set option"

datatype integration = ManualMerge | AutoMerge | PullRequest | LocalOnly

record permissions_policy =
  run_commands :: bool
  push_allowed :: bool

record policy =
  wip_limit_per_agent :: int
  blocked_limit_hours :: nat
  integration_of :: integration
  merge_when_checks_pass :: "bool option"
  solo_field :: "bool option"
  documents_local :: "bool option"
  readiness_attempts_field :: "nat option"
  paid_calls_field :: nat
  push_remotes_field :: "string list option"
  permissions_field :: "permissions_policy option"
  plan_in_sprints_field :: "bool option"
  messages_per_day :: "nat option"
  messages_per_sprint :: "nat option"

record rules_wire =
  wire_protected_paths :: "string list"
  wire_lifted_paths :: "string list"
  wire_read_only_paths :: "string list"
  wire_git_subcommands :: "string list"
  wire_allowed_paths_ceiling :: "string list"
  wire_required_criteria :: "string list option"
  wire_require_new_tests :: "bool option"
  wire_max_task_budget_usd :: "f64 option"
  wire_forbidden_commands :: "string list"
  wire_document_paths :: "string list"
  wire_ui_paths :: "string list"

record team =
  agents :: "agent list"
  team_policy :: policy
  rules_field :: rules_wire
  team_skills :: "string list"
  daily_usd :: "f64 option"
  team_session :: "limits_set option"
  has_preview :: bool

section \<open>What is read from a team\<close>

definition active_members :: "team \<Rightarrow> agent list" where
  "active_members t = filter (\<lambda>a. agent_status a = Active) (agents t)"

definition live_members :: "team \<Rightarrow> agent list" where
  "live_members t = filter (\<lambda>a. agent_status a \<noteq> Retired) (agents t)"

definition has_active :: "role \<Rightarrow> team \<Rightarrow> bool" where
  "has_active r t = list_ex (\<lambda>a. agent_role a = r) (active_members t)"

definition is_solo :: "team \<Rightarrow> bool" where
  "is_solo t \<longleftrightarrow> solo_field (team_policy t) = Some True"

definition keeps_documents_local :: "team \<Rightarrow> bool" where
  "keeps_documents_local t \<longleftrightarrow> documents_local (team_policy t) = Some True"

definition team_keeps_local :: "team \<Rightarrow> bool" where
  "team_keeps_local t \<longleftrightarrow> integration_of (team_policy t) = LocalOnly"

definition designer :: "team \<Rightarrow> agent option" where
  "designer t = List.find (\<lambda>a. agent_role a = UiUxDesigner) (active_members t)"

definition has_designer :: "team \<Rightarrow> bool" where
  "has_designer t = list_ex (\<lambda>a. agent_role a = UiUxDesigner) (live_members t)"

definition has_connector :: "team \<Rightarrow> string \<Rightarrow> bool" where
  "has_connector t name = list_ex (\<lambda>a. list_ex (\<lambda>s. entry_name s = name) (servers_of a)) (live_members t)"

definition agent_named :: "team \<Rightarrow> string \<Rightarrow> agent option" where
  "agent_named t i = List.find (\<lambda>a. agent_id a = i) (agents t)"

definition readiness_attempts :: "team \<Rightarrow> u32" where
  "readiness_attempts t =
     (case readiness_attempts_field (team_policy t) of
        None \<Rightarrow> READINESS_ATTEMPT_LIMIT
      | Some n \<Rightarrow> if n < 2 ^ 32 then of_nat n else READINESS_ATTEMPT_LIMIT)"

definition PAID_CALLS_PER_HOUR :: u32 where "PAID_CALLS_PER_HOUR = 30"

definition paid_calls_per_hour :: "team \<Rightarrow> u32" where
  "paid_calls_per_hour t =
     (if paid_calls_field (team_policy t) < 2 ^ 32 then of_nat (paid_calls_field (team_policy t))
      else PAID_CALLS_PER_HOUR)"

definition push_remotes :: "team \<Rightarrow> string list" where
  "push_remotes t =
     (case push_remotes_field (team_policy t) of None \<Rightarrow> [''origin''] | Some rs \<Rightarrow> rs)"

definition ambient_messages_per_day :: "team \<Rightarrow> nat" where
  "ambient_messages_per_day t =
     (case messages_per_day (team_policy t) of
        Some n \<Rightarrow> n
      | None \<Rightarrow> (case messages_per_sprint (team_policy t) of Some n \<Rightarrow> n | None \<Rightarrow> 1))"

definition without_old_keys :: "team \<Rightarrow> team" where
  "without_old_keys t =
     t\<lparr>team_policy := (team_policy t)
         \<lparr>plan_in_sprints_field := None,
          messages_per_day := (case messages_per_day (team_policy t) of
             None \<Rightarrow> messages_per_sprint (team_policy t) | Some n \<Rightarrow> Some n),
          messages_per_sprint := None\<rparr>\<rparr>"

definition team_permissions :: "team \<Rightarrow> permissions_policy" where
  "team_permissions t =
     (case permissions_field (team_policy t) of
        None \<Rightarrow> \<lparr>run_commands = True, push_allowed = False\<rparr> | Some p \<Rightarrow> p)"

section \<open>Tiers\<close>

definition tiers_under :: "agent \<Rightarrow> permissions_policy \<Rightarrow> permission_tier list" where
  "tiers_under a p =
     (let r = agent_role a;
          own = filter (\<lambda>t. \<not> (\<not> run_commands p \<and> (changes_code r \<or> r = Architect) \<and> t = Execute))
                  (default_tiers r);
          pushing = own @ (if push_allowed p \<and> changes_code r then [GitRemote] else [])
      in filter (\<lambda>t. t \<notin> set (revokes_of a)) (keep_new pushing (grants_of a)))"

definition tiers_of :: "team \<Rightarrow> agent \<Rightarrow> permission_tier list" where
  "tiers_of t a =
     (let held = tiers_under a (team_permissions t) in
      if team_keeps_local t then filter (\<lambda>tier. tier \<noteq> GitRemote) held else held)"

section \<open>Rules\<close>

definition team_rules_of :: "team \<Rightarrow> team_rules" where
  "team_rules_of t =
     (let w = rules_field t in
      \<lparr>protected_paths = keep_new
         (filter (\<lambda>p. p \<notin> set (wire_lifted_paths w)) (protected_paths default_team_rules))
         (wire_protected_paths w),
       read_only_paths = wire_read_only_paths w, git_subcommands = wire_git_subcommands w,
       keeps_local = team_keeps_local t, allowed_paths_ceiling = wire_allowed_paths_ceiling w,
       required_criteria = (case wire_required_criteria w of None \<Rightarrow> [] | Some cs \<Rightarrow> cs),
       require_new_tests = (case wire_require_new_tests w of
          None \<Rightarrow> require_new_tests default_team_rules | Some b \<Rightarrow> b),
       max_task_budget_usd = (case wire_max_task_budget_usd w of
          None \<Rightarrow> max_task_budget_usd default_team_rules | Some m \<Rightarrow> Some m),
       forbidden_commands = wire_forbidden_commands w, document_paths = wire_document_paths w,
       ui_paths = wire_ui_paths w\<rparr>)"

definition rules_for :: "team \<Rightarrow> string \<Rightarrow> team_rules" where
  "rules_for t i =
     (let rules = team_rules_of t in
      case agent_named t i of
        None \<Rightarrow> rules
      | Some a \<Rightarrow> (case rules_of a of
          None \<Rightarrow> rules
        | Some own \<Rightarrow> rules
            \<lparr>protected_paths := filter (\<lambda>g. g \<notin> set (own_lifted_paths own))
               (keep_new (protected_paths rules) (own_protected_paths own)),
             read_only_paths := filter (\<lambda>g. g \<notin> set (own_lifted_paths own))
               (keep_new (read_only_paths rules) (own_read_only_paths own)),
             forbidden_commands := keep_new (forbidden_commands rules) (own_forbidden_commands own),
             git_subcommands := keep_new (git_subcommands rules) (own_git_subcommands own)\<rparr>))"

section \<open>The checks of a team file\<close>

datatype team_fault =
    SchemaFault string string \<comment> \<open>path, message\<close>
  | NotBuilt string \<comment> \<open>the schema passed, the typed team could not be built\<close>
  | NotWritten string \<comment> \<open>the carried team could not be written\<close>
  | SevenAgentsAtMost
  | AgentIdsRepeated string
  | MustKeepReading nat string \<comment> \<open>the agent's index and id\<close>
  | LiftedPathUnknown nat nat string string \<comment> \<open>agent, position, glob, the agent's id\<close>
  | ConnectorFault nat nat string server_fault \<comment> \<open>agent, entry, field\<close>
  | ConnectorNameTwice nat nat string
  | SkillNameTwice "nat option" nat string \<comment> \<open>the agent's list or the team's\<close>
  | TwoAgentsAtLeast
  | SoloOneAgent nat
  | SoloRole nat role
  | NeedsActive role

definition MAX_AGENTS :: nat where "MAX_AGENTS = 7"

definition REQUIRED_ROLES :: "role list" where "REQUIRED_ROLES = [ProductManager]"

definition indexed :: "'a list \<Rightarrow> (nat \<times> 'a) list" where
  "indexed xs = List.enumerate 0 xs"

definition lifted_path_errors :: "team \<Rightarrow> team_fault list" where
  "lifted_path_errors t =
     (let known = DEFAULT_PROTECTED_PATHS @ wire_protected_paths (rules_field t)
                  @ wire_read_only_paths (rules_field t) in
      concat (map (\<lambda>(index, a). case rules_of a of
          None \<Rightarrow> []
        | Some own \<Rightarrow> map (\<lambda>(place, glob). LiftedPathUnknown index place glob (agent_id a))
            (filter (\<lambda>(_, glob). glob \<notin> set known) (indexed (own_lifted_paths own))))
        (indexed (agents t))))"

definition size_errors :: "team \<Rightarrow> team_fault list" where
  "size_errors t =
     (let live = filter (\<lambda>(_, a). agent_status a \<noteq> Retired) (indexed (agents t)) in
      if \<not> is_solo t then (if length (agents t) < 2 then [TwoAgentsAtLeast] else [])
      else (case live of
              [(index, a)] \<Rightarrow> if agent_role a \<in> {ScrumMaster, UiUxDesigner}
                then [SoloRole index (agent_role a)] else []
            | _ \<Rightarrow> [SoloOneAgent (length live)]))"

text \<open>The met already met, then each entry's refusals.\<close>

fun entries_errors :: "nat \<Rightarrow> nat \<Rightarrow> string list \<Rightarrow> server_entry list \<Rightarrow> team_fault list" where
  "entries_errors index place met [] = []"
| "entries_errors index place met (s # ss) =
     (if entry_name s \<in> set met then [ConnectorNameTwice index place (entry_name s)] else [])
     @ map (\<lambda>(field, fault). ConnectorFault index place field fault) (server_errors s)
     @ entries_errors index (place + 1) (entry_name s # met) ss"

definition connector_errors :: "team \<Rightarrow> team_fault list" where
  "connector_errors t =
     concat (map (\<lambda>(index, a). entries_errors index 0 [] (servers_of a)) (indexed (agents t)))"

fun pins_errors :: "nat option \<Rightarrow> nat \<Rightarrow> string list \<Rightarrow> string list \<Rightarrow> team_fault list" where
  "pins_errors whose place met [] = []"
| "pins_errors whose place met (name # rest) =
     (if name \<in> set met then [SkillNameTwice whose place name] else [])
     @ pins_errors whose (place + 1) (name # met) rest"

definition skill_errors :: "team \<Rightarrow> team_fault list" where
  "skill_errors t =
     pins_errors None 0 [] (team_skills t)
     @ concat (map (\<lambda>(index, a). pins_errors (Some index) 0 [] (skills_of a)) (indexed (agents t)))"

definition team_faults :: "team \<Rightarrow> team_fault list" where
  "team_faults t =
     (if MAX_AGENTS < length (live_members t) then [SevenAgentsAtMost] else [])
     @ (let repeated = repeated_ids (map agent_id (agents t)) in
        if repeated = [] then [] else [AgentIdsRepeated (named repeated)])
     @ map (\<lambda>(index, a). MustKeepReading index (agent_id a))
         (filter (\<lambda>(_, a). Read \<in> set (revokes_of a)) (indexed (agents t)))
     @ lifted_path_errors t @ connector_errors t @ skill_errors t @ size_errors t
     @ map NeedsActive (filter (\<lambda>r. \<not> is_solo t \<and> \<not> has_active r t) REQUIRED_ROLES)"

definition read_integration :: "team \<Rightarrow> team" where
  "read_integration t =
     (if integration_of (team_policy t) = LocalOnly then t
      else t\<lparr>team_policy := (team_policy t)\<lparr>integration_of := PullRequest\<rparr>\<rparr>)"

definition validate_team ::
  "('v \<Rightarrow> (string \<times> string) list) \<Rightarrow> ('v \<Rightarrow> (string, team) result) \<Rightarrow> 'v \<Rightarrow>
   (team_fault list, team) result" where
  "validate_team schema typed input =
     (if schema input \<noteq> [] then Inl (map (\<lambda>(path, message). SchemaFault path message) (schema input))
      else case typed input of
             Inl message \<Rightarrow> Inl [NotBuilt message]
           | Inr t \<Rightarrow> if team_faults t = [] then Inr (read_integration t) else Inl (team_faults t))"

definition carried :: "team \<Rightarrow> team" where
  "carried t =
     t\<lparr>team_policy := (team_policy t)\<lparr>merge_when_checks_pass := None\<rparr>,
       agents := map (\<lambda>a. a\<lparr>agent_status := Active\<rparr>) (live_members t)\<rparr>"

definition carried_team ::
  "('v \<Rightarrow> (string \<times> string) list) \<Rightarrow> ('v \<Rightarrow> (string, team) result) \<Rightarrow>
   (team \<Rightarrow> (string, 'v) result) \<Rightarrow> team \<Rightarrow> (team_fault list, team) result" where
  "carried_team schema typed written t =
     (case written (carried t) of
        Inl message \<Rightarrow> Inl [NotWritten message]
      | Inr value \<Rightarrow> validate_team schema typed value)"

section \<open>What a valid team is\<close>

lemma map_snd_indexed [simp]: "map snd (indexed xs) = xs"
  by (simp add: indexed_def)

lemma map_snd_filter_indexed: "map snd (filter (\<lambda>(_, a). P a) (indexed xs)) = filter P xs"
proof -
  have "map snd (filter (\<lambda>(_, a). P a) (List.enumerate n xs)) = filter P xs" for n
    by (induction xs arbitrary: n) auto
  then show ?thesis by (simp add: indexed_def)
qed

lemma all_indexed: "(\<forall>p \<in> set (indexed xs). P (snd p)) \<longleftrightarrow> (\<forall>a \<in> set xs. P a)"
  by (metis (no_types, lifting) image_iff list.set_map map_snd_indexed)

lemma filter_indexed_Nil: "filter (\<lambda>(_, a). P a) (indexed xs) = [] \<longleftrightarrow> (\<forall>a \<in> set xs. \<not> P a)"
  using all_indexed [of xs "\<lambda>a. \<not> P a"] by (simp add: filter_empty_conv case_prod_unfold)

lemma concat_indexed_Nil:
  assumes "\<And>i a. f i a = [] \<longleftrightarrow> P a"
  shows "concat (map (\<lambda>(i, a). f i a) (indexed xs)) = [] \<longleftrightarrow> (\<forall>a \<in> set xs. P a)"
  using all_indexed [of xs P] assms by (simp add: concat_eq_Nil_conv case_prod_unfold)

lemma entries_errors_Nil:
  "entries_errors index place met ss = [] \<longleftrightarrow>
     distinct (map entry_name ss) \<and> set met \<inter> set (map entry_name ss) = {}
     \<and> (\<forall>s \<in> set ss. server_errors s = [])"
  by (induction index place met ss rule: entries_errors.induct) auto

lemma connector_errors_Nil:
  "connector_errors t = [] \<longleftrightarrow>
     (\<forall>a \<in> set (agents t). distinct (map entry_name (servers_of a))
        \<and> (\<forall>s \<in> set (servers_of a). server_errors s = []))"
  unfolding connector_errors_def by (rule concat_indexed_Nil) (simp add: entries_errors_Nil)

lemma lifted_path_errors_Nil:
  "lifted_path_errors t = [] \<longleftrightarrow>
     (\<forall>a \<in> set (agents t). \<forall>own. rules_of a = Some own \<longrightarrow>
        set (own_lifted_paths own) \<subseteq> set DEFAULT_PROTECTED_PATHS
          \<union> set (wire_protected_paths (rules_field t)) \<union> set (wire_read_only_paths (rules_field t)))"
  unfolding lifted_path_errors_def Let_def
  by (rule concat_indexed_Nil) (auto simp: filter_indexed_Nil split: option.splits)

lemma size_errors_Nil:
  "size_errors t = [] \<longleftrightarrow>
     (if is_solo t
      then (\<exists>a. live_members t = [a] \<and> agent_role a \<notin> {ScrumMaster, UiUxDesigner})
      else 2 \<le> length (agents t))"
proof -
  let ?live = "filter (\<lambda>(_, a). agent_status a \<noteq> Retired) (indexed (agents t))"
  have "live_members t = map snd ?live"
    by (simp add: live_members_def map_snd_filter_indexed)
  then show ?thesis
    by (auto simp: size_errors_def Let_def split: list.splits)
qed

lemma Read_held: "Read \<notin> set (revokes_of a) \<Longrightarrow> Read \<in> set (tiers_of t a)"
  by (cases "agent_role a") (auto simp: tiers_of_def tiers_under_def Let_def set_keep_new)

lemma read_integration_simps [simp]:
  "agents (read_integration t) = agents t" "rules_field (read_integration t) = rules_field t"
  "is_solo (read_integration t) = is_solo t" "team_skills (read_integration t) = team_skills t"
  "live_members (read_integration t) = live_members t"
  "active_members (read_integration t) = active_members t"
  "has_active r (read_integration t) = has_active r t"
  by (simp_all add: read_integration_def is_solo_def live_members_def active_members_def has_active_def)

lemma read_integration_idem [simp]: "read_integration (read_integration t) = read_integration t"
  by (simp add: read_integration_def)

lemma validate_team_Inr:
  "validate_team schema typed v = Inr u
     \<longleftrightarrow> schema v = [] \<and> (\<exists>t. typed v = Inr t \<and> team_faults t = [] \<and> u = read_integration t)"
  by (auto simp: validate_team_def split: sum.splits)

lemma carried_team_Inr:
  "carried_team schema typed written t = Inr u
     \<longleftrightarrow> (\<exists>v. written (carried t) = Inr v \<and> validate_team schema typed v = Inr u)"
  by (auto simp: carried_team_def split: sum.splits)

lemma team_faults_Nil:
  "team_faults t = [] \<longleftrightarrow>
     length (live_members t) \<le> MAX_AGENTS \<and> distinct (map agent_id (agents t))
     \<and> (\<forall>a \<in> set (agents t). Read \<notin> set (revokes_of a))
     \<and> lifted_path_errors t = [] \<and> connector_errors t = [] \<and> skill_errors t = []
     \<and> size_errors t = [] \<and> (is_solo t \<or> has_active ProductManager t)"
  by (auto simp: team_faults_def Let_def repeated_ids_Nil_iff REQUIRED_ROLES_def filter_indexed_Nil)

lemma team_faults_read: "team_faults (read_integration t) = [] \<longleftrightarrow> team_faults t = []"
  unfolding team_faults_Nil lifted_path_errors_Nil connector_errors_Nil size_errors_Nil
    skill_errors_def read_integration_simps ..

text \<open>
  C40: A team file that validates is well formed: agent ids are distinct, at most seven agents are
  not retired, one agent alone is exactly one and neither a Scrum Master nor a designer, a team has
  two agents and an active Product Manager, every agent can read, and every connector of every
  agent is accepted under a name of its own.
\<close>

theorem valid_team_is_well_formed:
  assumes "validate_team schema typed v = Inr u"
  shows "distinct (map agent_id (agents u)) \<and> length (live_members u) \<le> 7
    \<and> (if is_solo u then \<exists>a. live_members u = [a] \<and> agent_role a \<notin> {ScrumMaster, UiUxDesigner}
       else 2 \<le> length (agents u) \<and> has_active ProductManager u)
    \<and> (\<forall>a \<in> set (agents u). Read \<in> set (tiers_of u a)
         \<and> distinct (map entry_name (servers_of a)) \<and> (\<forall>s \<in> set (servers_of a). server_errors s = []))
    \<and> integration_of (team_policy u) \<in> {PullRequest, LocalOnly}"
proof -
  from assms obtain t where u: "u = read_integration t" and ok: "team_faults t = []"
    by (auto simp: validate_team_Inr)
  have "integration_of (team_policy u) \<in> {PullRequest, LocalOnly}"
    by (simp add: u read_integration_def)
  then show ?thesis
    using ok Read_held by (auto simp: u team_faults_Nil size_errors_Nil connector_errors_Nil MAX_AGENTS_def)
qed

text \<open>
  In a valid team an agent's own rules only tighten the team's, except for the globs it lifts,
  and it lifts only globs Catervas ships or the team set: every other protected or read-only path
  stays so for it, its forbidden commands are added to the team's, and it may run every git
  subcommand the team may.
\<close>

theorem own_rules_only_lift_what_is_set:
  assumes "validate_team schema typed v = Inr u"
  shows "\<exists>lifted. lifted \<subseteq> set DEFAULT_PROTECTED_PATHS \<union> set (wire_protected_paths (rules_field u))
                         \<union> set (wire_read_only_paths (rules_field u))
    \<and> (\<forall>a own. agent_named u i = Some a \<longrightarrow> rules_of a = Some own \<longrightarrow> lifted = set (own_lifted_paths own))
    \<and> set (protected_paths (team_rules_of u)) - lifted \<subseteq> set (protected_paths (rules_for u i))
    \<and> set (read_only_paths (team_rules_of u)) - lifted \<subseteq> set (read_only_paths (rules_for u i))
    \<and> set (forbidden_commands (team_rules_of u)) \<subseteq> set (forbidden_commands (rules_for u i))
    \<and> set (git_subcommands (team_rules_of u)) \<subseteq> set (git_subcommands (rules_for u i))
    \<and> keeps_local (rules_for u i) = team_keeps_local u"
proof (cases "\<exists>a own. agent_named u i = Some a \<and> rules_of a = Some own")
  case False
  then have "rules_for u i = team_rules_of u"
    by (auto simp: rules_for_def Let_def split: option.splits)
  then show ?thesis using False by (intro exI [of _ "{}"]) (auto simp: team_rules_of_def Let_def)
next
  case True
  then obtain a own where own: "agent_named u i = Some a" "rules_of a = Some own" by blast
  then have "a \<in> set (agents u)" by (auto simp: agent_named_def find_Some_iff)
  moreover obtain t where "u = read_integration t" "lifted_path_errors t = []"
    using assms by (auto simp: validate_team_Inr team_faults_Nil)
  ultimately have "set (own_lifted_paths own) \<subseteq> set DEFAULT_PROTECTED_PATHS
      \<union> set (wire_protected_paths (rules_field u)) \<union> set (wire_read_only_paths (rules_field u))"
    using own(2) by (simp add: lifted_path_errors_Nil)
  then show ?thesis
    using own by (intro exI [of _ "set (own_lifted_paths own)"])
      (auto simp: rules_for_def set_keep_new team_rules_of_def Let_def)
qed

text \<open>
  Carrying a team to another project is done once: a carried team has only active agents and
  no permission to merge, and, where serde reads back the teams it writes, carrying it again
  changes nothing.
\<close>

theorem carrying_twice_is_carrying_once:
  assumes "carried_team schema typed written t = Inr u" and "written u = Inr v" and "schema v = []"
    and reads: "\<And>x y. written x = Inr y \<Longrightarrow> typed y = Inr x"
  shows "carried_team schema typed written u = Inr u \<and> map agent_id (agents u) = map agent_id (live_members t)
    \<and> active_members u = agents u \<and> merge_when_checks_pass (team_policy u) = None"
proof -
  have u: "u = read_integration (carried t)" "team_faults (carried t) = []"
    using assms(1) by (auto simp: carried_team_Inr validate_team_Inr dest: reads)
  have live: "\<forall>a \<in> set (agents u). agent_status a = Active"
    by (auto simp: u carried_def)
  then have all: "live_members u = agents u" "active_members u = agents u"
    by (simp_all add: live_members_def active_members_def)
  have "merge_when_checks_pass (team_policy u) = None"
    by (simp add: u carried_def read_integration_def)
  moreover have "map (\<lambda>a. a\<lparr>agent_status := Active\<rparr>) (agents u) = agents u"
    using live by (simp add: map_idI)
  ultimately have same: "carried u = u" using all by (simp add: carried_def)
  have "team_faults u = []"
    using u(2) unfolding u(1) by (rule team_faults_read [THEN iffD2])
  then have "carried_team schema typed written u = Inr u"
    using assms(2,3) same reads [OF assms(2)] u(1) by (simp add: carried_team_Inr validate_team_Inr)
  moreover have "map agent_id (agents u) = map agent_id (live_members t)"
    by (simp add: u carried_def)
  ultimately show ?thesis
    using all by (simp add: \<open>merge_when_checks_pass (team_policy u) = None\<close>)
qed

definition sample_agent :: "string \<Rightarrow> role \<Rightarrow> agent_status \<Rightarrow> agent" where
  "sample_agent i r st = \<lparr>agent_id = i, agent_role = r, agent_status = st, grants_of = [],
     revokes_of = [], servers_of = [], skills_of = [], rules_of = None,
     session_of = None\<rparr>"

definition sample_policy :: policy where
  "sample_policy = \<lparr>wip_limit_per_agent = 1, blocked_limit_hours = 24, integration_of = AutoMerge,
     merge_when_checks_pass = Some True, solo_field = None, documents_local = None,
     readiness_attempts_field = None, paid_calls_field = 30, push_remotes_field = None,
     permissions_field = None, plan_in_sprints_field = None, messages_per_day = None,
     messages_per_sprint = None\<rparr>"

definition sample_rules :: rules_wire where
  "sample_rules = \<lparr>wire_protected_paths = [''secrets/**''], wire_lifted_paths = [],
     wire_read_only_paths = [], wire_git_subcommands = [], wire_allowed_paths_ceiling = [],
     wire_required_criteria = None, wire_require_new_tests = None, wire_max_task_budget_usd = None,
     wire_forbidden_commands = [''curl''], wire_document_paths = [], wire_ui_paths = []\<rparr>"

definition sample_team :: team where
  "sample_team = \<lparr>agents =
      [sample_agent ''agent-1'' SoftwareDeveloper Active, sample_agent ''agent-2'' Architect Paused,
       (sample_agent ''agent-3'' ProductManager Active)
         \<lparr>rules_of := Some \<lparr>own_protected_paths = [], own_read_only_paths = [],
            own_forbidden_commands = [''rm''], own_git_subcommands = [],
            own_lifted_paths = [''secrets/**'']\<rparr>\<rparr>,
       sample_agent ''agent-4'' ScrumMaster Retired],
     team_policy = sample_policy, rules_field = sample_rules, team_skills = [],
     daily_usd = None, team_session = None, has_preview = False\<rparr>"

lemma sample_team_valid: "validate_team (\<lambda>_. []) Inr sample_team = Inr (read_integration sample_team)"
proof -
  have "team_faults sample_team = []" by code_simp
  then show ?thesis by (simp add: validate_team_Inr)
qed

theorem valid_team_is_well_formed_witness:
  "\<exists>u. validate_team (\<lambda>_. []) Inr sample_team = Inr u \<and> has_active ProductManager u \<and> 2 \<le> length (agents u)"
proof -
  have "\<not> is_solo sample_team" by code_simp
  then have "\<not> is_solo (read_integration sample_team)" by simp
  with valid_team_is_well_formed [OF sample_team_valid] sample_team_valid show ?thesis by auto
qed

theorem own_rules_only_lift_what_is_set_witness:
  "\<exists>u lifted. validate_team (\<lambda>_. []) Inr sample_team = Inr u \<and> lifted = {''secrets/**''}
     \<and> set (protected_paths (team_rules_of u)) - lifted \<subseteq> set (protected_paths (rules_for u ''agent-3''))
     \<and> ''secrets/**'' \<in> set (protected_paths (team_rules_of u))"
proof -
  let ?u = "read_integration sample_team"
  obtain a own where named: "agent_named ?u ''agent-3'' = Some a" "rules_of a = Some own"
      "set (own_lifted_paths own) = {''secrets/**''}"
    by (simp add: sample_team_def sample_agent_def agent_named_def)
  have listed: "''secrets/**'' \<in> set (protected_paths (team_rules_of ?u))"
    by (simp add: team_rules_of_def set_keep_new sample_team_def sample_rules_def Let_def)
  obtain lifted where "\<forall>a own. agent_named ?u ''agent-3'' = Some a \<longrightarrow> rules_of a = Some own \<longrightarrow>
        lifted = set (own_lifted_paths own)"
    and kept: "set (protected_paths (team_rules_of ?u)) - lifted \<subseteq> set (protected_paths (rules_for ?u ''agent-3''))"
    using own_rules_only_lift_what_is_set [OF sample_team_valid, of "''agent-3''"] by blast
  with named have "lifted = {''secrets/**''}" by metis
  then show ?thesis using kept listed sample_team_valid by (intro exI [of _ ?u] exI [of _ lifted]) simp
qed

theorem carrying_twice_is_carrying_once_witness:
  "\<exists>u. carried_team (\<lambda>_. []) Inr Inr sample_team = Inr u \<and> carried_team (\<lambda>_. []) Inr Inr u = Inr u
     \<and> map agent_id (agents u) = [''agent-1'', ''agent-2'', ''agent-3'']"
proof -
  have "team_faults (carried sample_team) = []" by code_simp
  then have ok: "carried_team (\<lambda>_. []) Inr Inr sample_team = Inr (read_integration (carried sample_team))"
    by (simp add: carried_team_Inr validate_team_Inr)
  have "map agent_id (live_members sample_team) = [''agent-1'', ''agent-2'', ''agent-3'']"
    by code_simp
  with carrying_twice_is_carrying_once [OF ok refl refl] ok show ?thesis by auto
qed

end
