(* ===== verification/Cost.thy ===== *)
theory Cost
  imports Projections Roster
begin

text \<open>
  crates/runtime/src/cost.rs: what a task and a day have spent, read from the cost rows of the
  projections, and the budget state that \<open>check_budgets\<close> judges. The sums of the store
  (\<open>costs\<close> of crates/store/src/projections.rs) are here for the two scopes read: a task and a day. A
  day is its number rather than its date's text. SQLite's sum of floats is the parameter \<open>sum_usd\<close>,
  one addition of two floats the parameter \<open>float_add\<close>. Prices and token sums are left out.
\<close>

section \<open>What was spent\<close>

record cost_projection =
  spent_usd :: f64
  sessions_run :: u32

text \<open>A task's sessions are the ones that work on it; a plan session is an epic's own work.\<close>

definition works_on :: "tables \<Rightarrow> cost_row \<Rightarrow> bool" where
  "works_on t c \<longleftrightarrow> cost_purpose c \<in> {Refine, Explore, Implement, Verify}
     \<or> (cost_purpose c = PlanPurpose
        \<and> list_ex (\<lambda>r. row_kind r = Epic \<and> cost_task c = Some (row_task r)) (task_rows t))"

definition projected_cost ::
  "(f64 list \<Rightarrow> f64) \<Rightarrow> (cost_row \<Rightarrow> bool) \<Rightarrow> string \<Rightarrow> cost_row list \<Rightarrow> (store_error, cost_projection) result" where
  "projected_cost sum_usd counted key mine =
     (case u32_try (length (each_once (filter_map cost_session (filter counted mine)))) of
        None \<Rightarrow> Inl (UnreadableRow key ''sessions'')
      | Some n \<Rightarrow> Inr \<lparr>spent_usd = sum_usd (map cost_of_row mine), sessions_run = n\<rparr>)"

text \<open>\<open>costs\<close> reads every key of the scope, and refuses when one of them cannot be read.\<close>

definition costs_by_task ::
  "(f64 list \<Rightarrow> f64) \<Rightarrow> tables \<Rightarrow> (store_error, (string \<times> cost_projection) list) result" where
  "costs_by_task sum_usd t =
     each_ok (map (\<lambda>i. and_then (projected_cost sum_usd (works_on t) i
                          (filter (\<lambda>c. cost_task c = Some i) (cost_records t)))
                        (\<lambda>c. Inr (i, c)))
       (sort_key number_in (sort (each_once (filter_map cost_task (cost_records t))))))"

definition costs_by_day ::
  "(f64 list \<Rightarrow> f64) \<Rightarrow> tables \<Rightarrow> (store_error, (int \<times> cost_projection) list) result" where
  "costs_by_day sum_usd t =
     each_ok (map (\<lambda>d. and_then (projected_cost sum_usd (\<lambda>_. True) ''day''
                          (filter (\<lambda>c. cost_day c = d) (cost_records t)))
                        (\<lambda>c. Inr (d, c)))
       (sort (each_once (map cost_day (cost_records t)))))"

definition spent_by_task ::
  "(f64 list \<Rightarrow> f64) \<Rightarrow> tables \<Rightarrow> string \<Rightarrow> (store_error, cost_projection option) result" where
  "spent_by_task sum_usd t i =
     and_then (costs_by_task sum_usd t)
       (\<lambda>costs. Inr (map_option snd (List.find (\<lambda>c. fst c = i) costs)))"

definition spent_by_day ::
  "(f64 list \<Rightarrow> f64) \<Rightarrow> tables \<Rightarrow> int \<Rightarrow> (store_error, cost_projection option) result" where
  "spent_by_day sum_usd t d =
     and_then (costs_by_day sum_usd t)
       (\<lambda>costs. Inr (map_option snd (List.find (\<lambda>c. fst c = d) costs)))"

section \<open>What the human granted\<close>

definition room_granted :: "(f64 \<Rightarrow> f64 \<Rightarrow> f64) \<Rightarrow> log \<Rightarrow> u32 \<times> f64" where
  "room_granted float_add history =
     foldl (\<lambda>(n, usd) (m, more). (saturating_add n (u32_of m), float_add usd more)) (0, Finite 0)
       (filter_map (\<lambda>e. case body e of TaskRoomGranted m usd \<Rightarrow> Some (m, usd) | _ \<Rightarrow> None) history)"

text \<open>The loop of \<open>sent_back_refines\<close>: whether the owner's send-back waits for its first \<open>refine\<close>
  session, and the sessions found so far, which a \<open>BTreeSet\<close> keeps once.\<close>

definition paid_sessions :: "log \<Rightarrow> string list" where
  "paid_sessions history =
     filter_map (\<lambda>e. in_session (ids e))
       (filter (\<lambda>e. case body e of CostRecorded _ _ \<Rightarrow> True | _ \<Rightarrow> False) history)"

definition free_step :: "string list \<Rightarrow> bool \<times> string list \<Rightarrow> event \<Rightarrow> bool \<times> string list" where
  "free_step paid acc e =
     (case body e of
        TaskTransitioned b \<Rightarrow>
          if move_to b = Refining \<and> move_actor b = HumanActor then (True, snd acc) else acc
      | SessionStarted purpose \<Rightarrow>
          if fst acc \<and> purpose = Refine
          then (False, (case in_session (ids e) of
                  None \<Rightarrow> snd acc
                | Some s \<Rightarrow> if s \<in> set paid then List.insert s (snd acc) else snd acc))
          else acc
      | _ \<Rightarrow> acc)"

definition sent_back_refines :: "log \<Rightarrow> u32" where
  "sent_back_refines history =
     u32_of (length (snd (foldl (free_step (paid_sessions history)) (False, []) history)))"

definition refused_sessions :: "log \<Rightarrow> u32" where
  "refused_sessions history =
     u32_of (length (filter (\<lambda>e. body e = SessionEnded True) history))"

definition saturating_sub :: "'l::len word \<Rightarrow> 'l word \<Rightarrow> 'l word" where
  "saturating_sub a b = (if b \<le> a then a - b else 0)"

definition saturating_mul :: "'l::len word \<Rightarrow> 'l word \<Rightarrow> 'l word" where
  "saturating_mul a b = (case checked_mul a b of None \<Rightarrow> -1 | Some c \<Rightarrow> c)"

section \<open>The limits of a session\<close>

definition put_limits :: "session_limits \<Rightarrow> limits_set \<Rightarrow> session_limits" where
  "put_limits limits s =
     \<lparr>max_input_tokens = (case set_input_tokens s of None \<Rightarrow> max_input_tokens limits | Some n \<Rightarrow> n),
      max_output_tokens = (case set_output_tokens s of None \<Rightarrow> max_output_tokens limits | Some n \<Rightarrow> n),
      max_wall_clock = (case set_wall_clock_seconds s of
         None \<Rightarrow> max_wall_clock limits | Some n \<Rightarrow> n * 1000000000),
      max_tool_calls = (case set_tool_calls s of
         None \<Rightarrow> max_tool_calls limits | Some n \<Rightarrow> u32_of n)\<rparr>"

definition agent_sets :: "team \<Rightarrow> string option \<Rightarrow> limits_set option" where
  "agent_sets t agent_i =
     (case agent_i of None \<Rightarrow> None
      | Some i \<Rightarrow> (case agent_named t i of None \<Rightarrow> None | Some a \<Rightarrow> session_of a))"

definition session_limits_of :: "team \<Rightarrow> role \<Rightarrow> string option \<Rightarrow> session_limits" where
  "session_limits_of t r agent_i =
     foldl put_limits (default_session_limits r)
       (filter_map id [team_session t, agent_sets t agent_i])"

section \<open>The budget state\<close>

definition no_session :: session_ledger where
  "no_session = \<lparr>ledger_usage = \<lparr>input_tokens = 0, output_tokens = 0, cache_read_tokens = 0,
      cache_write_tokens = 0\<rparr>, wall_clock = 0, tool_calls = 0, cost_usd = Finite 0\<rparr>"

record task_budget =
  task_spent :: f64
  task_ran :: u32
  task_usd_limit :: f64
  task_session_limit :: u32

definition no_task_budget :: task_budget where
  "no_task_budget = \<lparr>task_spent = Finite 0, task_ran = 0, task_usd_limit = Pos_Infinity,
     task_session_limit = -1\<rparr>"

definition task_budget_of ::
  "(f64 list \<Rightarrow> f64) \<Rightarrow> (f64 \<Rightarrow> f64 \<Rightarrow> f64) \<Rightarrow> log \<Rightarrow> tables \<Rightarrow> task_contract
     \<Rightarrow> (store_error, task_budget) result" where
  "task_budget_of sum_usd float_add l tb contract =
     and_then (spent_by_task sum_usd tb (task_id contract)) (\<lambda>spent.
       let history = history_of l (task_id contract);
           (more_sessions, more_usd) = room_granted float_add history in
       Inr \<lparr>task_spent = (case spent of None \<Rightarrow> Finite 0 | Some s \<Rightarrow> spent_usd s),
            task_ran = saturating_sub
              (saturating_sub (case spent of None \<Rightarrow> 0 | Some s \<Rightarrow> sessions_run s)
                 (refused_sessions history))
              (sent_back_refines history),
            task_usd_limit = float_add (max_cost_usd (contract_budget contract)) more_usd,
            task_session_limit = saturating_add
              (saturating_add (u32_saturating (max_sessions (contract_budget contract)))
                 (saturating_mul (extra_tries history) 4))
              more_sessions\<rparr>)"

definition budget_state_of ::
  "(f64 list \<Rightarrow> f64) \<Rightarrow> (f64 \<Rightarrow> f64 \<Rightarrow> f64) \<Rightarrow> log \<Rightarrow> tables \<Rightarrow> team \<Rightarrow> role \<Rightarrow> string option
     \<Rightarrow> task_contract option \<Rightarrow> session_ledger \<Rightarrow> date_time \<Rightarrow> (store_error, budget_state) result" where
  "budget_state_of sum_usd float_add l tb t r agent_i about ledger now =
     and_then (case about of None \<Rightarrow> Inr no_task_budget
               | Some contract \<Rightarrow> task_budget_of sum_usd float_add l tb contract) (\<lambda>own.
     and_then (spent_by_day sum_usd tb (utc_day now)) (\<lambda>day.
       Inr \<lparr>session = ledger, limits_of_session = session_limits_of t r agent_i,
            task_spent_usd = task_spent own, task_max_usd = task_usd_limit own,
            task_sessions = task_ran own, task_max_sessions = task_session_limit own,
            day_spent_usd = (case day of None \<Rightarrow> Finite 0 | Some d \<Rightarrow> spent_usd d),
            day_max_usd = (case daily_usd t of None \<Rightarrow> Pos_Infinity | Some m \<Rightarrow> m)\<rparr>))"

definition day_spent ::
  "(f64 list \<Rightarrow> f64) \<Rightarrow> (f64 \<Rightarrow> f64 \<Rightarrow> f64) \<Rightarrow> log \<Rightarrow> tables \<Rightarrow> team \<Rightarrow> role \<Rightarrow> date_time
     \<Rightarrow> (store_error, bool) result" where
  "day_spent sum_usd float_add l tb t r now =
     and_then (budget_state_of sum_usd float_add l tb t r None None no_session now)
       (\<lambda>state. Inr (list_ex (\<lambda>e. scope e = DayUsd) (check_budgets state)))"

text \<open>What \<open>record_exhaustion\<close> records: the budgets exhausted after that were not before.\<close>

definition crossed :: "budget_state \<Rightarrow> budget_state \<Rightarrow> exhausted list" where
  "crossed before after =
     filter (\<lambda>e. \<not> list_ex (\<lambda>b. scope b = scope e) (check_budgets before)) (check_budgets after)"

end
