(* ===== verification/Numbers.thy ===== *)
theory Numbers
  imports Prelude
begin

text \<open>
  Numbers as text: what \<open>format!\<close> writes for an unsigned integer and what \<open>parse::<u64>()\<close> reads,
  with the round trip between them; and the loop the program writes wherever it numbers a name until
  one is free, on a machine integer that wraps.
\<close>

section \<open>Decimal\<close>

fun decimal :: "nat \<Rightarrow> string" where
  "decimal n = (if n < 10 then [char_of (48 + n)] else decimal (n div 10) @ [char_of (48 + n mod 10)])"

declare decimal.simps [simp del]

definition digits_value :: "string \<Rightarrow> nat" where
  "digits_value s = foldl (\<lambda>n c. 10 * n + (code_point c - 48)) 0 s"

text \<open>\<open>parse::<u64>()\<close>: an optional plus sign, one digit or more, and a value the type holds.\<close>

definition parse_u64 :: "string \<Rightarrow> nat option" where
  "parse_u64 s =
     (let ds = (case strip_prefix ''+'' s of None \<Rightarrow> s | Some rest \<Rightarrow> rest) in
      if ds \<noteq> [] \<and> list_all is_digit_ascii ds \<and> digits_value ds < 2 ^ 64
      then Some (digits_value ds) else None)"

lemma code_point_digit: "(d :: nat) < 10 \<Longrightarrow> code_point (char_of (48 + d)) = 48 + d"
  by (simp add: code_point_def of_char_of)

lemma is_digit_char: "(d :: nat) < 10 \<Longrightarrow> is_digit_ascii (char_of (48 + d))"
  by (simp add: is_digit_ascii_def code_point_digit)

lemma digits_value_snoc: "digits_value (s @ [c]) = 10 * digits_value s + (code_point c - 48)"
  by (simp add: digits_value_def)

lemma decimal_not_Nil [simp]: "decimal n \<noteq> []"
  by (subst decimal.simps) simp

lemma decimal_digits: "list_all is_digit_ascii (decimal n)"
proof (induction n rule: decimal.induct)
  case (1 n)
  then show ?case by (subst decimal.simps) (auto simp: is_digit_char)
qed

lemma digits_value_decimal [simp]: "digits_value (decimal n) = n"
proof (induction n rule: decimal.induct)
  case (1 n)
  show ?case
  proof (cases "n < 10")
    case True
    then show ?thesis by (subst decimal.simps) (simp add: digits_value_def code_point_digit)
  next
    case False
    with 1 show ?thesis by (subst decimal.simps) (simp add: digits_value_snoc code_point_digit)
  qed
qed

lemma decimal_inject [simp]: "decimal a = decimal b \<longleftrightarrow> a = b"
  using digits_value_decimal by metis

lemma digit_not: "is_digit_ascii c \<Longrightarrow> c \<notin> {CHR ''+'', CHR ''-'', CHR ''/'', CHR ''.''}"
  by (auto simp: is_digit_ascii_def code_point_def)

lemma decimal_chars:
  "c \<in> set (decimal n) \<Longrightarrow> is_digit_ascii c \<and> c \<noteq> CHR ''/'' \<and> c \<noteq> CHR ''-'' \<and> c \<noteq> CHR ''.'' \<and> c \<noteq> CHR ''+''"
  using decimal_digits [of n] digit_not by (auto simp: list_all_iff)

lemma no_plus: "s \<noteq> [] \<Longrightarrow> list_all is_digit_ascii s \<Longrightarrow> strip_prefix ''+'' s = None"
  using digit_not by (cases s) (auto simp: strip_prefix_def starts_with_def)

lemma parse_u64_decimal: "n < 2 ^ 64 \<Longrightarrow> parse_u64 (decimal n) = Some n"
  using decimal_digits by (simp add: parse_u64_def no_plus)

text \<open>A number written with more digits is larger: the lengths tell how far it can go.\<close>

lemma decimal_length: "0 < n \<Longrightarrow> n < 10 ^ k \<Longrightarrow> length (decimal n) \<le> k"
proof (induction n arbitrary: k rule: decimal.induct)
  case (1 n)
  show ?case
  proof (cases "n < 10")
    case True
    with 1(2,3) show ?thesis by (cases k) (auto simp: decimal.simps [of n])
  next
    case False
    then obtain j where k: "k = Suc j" using 1(2,3) by (cases k) auto
    with False 1 show ?thesis by (auto simp: decimal.simps [of n])
  qed
qed

section \<open>The first free number\<close>

text \<open>\<open>loop \<^bold>{ if !taken(&name(n)) \<^bold>{ return \<dots> \<^bold>} n += 1 \<^bold>}\<close>, from \<open>n\<close>. Not returning is \<open>None\<close>.\<close>

partial_function (option) first_free :: "('l::len word \<Rightarrow> bool) \<Rightarrow> 'l word \<Rightarrow> 'l word option" where
  "first_free busy n = (if busy n then first_free busy (n + 1) else Some n)"

lemma first_free_finds:
  fixes n :: "'l::len word"
  assumes "n \<le> k" and "\<not> busy k"
  shows "\<exists>m. first_free busy n = Some m \<and> \<not> busy m \<and> n \<le> m \<and> m \<le> k"
  using assms
proof (induction "unat k - unat n" arbitrary: n)
  case 0
  then have "n = k" by (simp add: word_le_nat_alt word_unat_eq_iff)
  with 0 show ?case by (simp add: first_free.simps [of busy k])
next
  case (Suc d)
  show ?case
  proof (cases "busy n")
    case False
    with Suc show ?thesis by (simp add: first_free.simps [of busy n])
  next
    case True
    then have "n < k" using Suc.prems by (metis order_le_less)
    then have "unat n < unat k" by (simp add: word_less_nat_alt)
    moreover have "unat k < 2 ^ LENGTH('l)" by (rule unsigned_less)
    ultimately have "Suc (unat n) < 2 ^ LENGTH('l)" by linarith
    then have step: "unat (n + 1) = unat n + 1" by (simp add: unat_word_ariths)
    with \<open>unat n < unat k\<close> have le: "n + 1 \<le> k" by (simp add: word_le_nat_alt)
    from Suc.hyps(2) step have "d = unat k - unat (n + 1)" by linarith
    from Suc.hyps(1) [OF this le Suc.prems(2)]
    obtain m where "first_free busy (n + 1) = Some m" "\<not> busy m" "n + 1 \<le> m" "m \<le> k" by blast
    moreover from this step have "n \<le> m" by (simp add: word_le_nat_alt)
    ultimately show ?thesis using True by (simp add: first_free.simps [of busy n])
  qed
qed

text \<open>Names that are held by entries of a list, each holding one number at most: a number no larger
  than the length of the list is free.\<close>

locale numbered_names =
  fixes holds :: "'e \<Rightarrow> nat \<Rightarrow> bool"
  assumes one_number: "holds e a \<Longrightarrow> holds e b \<Longrightarrow> a = b"
begin

lemma some_number_free: "\<exists>k \<le> length taken. \<forall>e \<in> set taken. \<not> holds e (from_n + k)"
proof (rule ccontr)
  assume "\<not> ?thesis"
  then have "\<forall>k \<in> {0..length taken}. \<exists>e \<in> set taken. holds e (from_n + k)" by auto
  then obtain f where f: "\<forall>k \<in> {0..length taken}. f k \<in> set taken \<and> holds (f k) (from_n + k)"
    by metis
  then have "inj_on f {0..length taken}"
    by (intro inj_onI) (metis one_number add_left_cancel)
  then have "card {0..length taken} \<le> card (set taken)"
    using f by (intro card_inj_on_le) auto
  with card_length [of taken] show False by simp
qed

lemma first_free_returns:
  assumes "length taken + unat n < 2 ^ LENGTH('l)"
  shows "\<exists>m. first_free (\<lambda>x :: 'l::len word. \<exists>e \<in> set taken. holds e (unat x)) n = Some m
           \<and> (\<forall>e \<in> set taken. \<not> holds e (unat m)) \<and> n \<le> m \<and> unat m \<le> unat n + length taken"
proof -
  obtain k where k: "k \<le> length taken" "\<forall>e \<in> set taken. \<not> holds e (unat n + k)"
    using some_number_free by blast
  let ?k = "n + of_nat k"
  have u: "unat ?k = unat n + k"
    using k(1) assms by (simp add: unat_word_ariths unat_of_nat)
  have le: "n \<le> ?k" using u by (simp add: word_le_nat_alt)
  from first_free_finds [of n ?k "\<lambda>x. \<exists>e \<in> set taken. holds e (unat x)"] le k(2) u
  obtain m where m: "first_free (\<lambda>x. \<exists>e \<in> set taken. holds e (unat x)) n = Some m"
      "\<not> (\<exists>e \<in> set taken. holds e (unat m))" "n \<le> m" "m \<le> ?k"
    by auto
  moreover have "unat m \<le> unat n + length taken"
    using m(4) u k(1) by (simp add: word_le_nat_alt)
  ultimately show ?thesis by blast
qed

end

end
