(* ===== verification/Board.thy ===== *)
theory Board
  imports Cost Numbers
begin

text \<open>
  What crates/runtime/src/transitions.rs reads from the board, the team and the contract files when
  it judges a move: the states of dependencies and children, how much an agent holds and which of
  its tasks are within its limit, who holds a private folder or builds a lane, and the epic above a
  task. The contract files are a map from task ids; reading one that is missing is an error. Floats
  are subtracted by the parameter \<open>float_sub\<close>.
\<close>

type_synonym contract_files = "string \<rightharpoonup> task_contract"

datatype files_error = ContractInvalid | FileIo

datatype door_error =
    NotOnTheBoard string \<comment> \<open>... is not on the board, or the log has no event about it\<close>
  | StoreRefused store_error
  | ProjectionsRefused store_error \<comment> \<open>a \<open>StoreRefused\<close> of \<open>Projections::apply\<close>, told apart here\<close>
  | FilesRefused files_error
  | NoContractFile string
  | ContractOfAnother string string \<comment> \<open>the contract in ...'s file says it is ...\<close>
  | GitRefused string
  | BadBranch string

text \<open>\<open>ProjectFiles::read_contract\<close> and \<open>write_contract\<close>: a contract lives in the file its own id names.
  The schema's own check of the file is a library's; \<open>write_contract\<close> is the write of a contract that passed
  it, on a disk that took it.\<close>

definition read_contract :: "contract_files \<Rightarrow> string \<Rightarrow> (door_error, task_contract) result" where
  "read_contract files i =
     (case files i of
        None \<Rightarrow> Inl (NoContractFile i)
      | Some c \<Rightarrow> if task_id c = i then Inr c else Inl (ContractOfAnother i (task_id c)))"

definition write_contract :: "contract_files \<Rightarrow> task_contract \<Rightarrow> contract_files" where
  "write_contract files c = files(task_id c \<mapsto> c)"

definition row_of :: "board_row list \<Rightarrow> string \<Rightarrow> board_row option" where
  "row_of b i = List.find (\<lambda>r. b_task r = i) b"

definition status_on :: "board_row list \<Rightarrow> string \<Rightarrow> task_status option" where
  "status_on b i = map_option b_status (row_of b i)"

definition dependency_states_on :: "task_contract \<Rightarrow> board_row list \<Rightarrow> dependency_state list" where
  "dependency_states_on contract b =
     filter_map (\<lambda>d. map_option (\<lambda>s. \<lparr>dependency_id = d, dependency_status = s\<rparr>) (status_on b d))
       (dependencies contract)"

definition children_of :: "board_row list \<Rightarrow> string \<Rightarrow> child_state list" where
  "children_of b i =
     map (\<lambda>c. \<lparr>child_id = b_task c, child_status = b_status c\<rparr>) (filter (\<lambda>c. b_parent c = Some i) b)"

definition reviewed_by_the_human :: "task_contract \<Rightarrow> team \<Rightarrow> bool" where
  "reviewed_by_the_human contract t \<longleftrightarrow> kind_of contract = Epic \<and> \<not> has_active ScrumMaster t"

definition the_human_reviews_the_epic :: "kind \<Rightarrow> string option \<Rightarrow> bool" where
  "the_human_reviews_the_epic k who \<longleftrightarrow> k = Epic \<and> who = None"

definition role_in :: "team \<Rightarrow> string \<Rightarrow> role" where
  "role_in t i = (case agent_named t i of None \<Rightarrow> HumanRole | Some a \<Rightarrow> agent_role a)"

text \<open>A \<open>BTreeMap\<close> of counts; the roles in the order of their first agent.\<close>

definition active_agents_by_role_of :: "team \<Rightarrow> (role \<times> u32) list" where
  "active_agents_by_role_of t =
     (let roles = map agent_role (active_members t) in
      map (\<lambda>r. (r, u32_of (length (filter (\<lambda>x. x = r) roles)))) (each_once roles))"

section \<open>Work in progress\<close>

definition open_tasks :: "board_row list \<Rightarrow> string \<Rightarrow> string option \<Rightarrow> u32" where
  "open_tasks b i epic =
     u32_of (length (filter (\<lambda>r. b_assignee r = Some i \<and> epic \<noteq> Some (b_task r)
                               \<and> row_counts_towards_wip r) b))"

definition wip_limit_of :: "team \<Rightarrow> u32" where
  "wip_limit_of t =
     (let n = wip_limit_per_agent (team_policy t) in if 0 \<le> n \<and> n < 2 ^ 32 then of_int n else - 1)"

definition rank_of :: "board_row \<Rightarrow> nat" where
  "rank_of r = (case b_counted_seq r of None \<Rightarrow> 0 | Some n \<Rightarrow> n)"

definition held_by :: "board_row list \<Rightarrow> string \<Rightarrow> board_row list" where
  "held_by b i =
     filter (\<lambda>r. b_kind r \<noteq> Epic \<and> row_counts_towards_wip r \<and> b_assignee r = Some i) b"

definition held_in_order :: "board_row list \<Rightarrow> string \<Rightarrow> board_row list" where
  "held_in_order b i = sort_key rank_of (held_by b i)"

definition limit_of :: "team \<Rightarrow> nat" where
  "limit_of t =
     (let n = wip_limit_per_agent (team_policy t)
      in max (if 0 \<le> n \<and> n < 2 ^ 64 then nat n else 18446744073709551615) 1)"

definition ungoverned :: "team \<Rightarrow> board_row \<Rightarrow> bool" where
  "ungoverned t r \<longleftrightarrow> b_kind r = Epic \<or> \<not> row_counts_towards_wip r
     \<or> \<not> list_ex (\<lambda>a. Some (agent_id a) = b_assignee r) (active_members t)"

definition within_limit :: "team \<Rightarrow> board_row list \<Rightarrow> string list" where
  "within_limit t b =
     map b_task (filter (ungoverned t) b)
     @ concat (map (\<lambda>a. map b_task (take (limit_of t) (held_in_order b (agent_id a)))) (active_members t))"

definition within_limit_or_idle ::
  "team \<Rightarrow> board_row list \<Rightarrow> bool \<Rightarrow> (string \<Rightarrow> bool) \<Rightarrow> string list" where
  "within_limit_or_idle t b autopilot busy =
     within_limit t b
     @ (if autopilot
        then concat (map (\<lambda>a. map b_task (held_by b (agent_id a)))
               (filter (\<lambda>a. \<not> busy (agent_id a)) (active_members t)))
        else [])"

section \<open>Folders and lanes\<close>

text \<open>The loops of \<open>private_folder_busy\<close> and \<open>lane_builder\<close>: a task with no contract file holds
  nothing, and any other fault of a file ends the loop.\<close>

fun folder_held :: "contract_files \<Rightarrow> string \<Rightarrow> board_row list \<Rightarrow> (door_error, bool) result" where
  "folder_held files folder [] = Inr False"
| "folder_held files folder (other # others) =
     (case read_contract files (b_task other) of
        Inr c \<Rightarrow> if task_private_folder c = Some folder then Inr True
                 else folder_held files folder others
      | Inl (NoContractFile _) \<Rightarrow> folder_held files folder others
      | Inl e \<Rightarrow> Inl e)"

definition private_folder_busy_on ::
  "contract_files \<Rightarrow> board_row list \<Rightarrow> board_row \<Rightarrow> role \<Rightarrow> (door_error, bool) result" where
  "private_folder_busy_on files b own r =
     (case private_folder r of
        None \<Rightarrow> Inr False
      | Some folder \<Rightarrow>
          folder_held files folder (filter (\<lambda>other. b_task other \<noteq> b_task own
            \<and> b_assignee other \<noteq> None \<and> b_status other \<notin> {Accepted, Cancelled}) b))"

definition task_number :: "string \<Rightarrow> nat" where
  "task_number i =
     (case strip_prefix ''CTV-'' i of
        None \<Rightarrow> 0 | Some rest \<Rightarrow> (case parse_u64 rest of None \<Rightarrow> 0 | Some n \<Rightarrow> n))"

definition better_builder :: "(nat \<times> string) option \<Rightarrow> nat \<Rightarrow> string \<Rightarrow> (nat \<times> string) option" where
  "better_builder best n who =
     (case best of None \<Rightarrow> Some (n, who) | Some (m, _) \<Rightarrow> if m < n then Some (n, who) else best)"

fun lane_loop ::
  "contract_files \<Rightarrow> team \<Rightarrow> task_contract \<Rightarrow> (nat \<times> string) option \<Rightarrow> board_row list
     \<Rightarrow> (door_error, (nat \<times> string) option) result" where
  "lane_loop files t contract best [] = Inr best"
| "lane_loop files t contract best (other # others) =
     (case b_assignee other of
        None \<Rightarrow> lane_loop files t contract best others
      | Some who \<Rightarrow>
          if \<not> list_ex (\<lambda>a. agent_id a = who) (active_members t)
          then lane_loop files t contract best others
          else (case read_contract files (b_task other) of
                  Inr theirs \<Rightarrow>
                    lane_loop files t contract
                      (if lane theirs = lane contract \<and> assignee_role theirs = assignee_role contract
                       then better_builder best (task_number (b_task other)) who else best) others
                | Inl (NoContractFile _) \<Rightarrow> lane_loop files t contract best others
                | Inl e \<Rightarrow> Inl e))"

definition lane_builder_of ::
  "contract_files \<Rightarrow> team \<Rightarrow> board_row list \<Rightarrow> board_row \<Rightarrow> task_contract
     \<Rightarrow> (door_error, string option) result" where
  "lane_builder_of files t b own contract =
     (if lane contract = None \<or> b_parent own = None then Inr None
      else and_then (lane_loop files t contract None
             (filter (\<lambda>other. b_task other \<noteq> b_task own \<and> b_parent other = b_parent own
                        \<and> b_status other \<noteq> Cancelled) b))
           (\<lambda>best. Inr (map_option snd best)))"

section \<open>The epic above\<close>

fun sibling_lanes ::
  "(f64 \<Rightarrow> f64 \<Rightarrow> f64) \<Rightarrow> contract_files \<Rightarrow> board_row list \<Rightarrow> f64 \<Rightarrow> laned_task list
     \<Rightarrow> (door_error, f64 \<times> laned_task list) result" where
  "sibling_lanes float_sub files [] left lanes = Inr (left, lanes)"
| "sibling_lanes float_sub files (own # rows) left lanes =
     (case read_contract files (b_task own) of
        Inl e \<Rightarrow> Inl e
      | Inr sibling \<Rightarrow>
          sibling_lanes float_sub files rows
            (float_sub left (max_cost_usd (contract_budget sibling)))
            (lanes @ (case lane sibling of
               None \<Rightarrow> []
             | Some l \<Rightarrow> [\<lparr>laned_task_id = task_id sibling, laned_lane = l,
                            laned_paths = allowed_paths sibling\<rparr>])))"

definition parent_state_of ::
  "(f64 \<Rightarrow> f64 \<Rightarrow> f64) \<Rightarrow> contract_files \<Rightarrow> board_row list \<Rightarrow> task_contract
     \<Rightarrow> (door_error, parent_state option) result" where
  "parent_state_of float_sub files b child =
     (case parent child of
        None \<Rightarrow> Inr None
      | Some epic_id \<Rightarrow> (case row_of b epic_id of
          None \<Rightarrow> Inl (NotOnTheBoard epic_id)
        | Some own \<Rightarrow> (case read_contract files epic_id of
            Inl e \<Rightarrow> Inl e
          | Inr epic \<Rightarrow>
              and_then (sibling_lanes float_sub files
                  (filter (\<lambda>other. b_parent other = Some epic_id \<and> b_task other \<noteq> task_id child
                             \<and> b_status other \<noteq> Cancelled) b)
                  (float_sub (max_cost_usd (contract_budget epic)) (b_cost_usd own)) [])
                (\<lambda>(left, lanes). Inr (Some
                   \<lparr>parent_status = b_status own, parent_allowed_paths = allowed_paths epic,
                    remaining_budget_usd = left, parent_lanes = lanes\<rparr>)))))"

end
