(* ===== verification/Context.thy ===== *)
theory Context
  imports Board
begin

text \<open>
  The reading half of crates/runtime/src/transitions.rs: everything the governor is asked about one
  request, gathered from the log, the board, the contract files and the team. What the program reads
  from outside itself is a \<open>world\<close>: the glob library, float arithmetic, the clock, git, the file
  system and the sandbox. Its functions are arguments of the model; a step of the program may meet
  any world. What it writes to can refuse: a contract the schema or the disk does not take, an event the
  schema or the database does not take, projections the database does not write. Which documents live on the disk, and which agent versions are stale, are read from
  modules of the store that are not modelled, and are part of it too.
\<close>

datatype uncommitted = Changed string | Untracked string | OtherEntry string

record world =
  engine :: glob_engine
  sum_usd_of :: "f64 list \<Rightarrow> f64"
  float_add_of :: "f64 \<Rightarrow> f64 \<Rightarrow> f64"
  float_sub_of :: "f64 \<Rightarrow> f64 \<Rightarrow> f64"
  clock_at :: "nat \<Rightarrow> date_time"
  session_running :: "(string \<Rightarrow> bool) option"
  previews_available :: bool
  team_on_file :: "(door_error, team) result"
  repos_on_file :: "(door_error, string list option) result"
  reads_disk :: "team \<Rightarrow> log \<Rightarrow> (door_error, bool) result"
  stale_among :: "team \<Rightarrow> log \<Rightarrow> (door_error, string list) result"
  has_worktree :: "string \<Rightarrow> bool"
  member_there :: "team \<Rightarrow> string option \<Rightarrow> (door_error, bool) result" \<comment> \<open>\<open>False\<close> when the member is gone\<close>
  clean_worktree :: "string \<Rightarrow> (door_error, bool) result"
  commits_on :: "task_contract \<Rightarrow> (door_error, u32) result"
  branch_changes :: "task_contract \<Rightarrow> (door_error, string list) result"
  document_changes :: "string \<Rightarrow> (door_error, string list) result"
  folder_changes :: "string \<Rightarrow> string \<Rightarrow> (door_error, string list) result"
  private_file_there :: "string \<Rightarrow> string \<Rightarrow> bool"
  merging :: "string \<Rightarrow> (door_error, bool) result"
  uncommitted_in :: "string \<Rightarrow> (door_error, uncommitted list) result"
  put_back_in :: "string \<Rightarrow> string list \<Rightarrow> (door_error, unit) result"
  removed_from :: "string \<Rightarrow> string list \<Rightarrow> (door_error, unit) result"
  documents_touched :: "task_contract \<Rightarrow> (door_error, (string \<times> bool) list) result"
    \<comment> \<open>each with whether it is there after it was put back\<close>
  write_refused :: "nat \<Rightarrow> task_contract \<Rightarrow> files_error option"
  append_refused :: "nat \<Rightarrow> event_ids \<Rightarrow> event_body \<Rightarrow> store_error option"
  apply_refused :: "nat \<Rightarrow> event \<Rightarrow> store_error option"
    \<comment> \<open>what the disk, the log and the projections do not take, by \<open>ticks\<close>\<close>

text \<open>What the door keeps: the log, the projections of it, and the contract files. \<open>ticks\<close> counts how
  often the clock was read, so that two readings may differ.\<close>

record project =
  log_of :: log
  tables_of :: tables
  files_of :: contract_files
  ticks :: nat

record transition_ask =
  ask_assignee :: "string option"
  ask_reviewer :: "string option"
  ask_blocker :: "blocker option"
  ask_resolution :: "string option"
  ask_rejection :: "rejection option"
  ask_denied :: bool
  ask_session :: "string option"
  ask_unrunnable :: "string option"
  ask_preview_failed :: "string option"
  ask_reason :: "string option"
  ask_filed :: bool
  ask_grants_tries :: bool
  ask_workbooks :: "string list option"
  ask_conflicts :: "string list option"

definition tidied :: "transition_ask \<Rightarrow> transition_ask" where
  "tidied ask = ask\<lparr>ask_assignee := trimmed (ask_assignee ask), ask_reviewer := trimmed (ask_reviewer ask)\<rparr>"

definition stored :: "(store_error, 'a) result \<Rightarrow> (door_error, 'a) result" where
  "stored = map_err StoreRefused"

definition board_of :: "world \<Rightarrow> project \<Rightarrow> (door_error, board_row list) result" where
  "board_of w p = stored (board (sum_usd_of w) (tables_of p))"

definition known_row :: "board_row list \<Rightarrow> string \<Rightarrow> (door_error, board_row) result" where
  "known_row b i = (case row_of b i of None \<Rightarrow> Inl (NotOnTheBoard i) | Some r \<Rightarrow> Inr r)"

section \<open>The Designer's browser and its review\<close>

definition PLAYWRIGHT :: string where "PLAYWRIGHT = ''playwright''"

definition has_playwright :: "agent \<Rightarrow> bool" where
  "has_playwright a = list_ex (\<lambda>s. entry_name s = PLAYWRIGHT) (servers_of a)"

definition designer_browser_of :: "world \<Rightarrow> team \<Rightarrow> designer_browser" where
  "designer_browser_of w t =
     (if \<not> previews_available w then NoSandbox
      else if \<not> has_preview t then NoPreview
      else if (case designer t of None \<Rightarrow> False | Some d \<Rightarrow> \<not> has_playwright d) then NoConnector
      else BrowserReady)"

definition design_review_of :: "world \<Rightarrow> team \<Rightarrow> bool \<Rightarrow> log \<Rightarrow> review_state \<times> string option" where
  "design_review_of w t changes_ui history =
     (if \<not> changes_ui \<or> \<not> has_designer t then (ReviewNotNeeded, None)
      else case recorded_review history of
        Some (pass, who) \<Rightarrow> (if pass then ReviewPassed else ReviewFailed, who)
      | None \<Rightarrow>
          if \<not> has_preview t then (PreviewMissing, None)
          else (case designer_browser_of w t of
              NoSandbox \<Rightarrow> DesignerNeedsSandbox
            | NoPreview \<Rightarrow> DesignerNeedsSandbox
            | NoConnector \<Rightarrow> DesignerNeedsBrowser
            | BrowserReady \<Rightarrow> if designer t = None then WaitingOnDesigner else ReviewWaiting, None))"

definition review_of ::
  "world \<Rightarrow> team \<Rightarrow> task_contract \<Rightarrow> string list \<Rightarrow> log \<Rightarrow> bool \<times> review_state \<times> string option" where
  "review_of w t contract changed history =
     (let ui = is_ui_change (engine w) contract (assignee_role contract) changed (ui_paths (team_rules_of t))
      in (ui, design_review_of w t ui history))"

section \<open>The work\<close>

definition is_documents_only :: "task_contract \<Rightarrow> bool" where
  "is_documents_only contract \<longleftrightarrow> kind_of contract = Task \<and> allowed_paths contract \<noteq> []
     \<and> list_all (\<lambda>path. is_within_any path [''docs/catervas/**'']) (allowed_paths contract)"

definition no_work :: work_state where
  "no_work = \<lparr>commits = 0, worktree_clean = False, folder_of_work = None, documents_of_work = None\<rparr>"

definition folder_work_of ::
  "world \<Rightarrow> string \<Rightarrow> task_contract \<Rightarrow> string list \<Rightarrow> (door_error, work_state \<times> string list) result" where
  "folder_work_of w folder contract books =
     and_then (folder_changes w folder (task_id contract)) (\<lambda>changed.
       Inr (no_work\<lparr>folder_of_work := Some
               \<lparr>named_workbooks = books,
                missing_workbooks = filter (\<lambda>path. \<not> private_file_there w folder path) books,
                changed_in_folder = changed\<rparr>\<rparr>,
            map (\<lambda>path. folder @ ''/'' @ path) changed))"

definition worktree_work ::
  "world \<Rightarrow> log \<Rightarrow> task_contract \<Rightarrow> team \<Rightarrow> (door_error, work_state \<times> string list) result" where
  "worktree_work w l contract t =
     and_then (reads_disk w t l) (\<lambda>on_disk.
     let only = on_disk \<and> is_documents_only contract in
     and_then (if on_disk then document_changes w (task_id contract) else Inr []) (\<lambda>documents.
     let seen = (if on_disk then Some \<lparr>only_documents = only, changed_documents = documents\<rparr> else None) in
     if only
     then and_then (clean_worktree w (task_id contract)) (\<lambda>clean.
       Inr (no_work\<lparr>worktree_clean := clean, documents_of_work := seen\<rparr>, documents))
     else
       and_then (commits_on w contract) (\<lambda>n.
       and_then (clean_worktree w (task_id contract)) (\<lambda>clean.
       and_then (branch_changes w contract) (\<lambda>changed.
       Inr (\<lparr>commits = n, worktree_clean = clean, folder_of_work = None, documents_of_work = seen\<rparr>,
            changed @ documents))))))"

definition work_of ::
  "world \<Rightarrow> log \<Rightarrow> task_contract \<Rightarrow> team \<Rightarrow> string list \<Rightarrow> (door_error, work_state \<times> string list) result" where
  "work_of w l contract t books =
     (case task_private_folder contract of
        Some folder \<Rightarrow> folder_work_of w folder contract books
      | None \<Rightarrow>
          if \<not> has_worktree w (task_id contract) then Inr (no_work, [])
          else and_then (member_there w t (repo contract)) (\<lambda>there.
            if there then worktree_work w l contract t else Inr (no_work, [])))"

section \<open>What the board adds\<close>

definition assignment_of ::
  "world \<Rightarrow> transition_ask \<Rightarrow> team \<Rightarrow> board_row list \<Rightarrow> board_row \<Rightarrow> dependency_state list
     \<Rightarrow> assignment_input option" where
  "assignment_of w ask t b own deps =
     (case ask_assignee ask of
        None \<Rightarrow> None
      | Some who \<Rightarrow>
          let r = role_in t who in
          Some \<lparr>requested_by = ScrumMasterAsks,
                has_active_scrum_master = has_active ScrumMaster t,
                assignee_id = who, assignee_agent_role = r,
                reviewer_id = (case ask_reviewer ask of None \<Rightarrow> [] | Some i \<Rightarrow> i),
                reviewer_agent_role =
                  (case ask_reviewer ask of None \<Rightarrow> HumanRole | Some i \<Rightarrow> role_in t i),
                assignee_open_tasks = open_tasks b who (b_parent own),
                wip_limit = wip_limit_of t, dependency_states = deps,
                browser = (if r = UiUxDesigner then designer_browser_of w t else BrowserReady),
                private_folder_busy = False, lane_builder = None, assignment_solo = is_solo t,
                past_limit_allowed = False\<rparr>)"

definition is_idle :: "world \<Rightarrow> string \<Rightarrow> bool" where
  "is_idle w who = (case session_running w of None \<Rightarrow> False | Some busy \<Rightarrow> \<not> busy who)"

definition fill_assignment ::
  "world \<Rightarrow> contract_files \<Rightarrow> board_row list \<Rightarrow> board_row \<Rightarrow> task_contract \<Rightarrow> team \<Rightarrow> bool
     \<Rightarrow> assignment_input \<Rightarrow> (door_error, assignment_input) result" where
  "fill_assignment w files b own contract t autopilot input =
     and_then (private_folder_busy_on files b own (assignee_agent_role input)) (\<lambda>busy.
     and_then (lane_builder_of files t b own contract) (\<lambda>builder.
       Inr (input\<lparr>past_limit_allowed := autopilot \<and> is_idle w (assignee_id input),
                  private_folder_busy := busy, lane_builder := builder\<rparr>)))"

definition awaits_the_product_plan_of :: "world \<Rightarrow> project \<Rightarrow> (door_error, bool) result" where
  "awaits_the_product_plan_of w p =
     (if new_project (log_of p) = None then Inr False
      else and_then (team_on_file w) (\<lambda>t.
        if is_solo t then Inr False
        else and_then (board_of w p) (\<lambda>b.
          Inr (\<not> list_ex (\<lambda>r. b_status r = Accepted
                   \<and> list_ex (\<lambda>(made, _). made = b_task r) (product_plan_tasks (log_of p))) b))))"

definition readiness_parts ::
  "world \<Rightarrow> project \<Rightarrow> board_row list \<Rightarrow> team \<Rightarrow> task_contract \<Rightarrow> date_time
     \<Rightarrow> (door_error, budget_state \<times> readiness_context) result" where
  "readiness_parts w p b t contract now =
     and_then (stored (budget_state_of (sum_usd_of w) (float_add_of w) (log_of p) (tables_of p) t
        (assignee_role contract) (assignee contract) (Some contract) no_session now)) (\<lambda>budget.
     and_then (parent_state_of (float_sub_of w) (files_of p) b contract) (\<lambda>above.
     and_then (awaits_the_product_plan_of w p) (\<lambda>awaits.
     and_then (repos_on_file w) (\<lambda>listed.
       Inr (budget,
         \<lparr>dependency_statuses = filter_map (\<lambda>d. map_option (\<lambda>s. (d, s)) (status_on b d)) (dependencies contract),
          active_agents_by_role = active_agents_by_role_of t,
          parent_of = above, rules = team_rules_of t, awaits_the_product_plan = awaits,
          is_the_product_plan = is_the_product_plan_in (history_of (log_of p) (task_id contract)),
          repos = listed, ready_solo = is_solo t\<rparr>)))))"

definition stale_twins_among ::
  "world \<Rightarrow> log \<Rightarrow> team \<Rightarrow> string list \<Rightarrow> (door_error, string list) result" where
  "stale_twins_among w l t changed =
     (if list_ex (\<lambda>path. human_of_twin path \<noteq> None) changed then stale_among w t l else Inr [])"

definition has_no_branch :: "world \<Rightarrow> log \<Rightarrow> team \<Rightarrow> task_contract \<Rightarrow> (door_error, bool) result" where
  "has_no_branch w l t contract =
     (if is_documents_only contract then reads_disk w t l else Inr False)"

section \<open>The human's acceptance\<close>

text \<open>One passing result for each criterion the human's acceptance answers, in place of an older one
  of the same runner.\<close>

definition put_result :: "criterion_result list \<Rightarrow> criterion_result \<Rightarrow> criterion_result list" where
  "put_result rs r =
     filter (\<lambda>x. result_criterion_id x \<noteq> result_criterion_id r \<or> result_run_by x \<noteq> result_run_by r) rs @ [r]"

definition answered_by :: "bool \<Rightarrow> exit_criterion \<Rightarrow> run_by option" where
  "answered_by reviews c =
     (if criterion_method c = Some ''human'' then Some ByHuman
      else if criterion_method c = Some ''review'' \<and> reviews then Some ByReviewer else None)"

definition with_the_humans_acceptance :: "task_contract \<Rightarrow> log \<Rightarrow> done_evidence \<Rightarrow> done_evidence" where
  "with_the_humans_acceptance contract history d =
     (case result_accepted history of
        None \<Rightarrow> d
      | Some (at_seq, message) \<Rightarrow>
          let reviews = the_human_reviews_the_epic (kind_of contract) (reviewer contract) in
          d\<lparr>human_accepted := True,
            results := foldl (\<lambda>rs c. case answered_by reviews c of None \<Rightarrow> rs
                 | Some by \<Rightarrow> put_result rs \<lparr>result_criterion_id = criterion_id c, passed = True,
                                             evidence_text = ''human.accepted at seq '' @ decimal at_seq, result_run_by = by\<rparr>)
               (results d) (exit_criteria contract),
            review_note := (if reviews then message else review_note d)\<rparr>)"

section \<open>The context\<close>

fun move_from_body :: "event_body \<Rightarrow> task_status option" where
  "move_from_body (TaskTransitioned b) = Some (move_from b)"
| "move_from_body _ = None"

definition hours_limit :: "team \<Rightarrow> duration" where
  "hours_limit t =
     min (blocked_limit_hours (team_policy t) * 3600) 18446744073709551615 * 1000000000"

definition done_evidence_of ::
  "team \<Rightarrow> task_contract \<Rightarrow> log \<Rightarrow> string list \<Rightarrow> review_state \<Rightarrow> string list \<Rightarrow> done_evidence" where
  "done_evidence_of t contract history changed review stale =
     (let v = evidence_since_work_began history in
      with_the_humans_acceptance contract history
        \<lparr>results = evidence_results v, changed_paths = changed,
         completion_note = evidence_completion v, review_note = evidence_review v,
         human_accepted = False,
         evidence_protected_paths = unwritable
           (case assignee contract of None \<Rightarrow> team_rules_of t | Some who \<Rightarrow> rules_for t who),
         design_review = (case review of ReviewNotNeeded \<Rightarrow> NotNeeded | ReviewPassed \<Rightarrow> Passed
                          | _ \<Rightarrow> Missing),
         stale_twins = stale\<rparr>)"

text \<open>The contract as the board has it: the file's, with its status, people and iteration taken from
  the row, since the log is the record of what happened.\<close>

definition as_on_the_board :: "board_row \<Rightarrow> task_contract \<Rightarrow> task_contract" where
  "as_on_the_board r contract =
     contract\<lparr>status := b_status r, assignee := b_assignee r, reviewer := b_reviewer r,
              iteration_field := ucast (b_iteration r)\<rparr>"

definition context_at ::
  "world \<Rightarrow> project \<Rightarrow> date_time \<Rightarrow> transition_request \<Rightarrow> transition_ask \<Rightarrow> team
     \<Rightarrow> (door_error, transition_context) result" where
  "context_at w p now request raw t =
     (let ask = tidied raw; i = asked_task request in
      and_then (board_of w p) (\<lambda>b.
      and_then (known_row b i) (\<lambda>own.
      and_then (read_contract (files_of p) i) (\<lambda>file.
      let contract = as_on_the_board own file; history = history_of (log_of p) i in
      and_then (readiness_parts w p b t contract now) (\<lambda>(budget, readiness).
      and_then (work_of w (log_of p) contract t (case ask_workbooks ask of None \<Rightarrow> [] | Some n \<Rightarrow> n))
        (\<lambda>(work, changed).
      let autopilot = autopilot_in (log_of p) in
      and_then (case assignment_of w ask t b own (dependency_states_on contract b) of
          None \<Rightarrow> Inr None
        | Some input \<Rightarrow> and_then (fill_assignment w (files_of p) b own contract t autopilot input)
                         (\<lambda>filled. Inr (Some filled))) (\<lambda>assigns.
      let (_, review, reviewed_by) = review_of w t contract changed history in
      and_then (stale_twins_among w (log_of p) t changed) (\<lambda>stale.
      and_then (has_no_branch w (log_of p) t contract) (\<lambda>branchless.
      let entered = last_move_into history Blocked in
      Inr \<lparr>ctx_contract = contract, ctx_triaged = b_triaged own, ctx_children = children_of b i,
           ctx_readiness = readiness,
           readiness_failed_attempts = readiness_failures_in history,
           readiness_attempt_limit = readiness_attempts t,
           ctx_assignment = assigns,
           ctx_assignee_results = evidence_results (evidence_since_work_began history),
           ctx_work = work, ctx_blocker = ask_blocker ask,
           ctx_blocker_resolution = ask_resolution ask,
           ctx_blocked_from = Option.bind entered (\<lambda>e. move_from_body (body e)),
           pull_request_conflicts = (case ask_conflicts ask of None \<Rightarrow> [] | Some c \<Rightarrow> c),
           ctx_blocked_at = map_option recorded_at entered,
           ctx_now = now, ctx_blocked_limit = hours_limit t,
           ctx_done = done_evidence_of t contract history changed review stale,
           ctx_rejection = ask_rejection ask, ctx_budget = budget,
           permission_denied = ask_denied ask,
           criterion_unrunnable = (ask_unrunnable ask \<noteq> None),
           preview_failed = (ask_preview_failed ask \<noteq> None),
           ctx_awaits_human = result_awaits_human contract,
           review_passed = review_passed_in history,
           extra_iterations = extra_tries history,
           design_plan_returns = design_returns history,
           design_reviewer = (if review = ReviewFailed then reviewed_by else None),
           ctx_solo = is_solo t, documents_stay_local = branchless,
           autopilot_on = autopilot\<rparr>)))))))))"

section \<open>Before the governor\<close>

text \<open>\<open>request\<close>'s \<open>the_given_agent\<close>: the agent the owner gave the task in its chat has the Product
  Manager's standing while the task is planned, and one agent alone assigns its own.\<close>

definition the_given_agent ::
  "log \<Rightarrow> team \<Rightarrow> transition_request \<Rightarrow> task_contract \<Rightarrow> bool" where
  "the_given_agent l t request contract \<longleftrightarrow>
     asked_actor request = ProductManagerActor
     \<and> (status contract \<in> {Draft, Refining}
        \<or> (is_solo t \<and> status contract = Ready \<and> asked_to request = Assigned))
     \<and> asked_agent request \<noteq> None
     \<and> given_to l (asked_task request) = map_option trim (asked_agent request)"

definition door_failure :: "team \<Rightarrow> bool \<Rightarrow> named_as \<Rightarrow> string option \<Rightarrow> door_reason list" where
  "door_failure t human_reviews as who =
     (case trimmed who of
        None \<Rightarrow> if as = AsReviewer \<and> human_reviews then [] else [NamesNo as]
      | Some i \<Rightarrow> (case agent_named t i of
          None \<Rightarrow> [NotOfThisTeam i as]
        | Some a \<Rightarrow> if agent_status a \<noteq> Active then [NotAnActiveAgent i (agent_status a) as] else []))"

fun team_role_asked :: "transition_actor \<Rightarrow> role option" where
  "team_role_asked ProductManagerActor = Some ProductManager"
| "team_role_asked ScrumMasterActor = Some ScrumMaster"
| "team_role_asked AssigneeActor = None"
| "team_role_asked ReviewerActor = None"
| "team_role_asked GovernorActor = None"
| "team_role_asked HumanActor = None"

definition holds_role :: "team \<Rightarrow> role \<Rightarrow> string option \<Rightarrow> bool" where
  "holds_role t r who =
     (case who of None \<Rightarrow> False
      | Some i \<Rightarrow> list_ex (\<lambda>a. agent_id a = trim i \<and> agent_role a = r) (active_members t))"

definition refused_before_the_governor ::
  "transition_request \<Rightarrow> transition_ask \<Rightarrow> team \<Rightarrow> task_contract \<Rightarrow> bool \<Rightarrow> transition_refusal option" where
  "refused_before_the_governor request ask t contract given =
     (case team_role_asked (asked_actor request) of
        None \<Rightarrow> None
      | Some r \<Rightarrow>
          if \<not> (given \<or> holds_role t r (asked_agent request))
          then Some (NotTheNamedAgent (asked_actor request) None (asked_agent request))
          else if status contract \<noteq> Ready \<or> asked_to request \<noteq> Assigned then None
          else
            (let human_reviews = reviewed_by_the_human contract t \<or> is_solo t;
                 details = door_failure t human_reviews AsAssignee (ask_assignee ask)
                           @ door_failure t human_reviews AsReviewer (ask_reviewer ask)
             in if details = [] then None
                else Some (GateFailed [\<lparr>failed_gate = AssignmentGate,
                                        failed_details = map AtDoor details\<rparr>])))"

definition decide ::
  "world \<Rightarrow> project \<Rightarrow> transition_request \<Rightarrow> transition_ask \<Rightarrow> team \<Rightarrow> transition_context
     \<Rightarrow> (transition_refusal, transition_decision) result" where
  "decide w p request ask t context =
     (case refused_before_the_governor request ask t (ctx_contract context)
             (the_given_agent (log_of p) t request (ctx_contract context)) of
        Some no \<Rightarrow> Inl no
      | None \<Rightarrow> evaluate_transition (engine w) request context)"

end
