(* ===== verification/Door.thy ===== *)
theory Door
  imports Context
begin

text \<open>
  The writing half of crates/runtime/src/transitions.rs, the one door every move goes through:
  \<open>request\<close>, \<open>record_move\<close>, \<open>tidy\<close>, \<open>reassign\<close> and \<open>record_branch\<close>. An operation takes the project
  and gives its answer with the project it leaves, an error included: what was written before the
  error stays written. The mutex that keeps two requests apart is the model's: an operation is one
  step. The text of a posted line is left out; its event is there.
\<close>

section \<open>Operations\<close>

type_synonym 'a door = "project \<Rightarrow> (door_error, 'a) result \<times> project"

definition answer :: "'a \<Rightarrow> 'a door" where
  "answer a p = (Inr a, p)"

definition door_then :: "'a door \<Rightarrow> ('a \<Rightarrow> 'b door) \<Rightarrow> 'b door" where
  "door_then m f p = (case m p of (Inl e, q) \<Rightarrow> (Inl e, q) | (Inr a, q) \<Rightarrow> f a q)"

definition reading :: "(project \<Rightarrow> (door_error, 'a) result) \<Rightarrow> 'a door" where
  "reading r p = (r p, p)"

fun each_do :: "('x \<Rightarrow> unit door) \<Rightarrow> 'x list \<Rightarrow> unit door" where
  "each_do f [] = answer ()"
| "each_do f (x # xs) = door_then (f x) (\<lambda>_. each_do f xs)"

definition read_clock :: "world \<Rightarrow> date_time door" where
  "read_clock w p = (Inr (clock_at w (ticks p)), p\<lparr>ticks := ticks p + 1\<rparr>)"

definition write_file :: "world \<Rightarrow> task_contract \<Rightarrow> unit door" where
  "write_file w c p =
     (case write_refused w (ticks p) c of
        Some e \<Rightarrow> (Inl (FilesRefused e), p)
      | None \<Rightarrow> (Inr (), p\<lparr>files_of := write_contract (files_of p) c\<rparr>))"

text \<open>\<open>EventLog::append\<close>, and \<open>Projections::apply\<close> of what it appended. An event that was appended and not
  applied stays in the log, and the tables stay behind it.\<close>

definition log_event :: "world \<Rightarrow> date_time \<Rightarrow> event_ids \<Rightarrow> event_body \<Rightarrow> event door" where
  "log_event w now i b p =
     (case append (append_refused w (ticks p) i b) (log_of p) now i b of
        Inl e \<Rightarrow> (Inl (StoreRefused e), p)
      | Inr e \<Rightarrow> (Inr e, p\<lparr>log_of := log_of p @ [e]\<rparr>))"

definition project_event :: "world \<Rightarrow> event \<Rightarrow> unit door" where
  "project_event w e p =
     (case apply_refused w (ticks p) e of
        Some err \<Rightarrow> (Inl (ProjectionsRefused err), p)
      | None \<Rightarrow>
          (case apply_event (log_of p) e (tables_of p) of
             Inl err \<Rightarrow> (Inl (ProjectionsRefused err), p)
           | Inr t \<Rightarrow> (Inr (), p\<lparr>tables_of := t\<rparr>)))"

definition append_about ::
  "world \<Rightarrow> string \<Rightarrow> string option \<Rightarrow> string option \<Rightarrow> event_body \<Rightarrow> unit door" where
  "append_about w i who sess b =
     door_then (read_clock w) (\<lambda>now.
     door_then (log_event w now \<lparr>about_task = Some i, by_agent = who, in_session = sess\<rparr> b) (project_event w))"

definition stamped_agent :: "transition_request \<Rightarrow> string option" where
  "stamped_agent request =
     (if asked_actor request \<in> {HumanActor, GovernorActor} then None else asked_agent request)"

definition append_for :: "world \<Rightarrow> transition_request \<Rightarrow> transition_ask \<Rightarrow> event_body \<Rightarrow> unit door" where
  "append_for w request ask b =
     append_about w (asked_task request) (stamped_agent request) (ask_session ask) b"

text \<open>\<open>post_system\<close>: a line in the team's channel, which no projection reads.\<close>

definition post_line :: "world \<Rightarrow> transition_request \<Rightarrow> transition_ask \<Rightarrow> unit door" where
  "post_line w request ask =
     door_then (read_clock w) (\<lambda>now.
     door_then (log_event w now \<lparr>about_task = Some (asked_task request), by_agent = None,
                               in_session = ask_session ask\<rparr> (OtherEvent ''message.posted''))
       (\<lambda>_. answer ()))"

section \<open>What the wire says\<close>

fun effect_wire :: "transition_effect \<Rightarrow> effect_item" where
  "effect_wire IncrementIteration = IncrementIterationItem"
| "effect_wire (RaiseEscalation _) = RaiseEscalationItem"
| "effect_wire ResetBlocker = ResetBlockerItem"
| "effect_wire StampBlockedAt = StampBlockedAtItem"
| "effect_wire NothingToIntegrate = NothingToIntegrateItem"

fun actor_name :: "transition_actor \<Rightarrow> string" where
  "actor_name ProductManagerActor = ''product_manager''"
| "actor_name ScrumMasterActor = ''scrum_master''"
| "actor_name AssigneeActor = ''assignee''"
| "actor_name ReviewerActor = ''reviewer''"
| "actor_name GovernorActor = ''governor''"
| "actor_name HumanActor = ''human''"

fun gate_name :: "gate_id \<Rightarrow> string" where
  "gate_name NoGate = ''none''"
| "gate_name Triaged = ''triaged''"
| "gate_name DefinitionOfReady = ''definition_of_ready''"
| "gate_name ReadinessExhausted = ''readiness_exhausted''"
| "gate_name ContractRequiresHuman = ''contract_requires_human''"
| "gate_name AssignmentGate = ''assignment''"
| "gate_name CriteriaRecorded = ''criteria_recorded''"
| "gate_name BlockerWritten = ''blocker_written''"
| "gate_name BlockerResolved = ''blocker_resolved''"
| "gate_name BlockedAgeGate = ''blocked_age''"
| "gate_name DefinitionOfDone = ''definition_of_done''"
| "gate_name RejectionReasons = ''rejection_reasons''"
| "gate_name IterationBelowLimit = ''iteration_below_limit''"
| "gate_name IterationLimitReached = ''iteration_limit_reached''"
| "gate_name GovernorEscalation = ''governor_escalation''"
| "gate_name HumanRejection = ''human_rejection''"
| "gate_name PullRequestConflicted = ''pull_request_conflicted''"
| "gate_name DependencyCancelled = ''dependency_cancelled''"
| "gate_name Autopilot = ''autopilot''"

definition requested_by_of :: "transition_request \<Rightarrow> string" where
  "requested_by_of request =
     (if asked_actor request \<in> {HumanActor, GovernorActor} then actor_name (asked_actor request)
      else case trimmed (asked_agent request) of
        None \<Rightarrow> actor_name (asked_actor request) | Some i \<Rightarrow> i)"

fun evaluated_gate :: "gate_id \<Rightarrow> judged_gate option" where
  "evaluated_gate DefinitionOfReady = Some EvaluatedReady"
| "evaluated_gate DefinitionOfDone = Some EvaluatedDone"
| "evaluated_gate _ = None"

fun evaluations ::
  "(transition_refusal, transition_decision) result \<Rightarrow> (judged_gate \<times> bool \<times> gate_detail list) list" where
  "evaluations (Inr d) =
     (case evaluated_gate (row_gate (decided_row d)) of
        None \<Rightarrow> [] | Some gate \<Rightarrow> [(gate, True, [])])"
| "evaluations (Inl (GateFailed failures)) =
     filter_map (\<lambda>f. map_option (\<lambda>gate. (gate, False, failed_details f)) (evaluated_gate (failed_gate f)))
       failures"
| "evaluations (Inl _) = []"

section \<open>Recording a move\<close>

definition first_some :: "'a option list \<Rightarrow> 'a option" where
  "first_some xs = find_map id xs"

definition escalation_words ::
  "log \<Rightarrow> transition_request \<Rightarrow> transition_ask \<Rightarrow> transition_decision \<Rightarrow> string option" where
  "escalation_words l request ask d =
     (let said = first_some [map_option rejection_reasons (ask_rejection ask),
                             map_option description (ask_blocker ask), ask_reason ask,
                             ask_unrunnable ask, ask_preview_failed ask]
      in if said = None \<and> decided_from d = Blocked
         then Option.bind (last_move_into (history_of l (asked_task request)) Blocked)
                (\<lambda>e. case body e of TaskTransitioned b \<Rightarrow> map_option description (move_blocker b)
                     | _ \<Rightarrow> None)
         else said)"

definition escalation_detail ::
  "log \<Rightarrow> transition_request \<Rightarrow> transition_ask \<Rightarrow> transition_decision \<Rightarrow> string" where
  "escalation_detail l request ask d =
     (case trimmed (escalation_words l request ask d) of
        Some said \<Rightarrow> said | None \<Rightarrow> gate_name (row_gate (decided_row d)))"

definition recorded_effects :: "transition_ask \<Rightarrow> transition_decision \<Rightarrow> transition_effect list" where
  "recorded_effects ask d =
     (if ask_grants_tries ask \<and> IncrementIteration \<notin> set (decided_effects d)
      then IncrementIteration # decided_effects d else decided_effects d)"

definition moved_contract ::
  "transition_ask \<Rightarrow> transition_decision \<Rightarrow> task_contract \<Rightarrow> task_contract" where
  "moved_contract ask d contract =
     (let assigns = decided_from d = Ready \<and> decided_to d = Assigned in
      contract\<lparr>status := decided_to d,
        iteration_field := (if IncrementIteration \<in> set (recorded_effects ask d)
                            then saturating_add (iteration_field contract) 1 else iteration_field contract),
        assignee := (if assigns then ask_assignee ask else assignee contract),
        reviewer := (if assigns then ask_reviewer ask else reviewer contract)\<rparr>)"

definition move_body_of ::
  "transition_request \<Rightarrow> transition_ask \<Rightarrow> task_contract \<Rightarrow> folder_work option \<Rightarrow> transition_decision \<Rightarrow> move_body" where
  "move_body_of request ask moved folder d =
     (let recorded = recorded_effects ask d in
      \<lparr>move_from = decided_from d, move_to = decided_to d,
       move_actor = asked_actor request, move_requested_by = requested_by_of request,
       move_gate = row_gate (decided_row d), move_effects = map effect_wire recorded,
       move_assignee = assignee moved, move_reviewer = reviewer moved,
       move_iteration = u32_saturating (iteration_field moved),
       move_blocker = ask_blocker ask, move_blocker_resolution = ask_resolution ask,
       move_rejection = ask_rejection ask, move_reason = ask_reason ask,
       move_changed = (if NothingToIntegrate \<in> set recorded then map_option changed_in_folder folder
                       else None)\<rparr>)"

fun raised_by :: "transition_effect \<Rightarrow> escalation_reason option" where
  "raised_by (RaiseEscalation reason) = Some reason"
| "raised_by _ = None"

definition is_told :: "transition_request \<Rightarrow> transition_ask \<Rightarrow> bool" where
  "is_told request ask \<longleftrightarrow> ask_filed ask \<or> asked_actor request \<in> {GovernorActor, HumanActor}"

definition raise_escalation ::
  "world \<Rightarrow> transition_request \<Rightarrow> transition_ask \<Rightarrow> transition_decision \<Rightarrow> escalation_reason \<Rightarrow> unit door" where
  "raise_escalation w request ask d reason p =
     append_for w request ask
       (WaitingEvent (EscalationRaised reason (escalation_detail (log_of p) request ask d))) p"

definition record_move ::
  "world \<Rightarrow> transition_request \<Rightarrow> transition_ask \<Rightarrow> task_contract \<Rightarrow> folder_work option
     \<Rightarrow> transition_decision \<Rightarrow> unit door" where
  "record_move w request ask contract folder d =
     (let moved = moved_contract ask d contract in
      door_then (read_clock w) (\<lambda>_.
      door_then (write_file w moved) (\<lambda>_.
      door_then (append_for w request ask
          (TaskTransitioned (move_body_of request ask moved folder d))) (\<lambda>_.
      door_then (each_do (raise_escalation w request ask d)
          (filter_map raised_by (decided_effects d))) (\<lambda>_.
      if is_told request ask then post_line w request ask else answer ())))))"

section \<open>Tidying before the work is judged\<close>

definition is_outside :: "world \<Rightarrow> task_contract \<Rightarrow> string \<Rightarrow> bool" where
  "is_outside w contract path \<longleftrightarrow>
     (case check_allowed_paths (engine w) [path] (allowed_paths contract) of
        Inl (Violations _) \<Rightarrow> True | _ \<Rightarrow> False)"

definition sorted_once :: "string list \<Rightarrow> string list" where
  "sorted_once xs = sort (each_once xs)"

definition changed_outside :: "world \<Rightarrow> task_contract \<Rightarrow> uncommitted list \<Rightarrow> string list" where
  "changed_outside w contract entries =
     sorted_once (filter_map (\<lambda>e. case e of
        Changed path \<Rightarrow> if is_outside w contract path then Some path else None | _ \<Rightarrow> None) entries)"

definition untracked_outside :: "world \<Rightarrow> task_contract \<Rightarrow> uncommitted list \<Rightarrow> string list" where
  "untracked_outside w contract entries =
     sorted_once (filter_map (\<lambda>e. case e of
        Untracked path \<Rightarrow> if is_outside w contract path then Some path else None | _ \<Rightarrow> None) entries)"

definition tidy_documents ::
  "world \<Rightarrow> log \<Rightarrow> team \<Rightarrow> task_contract \<Rightarrow> (door_error, string list \<times> string list) result" where
  "tidy_documents w l t contract =
     and_then (reads_disk w t l) (\<lambda>on_disk.
       if on_disk
       then and_then (documents_touched w contract) (\<lambda>touched.
         Inr (map fst (filter snd touched), map fst (filter (\<lambda>d. \<not> snd d) touched)))
       else Inr ([], []))"

text \<open>What \<open>tidy\<close> puts back and removes: nothing for a task in a private folder, with no worktree,
  whose member is gone, or while a merge is in progress.\<close>

definition to_tidy ::
  "world \<Rightarrow> log \<Rightarrow> contract_files \<Rightarrow> string \<Rightarrow> team \<Rightarrow> (door_error, (string list \<times> string list) option) result" where
  "to_tidy w l files i t =
     and_then (read_contract files i) (\<lambda>contract.
     if task_private_folder contract \<noteq> None \<or> \<not> has_worktree w (task_id contract) then Inr None
     else and_then (member_there w t (repo contract)) (\<lambda>there.
       if \<not> there then Inr None
       else and_then (merging w i) (\<lambda>busy.
         if busy then Inr None
         else and_then (uncommitted_in w i) (\<lambda>entries.
           and_then (tidy_documents w l t contract) (\<lambda>(documents_back, documents_gone).
             let back = changed_outside w contract entries; gone = untracked_outside w contract entries in
             if back = [] \<and> gone = [] \<and> documents_back = [] \<and> documents_gone = [] then Inr None
             else and_then (put_back_in w i back) (\<lambda>_. and_then (removed_from w i gone) (\<lambda>_.
               Inr (Some (sorted_once (back @ documents_back), sorted_once (gone @ documents_gone))))))))))"

definition tidy ::
  "world \<Rightarrow> string \<Rightarrow> team \<Rightarrow> (transition_request \<times> transition_ask) option \<Rightarrow> unit door" where
  "tidy w i t by =
     door_then (reading (\<lambda>p. to_tidy w (log_of p) (files_of p) i t)) (\<lambda>done.
       case done of
         None \<Rightarrow> answer ()
       | Some (back, gone) \<Rightarrow>
           (case by of
              None \<Rightarrow> append_about w i None None (WorktreeTidied back gone)
            | Some (request, ask) \<Rightarrow>
                append_about w i (stamped_agent request) (ask_session ask) (WorktreeTidied back gone)))"

section \<open>The request\<close>

datatype transition_outcome = MovedTo transition_decision | RefusedFor transition_refusal

definition record_decided ::
  "world \<Rightarrow> transition_request \<Rightarrow> transition_ask \<Rightarrow> transition_context
     \<Rightarrow> (transition_refusal, transition_decision) result \<Rightarrow> transition_outcome door" where
  "record_decided w request ask context decided =
     door_then (each_do (\<lambda>(gate, passes, failures).
         append_for w request ask (ContractEvaluated gate passes failures)) (evaluations decided)) (\<lambda>_.
     case decided of
       Inr d \<Rightarrow>
         door_then (record_move w request ask (ctx_contract context)
             (folder_of_work (ctx_work context)) d) (\<lambda>_. answer (MovedTo d))
     | Inl no \<Rightarrow>
         door_then (append_for w request ask (TransitionRefused
             \<lparr>refused_from = status (ctx_contract context), refused_to = asked_to request,
              refused_actor = asked_actor request, refused_requested_by = requested_by_of request,
              refusal = no\<rparr>)) (\<lambda>_. answer (RefusedFor no)))"

definition request ::
  "world \<Rightarrow> transition_request \<Rightarrow> transition_ask \<Rightarrow> team \<Rightarrow> transition_outcome door" where
  "request w q raw t =
     (let ask = tidied raw in
      door_then (if asked_to q = Verifying then tidy w (asked_task q) t (Some (q, ask)) else answer ()) (\<lambda>_.
      door_then (read_clock w) (\<lambda>now.
      door_then (reading (\<lambda>p. context_at w p now q ask t)) (\<lambda>context.
      door_then (reading (\<lambda>p. Inr (decide w p q ask t context))) (\<lambda>decided.
        record_decided w q ask context decided)))))"

section \<open>A hand-over and a branch\<close>

datatype reassign_outcome = Reassigned event | NotReassigned "hand_over_reason list"

definition reassignment_of ::
  "team \<Rightarrow> board_row list \<Rightarrow> board_row \<Rightarrow> task_contract \<Rightarrow> string \<Rightarrow> reassignment_input" where
  "reassignment_of t b own contract to =
     (let candidate = agent_named t to in
      \<lparr>re_kind = kind_of contract, re_status = b_status own,
       returning = row_counts_towards_wip own \<and> b_task own \<notin> set (within_limit t b),
       has_lane = (lane contract \<noteq> None),
       re_from = (case b_assignee own of None \<Rightarrow> [] | Some i \<Rightarrow> i), re_to = to,
       to_role = (case candidate of None \<Rightarrow> HumanRole | Some a \<Rightarrow> agent_role a),
       to_active = (case candidate of None \<Rightarrow> False | Some a \<Rightarrow> agent_status a = Active),
       to_open_tasks = open_tasks b to (b_parent own), re_wip_limit = wip_limit_of t,
       re_reviewer_id = b_reviewer own\<rparr>)"

definition reassign :: "world \<Rightarrow> string \<Rightarrow> string \<Rightarrow> team \<Rightarrow> reassign_outcome door" where
  "reassign w i to t =
     door_then (reading (board_of w)) (\<lambda>b.
     door_then (reading (\<lambda>_. known_row b i)) (\<lambda>own.
     door_then (reading (\<lambda>p. read_contract (files_of p) i)) (\<lambda>contract.
     let input = reassignment_of t b own contract to in
     case check_reassignment contract input of
       Inl reasons \<Rightarrow> answer (NotReassigned reasons)
     | Inr _ \<Rightarrow>
         door_then (read_clock w) (\<lambda>now.
         door_then (write_file w (contract\<lparr>assignee := Some to\<rparr>)) (\<lambda>_.
         door_then (log_event w now \<lparr>about_task = Some i, by_agent = None, in_session = None\<rparr>
             (TaskReassigned (re_from input) to)) (\<lambda>e.
         door_then (project_event w e) (\<lambda>_. answer (Reassigned e))))))))"

text \<open>\<open>valid\<close> says what a contract can hold as a branch name, by the schema's pattern.\<close>

definition record_branch :: "world \<Rightarrow> (string \<Rightarrow> bool) \<Rightarrow> string \<Rightarrow> string \<Rightarrow> string door" where
  "record_branch w valid i name =
     door_then (reading (\<lambda>p. read_contract (files_of p) i)) (\<lambda>contract.
       case branch contract of
         Some recorded \<Rightarrow> answer recorded
       | None \<Rightarrow>
           if valid name
           then door_then (write_file w (contract\<lparr>branch := Some name\<rparr>)) (\<lambda>_. answer name)
           else reading (\<lambda>_. Inl (BadBranch name)))"

end
