(* ===== verification/Standings.thy ===== *)
theory Standings
  imports Projections
begin

text \<open>
  What a move may change of a task's row, as an abstract specification: a task's standing (status,
  holder, reviewer, tries) is the fold of its own history, and the tables of
  crates/store/src/projections.rs refine it.
\<close>

record standing =
  stands :: task_status
  holder :: "string option"
  judge :: "string option"
  tries :: u32

definition standing_of :: "task_row \<Rightarrow> standing" where
  "standing_of r = \<lparr>stands = row_status r, holder = row_assignee r, judge = row_reviewer r,
                    tries = row_iteration r\<rparr>"

definition standing_at :: "tables \<Rightarrow> string \<Rightarrow> standing option" where
  "standing_at t i = map_option standing_of (row_in t i)"

definition written :: "contract_summary \<Rightarrow> standing option \<Rightarrow> standing option" where
  "written s st = Some (case st of
     None \<Rightarrow> \<lparr>stands = summary_status s, holder = None, judge = None, tries = 0\<rparr>
   | Some x \<Rightarrow> x\<lparr>stands := summary_status s\<rparr>)"

fun effect_on :: "event_body \<Rightarrow> standing option \<Rightarrow> standing option" where
  "effect_on (TaskCreated s _ _ _) st = written s st"
| "effect_on (ContractWritten s) st = written s st"
| "effect_on (TaskTransitioned b) st =
     map_option (\<lambda>_. \<lparr>stands = move_to b, holder = move_assignee b, judge = move_reviewer b,
                      tries = move_iteration b\<rparr>) st"
| "effect_on (TaskReassigned _ to) st = map_option (\<lambda>x. x\<lparr>holder := Some to\<rparr>) st"
| "effect_on _ st = st"

definition standing_in :: "log \<Rightarrow> string \<Rightarrow> standing option" where
  "standing_in l i = foldl (\<lambda>st e. effect_on (body e) st) None (history_of l i)"

lemma standing_in_snoc:
  "standing_in (l @ [e]) i =
     (if about_task (ids e) = Some i then effect_on (body e) (standing_in l i) else standing_in l i)"
  by (simp add: standing_in_def history_of_def)

lemma standing_in_Nil [simp]: "standing_in [] i = None"
  by (simp add: standing_in_def history_of_def)

section \<open>The tables refine it\<close>

lemma find_map_key:
  "(\<And>r. P (f r) = P r) \<Longrightarrow> List.find P (map f xs) = map_option f (List.find P xs)"
  by (induction xs) simp_all

lemma standing_at_cong: "task_rows t' = task_rows t \<Longrightarrow> standing_at t' = standing_at t"
  by (simp add: standing_at_def row_in_def fun_eq_iff)

lemma standing_update_where:
  assumes "\<And>r. row_task (f r) = row_task r" and "\<And>r. standing_of (f r) = standing_of r"
  shows "standing_at (update_where p f t) = standing_at t"
proof
  fix j
  show "standing_at (update_where p f t) j = standing_at t j"
    using assms find_map_key [of "\<lambda>r. row_task r = j" "\<lambda>r. if p r then f r else r" "task_rows t"]
    by (simp add: standing_at_def row_in_def update_where_def option.map_comp comp_def if_distrib
        cong: if_cong)
qed

lemma row_in_update:
  assumes "\<And>r. row_task (f r) = row_task r"
  shows "row_in (update i f t) j = (if j = i then map_option f (row_in t j) else row_in t j)"
proof -
  have "List.find (\<lambda>r. row_task r = j) (map (\<lambda>r. if row_task r = i then f r else r) rs)
      = (if j = i then map_option f (List.find (\<lambda>r. row_task r = j) rs)
         else List.find (\<lambda>r. row_task r = j) rs)" for rs
    by (induction rs) (auto simp: assms)
  then show ?thesis by (simp add: row_in_def update_def update_where_def)
qed

lemma standing_update:
  assumes "\<And>r. row_task (f r) = row_task r" and "\<And>r. standing_of (f r) = g (standing_of r)"
  shows "standing_at (update i f t) j =
    (if j = i then map_option g (standing_at t j) else standing_at t j)"
  using row_in_update [of f i t j, OF assms(1)] assms(2)
  by (simp add: standing_at_def option.map_comp comp_def)

lemma standing_update_same:
  assumes "\<And>r. row_task (f r) = row_task r" and "\<And>r. standing_of (f r) = standing_of r"
  shows "standing_at (update i f t) = standing_at t"
  unfolding update_def using assms by (rule standing_update_where)

lemma standing_write_summary:
  "standing_at (write_summary i s n t) j =
     (if j = i then written s (standing_at t j) else standing_at t j)"
proof (cases "row_in t i")
  case None
  have find: "List.find P (rs @ [r]) =
      (case List.find P rs of None \<Rightarrow> if P r then Some r else None | Some x \<Rightarrow> Some x)" for P rs and r :: task_row
    by (induction rs) simp_all
  show ?thesis
    using None
    by (auto simp: write_summary_def standing_at_def row_in_def find written_def standing_of_def
        new_row_def split: option.split)
next
  case (Some r)
  then show ?thesis
    using standing_update [where i = i and j = j and t = t and g = "\<lambda>x. x\<lparr>stands := summary_status s\<rparr>"
        and f = "\<lambda>r. r\<lparr>row_kind := summary_kind s, row_parent := summary_parent s,
           row_title := summary_title s, row_status := summary_status s,
           row_risk := summary_risk s, updated_seq := n\<rparr>"]
    by (auto simp: write_summary_def standing_of_def written_def standing_at_def)
qed

lemma standing_wait_row [simp]: "standing_of (wait_row w n r) = standing_of r" "row_task (wait_row w n r) = row_task r"
  by (cases w; simp add: standing_of_def Let_def)+

lemma standing_apply_waiting [simp]: "standing_at (apply_waiting i w n t) = standing_at t"
proof -
  have "standing_at (apply_wait_counts i w n t) = standing_at t"
    unfolding apply_wait_counts_def by (rule standing_update_same) simp_all
  moreover have "standing_at (update_where p (\<lambda>r. r\<lparr>counted_seq := Some n\<rparr>) u) = standing_at u" for p u
    by (rule standing_update_where) (simp_all add: standing_of_def)
  ultimately show ?thesis by (simp add: apply_waiting_def Let_def)
qed

lemma standing_foldl:
  assumes "\<And>u i. standing_at (f u i) = standing_at u"
  shows "standing_at (foldl f t xs) = standing_at t"
  by (induction xs arbitrary: t) (simp_all add: assms)

lemma standing_apply_sprint: "standing_at (apply_sprint s n t) = standing_at t"
proof (cases s)
  case (SprintStarted i usd)
  show ?thesis unfolding SprintStarted by (rule standing_at_cong) simp
next
  case (SprintPlanned i tasks)
  have "standing_at (update j (\<lambda>r. r\<lparr>row_sprint := Some i, left_for_the_backlog := False, updated_seq := n\<rparr>) u)
      = standing_at u" for j u
    by (rule standing_update_same) (simp_all add: standing_of_def)
  then show ?thesis unfolding SprintPlanned apply_sprint.simps
    by (intro standing_foldl) (simp split: if_split)
next
  case (SprintEnded i left backlog)
  have "standing_at (update j (\<lambda>r. r\<lparr>left_for_the_backlog := True\<rparr>) u) = standing_at u" for j u
    by (rule standing_update_same) (simp_all add: standing_of_def)
  note marked = standing_foldl [of "\<lambda>u j. update j (\<lambda>r. r\<lparr>left_for_the_backlog := True\<rparr>) u", OF this]
  have "standing_at (update_where p (\<lambda>r. r\<lparr>row_sprint := None, updated_seq := n\<rparr>) u) = standing_at u" for p u
    by (rule standing_update_where) (simp_all add: standing_of_def)
  moreover have "standing_at (t\<lparr>sprints := rs\<rparr>) = standing_at t" for rs
    by (rule standing_at_cong) simp
  ultimately show ?thesis
    unfolding SprintEnded apply_sprint.simps Let_def by (simp only: marked split: if_split) simp
qed

lemma standing_apply_about:
  "standing_at (apply_about i b n t) j =
     (if j = i then effect_on b (standing_at t j) else standing_at t j)"
proof (cases b)
  case (TaskCreated s raises plan_of given)
  have "standing_at (update i (\<lambda>r. r\<lparr>skips_sprints := True\<rparr>) u) = standing_at u" for u
    by (rule standing_update_same) (simp_all add: standing_of_def)
  then show ?thesis by (simp add: TaskCreated Let_def standing_write_summary)
next
  case (ContractWritten s)
  then show ?thesis by (simp add: standing_write_summary)
next
  case (TaskTransitioned m)
  have "standing_of (move_row m n r) = \<lparr>stands = move_to m, holder = move_assignee m,
      judge = move_reviewer m, tries = move_iteration m\<rparr>" "row_task (move_row m n r) = row_task r" for r
    by (simp_all add: standing_of_def move_row_def Let_def)
  then show ?thesis
    unfolding TaskTransitioned apply_about.simps effect_on.simps apply_move_def
    by (intro standing_update) simp_all
next
  case (TaskReassigned a to)
  show ?thesis
    unfolding TaskReassigned apply_about.simps effect_on.simps
    by (intro standing_update) (simp_all add: standing_of_def)
next
  case (RequestTriaged sized)
  show ?thesis unfolding RequestTriaged apply_about.simps
    by (subst standing_update_same) (simp_all add: standing_of_def)
next
  case ContractLocked
  show ?thesis unfolding ContractLocked apply_about.simps set_locked_def
    by (subst standing_update_same) (simp_all add: standing_of_def)
next
  case ContractUnlocked
  show ?thesis unfolding ContractUnlocked apply_about.simps set_locked_def
    by (subst standing_update_same) (simp_all add: standing_of_def)
next
  case TaskIntegrated
  show ?thesis unfolding TaskIntegrated apply_about.simps
    by (subst standing_update_same) (simp_all add: standing_of_def)
qed simp_all

lemma standing_apply_to:
  assumes "apply_to e t = Inr t'"
  shows "standing_at t' j =
    (if about_task (ids e) = Some j then effect_on (body e) (standing_at t j) else standing_at t j)"
proof -
  define u where "u = (case body e of CostRecorded purpose usd \<Rightarrow> write_cost e purpose usd t | _ \<Rightarrow> t)"
  have u: "standing_at u = standing_at t"
    by (rule standing_at_cong) (simp add: u_def write_cost_def split: event_body.split)
  have t': "t' = (case body e of
          SprintEvent s \<Rightarrow> apply_sprint s (seq e) u
        | TeamUpdated (Some False) \<Rightarrow>
            update_where left_for_the_backlog (\<lambda>r. r\<lparr>left_for_the_backlog := False\<rparr>) u
        | _ \<Rightarrow> (case about_task (ids e) of None \<Rightarrow> u | Some i \<Rightarrow> apply_about i (body e) (seq e) u))"
    using assms unfolding apply_to_def u_def [symmetric] Let_def by (simp only: split: if_splits) simp_all
  consider (sprint) s where "body e = SprintEvent s" | (backlog) "body e = TeamUpdated (Some False)"
    | (else) "\<forall>s. body e \<noteq> SprintEvent s" "body e \<noteq> TeamUpdated (Some False)" by blast
  then show ?thesis
  proof cases
    case sprint
    then show ?thesis by (simp add: t' standing_apply_sprint u)
  next
    case backlog
    have "standing_at (update_where left_for_the_backlog (\<lambda>r. r\<lparr>left_for_the_backlog := False\<rparr>) u) = standing_at u"
      by (rule standing_update_where) (simp_all add: standing_of_def)
    with backlog show ?thesis by (simp add: t' u)
  next
    case else
    then have "t' = (case about_task (ids e) of None \<Rightarrow> u | Some i \<Rightarrow> apply_about i (body e) (seq e) u)"
      unfolding t' by (auto split: event_body.splits option.splits bool.splits)
    then show ?thesis by (auto simp: standing_apply_about u split: option.splits)
  qed
qed

lemma replay_snoc:
  assumes "well_numbered (l @ [e])"
  shows "replay (l @ [e]) = and_then (replay l) (\<lambda>t. and_then (apply_to e t) (\<lambda>t'. Inr (t'\<lparr>cursor := seq e\<rparr>)))"
proof -
  from assms obtain t where t: "replay l = Inr t" using replay_Inr by (auto simp: well_numbered_snoc)
  moreover have "cursor t = length l" "seq e = length l + 1"
    using assms t cursor_replay by (auto simp: well_numbered_snoc)
  ultimately show ?thesis
    by (simp add: replay_def apply_all_append apply_in_order_def and_then_def split: sum.split)
qed

lemma standing_replay:
  assumes "well_numbered l" and "replay l = Inr t"
  shows "standing_at t i = standing_in l i"
  using assms
proof (induction l arbitrary: t rule: rev_induct)
  case Nil
  then have "t = empty_tables" by (simp add: replay_def)
  then show ?case by (simp add: standing_at_def row_in_def empty_tables_def)
next
  case (snoc e l)
  obtain u t' where u: "replay l = Inr u" and t': "apply_to e u = Inr t'" and t: "t = t'\<lparr>cursor := seq e\<rparr>"
    using snoc.prems by (auto simp: replay_snoc and_then_def split: sum.splits)
  have "standing_at u i = standing_in l i"
    using snoc.IH u snoc.prems(1) by (auto simp: well_numbered_snoc)
  then show ?case
    using standing_apply_to [OF t', of i] standing_at_cong [of t t'] t
    by (simp add: standing_in_snoc)
qed

end
