(* ===== verification/Recording.thy ===== *)
theory Recording
  imports Door Standings
begin

text \<open>
  What one operation of the door does to a project. A project is \<open>current\<close> when its tables show the
  whole of its log; every operation keeps that, whatever it answers, unless the database did not take
  its events into the tables (\<open>left_behind\<close>), and \<open>recorded\<close> says which events
  it added. The lemmas give every outcome of a request, and what the contract it judges is.
\<close>

section \<open>Sequencing\<close>

lemma door_then_cases:
  assumes "door_then m f p = (r, p')"
  obtains (failed) e where "m p = (Inl e, p')" "r = Inl e"
    | (went) a q where "m p = (Inr a, q)" "f a q = (r, p')"
  using assms by (auto simp: door_then_def split: prod.splits sum.splits)

lemma door_then_Inr:
  "door_then m f p = (Inr b, p') \<longleftrightarrow> (\<exists>a q. m p = (Inr a, q) \<and> f a q = (Inr b, p'))"
  by (auto simp: door_then_def split: prod.splits sum.splits)

lemma door_then_reading:
  "door_then (reading g) f p = (case g p of Inl e \<Rightarrow> (Inl e, p) | Inr a \<Rightarrow> f a p)"
  by (simp add: door_then_def reading_def split: sum.split)

lemma door_then_clock [simp]:
  "door_then (read_clock w) f p = f (clock_at w (ticks p)) (p\<lparr>ticks := ticks p + 1\<rparr>)"
  by (simp add: door_then_def read_clock_def)

lemma door_then_file:
  "door_then (write_file w c) f p =
     (case write_refused w (ticks p) c of
        Some e \<Rightarrow> (Inl (FilesRefused e), p)
      | None \<Rightarrow> f () (p\<lparr>files_of := write_contract (files_of p) c\<rparr>))"
  by (simp add: door_then_def write_file_def split: option.split)

lemma door_then_log:
  "door_then (log_event w now i b) f p =
     (case append (append_refused w (ticks p) i b) (log_of p) now i b of
        Inl e \<Rightarrow> (Inl (StoreRefused e), p) | Inr e \<Rightarrow> f e (p\<lparr>log_of := log_of p @ [e]\<rparr>))"
  by (simp add: door_then_def log_event_def split: sum.split)

lemma door_then_project:
  "door_then (project_event w e) f p =
     (case apply_refused w (ticks p) e of
        Some err \<Rightarrow> (Inl (ProjectionsRefused err), p)
      | None \<Rightarrow>
          (case apply_event (log_of p) e (tables_of p) of
             Inl err \<Rightarrow> (Inl (ProjectionsRefused err), p) | Inr t \<Rightarrow> f () (p\<lparr>tables_of := t\<rparr>)))"
  by (simp add: door_then_def project_event_def split: sum.split option.split)

text \<open>An operation that failed because the database did not write the projections leaves the tables behind
  the log. Every other outcome keeps them current.\<close>

fun left_behind :: "(door_error, 'a) result \<Rightarrow> bool" where
  "left_behind (Inl (ProjectionsRefused e)) = True"
| "left_behind _ = False"

lemma left_behind_Inr [simp]: "\<not> left_behind (Inr a)"
  by simp

lemma left_behind_iff: "left_behind r \<longleftrightarrow> (\<exists>e. r = Inl (ProjectionsRefused e))"
  by (cases r rule: left_behind.cases) simp_all

lemma answer_simp [simp]: "answer a p = (Inr a, p)"
  by (simp add: answer_def)

section \<open>Projects that are current\<close>

definition current :: "project \<Rightarrow> bool" where
  "current p \<longleftrightarrow> well_numbered (log_of p) \<and> is_replay (log_of p) (tables_of p)
     \<and> (\<exists>t. replay (log_of p) = Inr t \<and> task_rows t = task_rows (tables_of p))"

definition recorded :: "project \<Rightarrow> string \<Rightarrow> event_body list \<Rightarrow> project \<Rightarrow> bool" where
  "recorded p i bs q \<longleftrightarrow> current q
     \<and> (\<exists>es. log_of q = log_of p @ es \<and> map body es = bs \<and> (\<forall>e \<in> set es. about_task (ids e) = Some i))"

lemma current_cong:
  "log_of q = log_of p \<Longrightarrow> tables_of q = tables_of p \<Longrightarrow> current q = current p"
  by (simp add: current_def)

lemma current_ticks [simp]: "current (p\<lparr>ticks := n\<rparr>) = current p"
  and current_files [simp]: "current (p\<lparr>files_of := fs\<rparr>) = current p"
  by (simp_all add: current_def)

lemma recorded_start [simp]:
  "recorded (p\<lparr>ticks := n\<rparr>) i bs q = recorded p i bs q" "recorded (p\<lparr>files_of := fs\<rparr>) i bs q = recorded p i bs q"
  by (simp_all add: recorded_def)

lemma recorded_refl [simp]: "recorded p i [] p = current p"
  by (simp add: recorded_def)

lemma recorded_ticks [simp]: "recorded p i bs (q\<lparr>ticks := n\<rparr>) = recorded p i bs q"
  and recorded_files [simp]: "recorded p i bs (q\<lparr>files_of := fs\<rparr>) = recorded p i bs q"
  by (simp_all add: recorded_def)

lemma recorded_trans: "recorded p i bs q \<Longrightarrow> recorded q i cs r \<Longrightarrow> recorded p i (bs @ cs) r"
  unfolding recorded_def by (metis append.assoc map_append set_append UnE)

lemma recorded_current: "recorded p i bs q \<Longrightarrow> current q"
  by (simp add: recorded_def)

lemma append_refused_or_next:
  assumes "well_numbered l"
  shows "(\<exists>e. append stop l now i b = Inl e)
    \<or> (\<exists>e. append stop l now i b = Inr e \<and> well_numbered (l @ [e]) \<and> seq e = length l + 1 \<and> body e = b
          \<and> about_task (ids e) = about_task i)"
proof (cases "append stop l now i b")
  case (Inr e)
  then show ?thesis using append_well_numbered [OF assms Inr] by blast
qed simp

text \<open>Catching up with one more event shows the whole of the log again.\<close>

lemma apply_event_shows_all:
  assumes "current p" and "well_numbered (log_of p @ [e])"
  shows "\<exists>t. apply_event (log_of p @ [e]) e (tables_of p) = Inr t \<and> is_replay (log_of p @ [e]) t
    \<and> replay (log_of p @ [e]) = Inr t"
proof -
  let ?l = "log_of p @ [e]"
  have "is_replay ?l (tables_of p)" using assms(1) is_replay_grows by (simp add: current_def)
  then obtain t where t: "apply_event ?l e (tables_of p) = Inr t" "is_replay ?l t" "seq e \<le> cursor t"
    using apply_event_replays [OF assms(2), of "tables_of p" e] by auto
  then have "cursor t = length ?l" using assms(2) by (simp add: is_replay_def well_numbered_snoc)
  then show ?thesis using t by (auto simp: is_replay_def)
qed

lemma append_about_records:
  assumes "current p" and "append_about w i who sess b p = (r, q)"
  shows "left_behind r \<or> files_of q = files_of p
    \<and> (r = Inr () \<and> recorded p i [b] q \<or> (\<exists>e. r = Inl (StoreRefused e)) \<and> recorded p i [] q)"
proof -
  let ?ids = "\<lparr>about_task = Some i, by_agent = who, in_session = sess\<rparr>"
  let ?now = "clock_at w (ticks p)" and ?stop = "append_refused w (Suc (ticks p)) \<lparr>about_task = Some i, by_agent = who, in_session = sess\<rparr> b"
  have l: "well_numbered (log_of p)" using assms(1) by (simp add: current_def)
  from append_refused_or_next [OF l, of ?stop ?now ?ids b] show ?thesis
  proof
    assume "\<exists>e. append ?stop (log_of p) ?now ?ids b = Inl e"
    then show ?thesis using assms
      by (auto simp: append_about_def door_then_log)
  next
    assume "\<exists>e. append ?stop (log_of p) ?now ?ids b = Inr e \<and> well_numbered (log_of p @ [e])
      \<and> seq e = length (log_of p) + 1 \<and> body e = b \<and> about_task (ids e) = about_task ?ids"
    then obtain e where e: "append ?stop (log_of p) ?now ?ids b = Inr e" "well_numbered (log_of p @ [e])"
      "body e = b" "about_task (ids e) = Some i" by auto
    obtain t where t: "apply_event (log_of p @ [e]) e (tables_of p) = Inr t"
      "is_replay (log_of p @ [e]) t" "replay (log_of p @ [e]) = Inr t"
      using apply_event_shows_all [OF assms(1) e(2)] by blast
    have "left_behind r \<or> r = Inr () \<and> q = p\<lparr>log_of := log_of p @ [e], tables_of := t, ticks := ticks p + 1\<rparr>"
      using assms(2) e(1) t(1)
      by (auto simp: append_about_def door_then_log project_event_def split: option.splits)
    then show ?thesis using e t by (auto simp: recorded_def current_def)
  qed
qed

section \<open>Operations that only add events\<close>

text \<open>\<open>logging i P m\<close>: whatever \<open>m\<close> answers, the tables left behind apart, it leaves the contract files alone and adds events about
  the task \<open>i\<close> only, each with a body of \<open>P\<close>.\<close>

definition logging :: "string \<Rightarrow> (event_body \<Rightarrow> bool) \<Rightarrow> 'a door \<Rightarrow> bool" where
  "logging i P m \<longleftrightarrow> (\<forall>p r q. current p \<longrightarrow> m p = (r, q) \<longrightarrow> \<not> left_behind r \<longrightarrow>
     files_of q = files_of p \<and> (\<exists>bs. recorded p i bs q \<and> list_all P bs))"

named_theorems logs

lemma loggingD:
  assumes "logging i P m" and "current p" and "m p = (r, q)" and "\<not> left_behind r"
  shows "files_of q = files_of p" "current q" "\<exists>bs. recorded p i bs q \<and> list_all P bs"
  using assms recorded_current unfolding logging_def by blast+

lemma logging_answer [logs]: "logging i P (answer a)"
  by (auto simp: logging_def intro!: exI [of _ "[]"])

lemma logging_reading [logs]: "logging i P (reading g)"
  by (auto simp: logging_def reading_def intro!: exI [of _ "[]"])

lemma logging_clock [logs]: "logging i P (read_clock w)"
  by (auto simp: logging_def read_clock_def intro!: exI [of _ "[]"])

lemma logging_then [logs]:
  assumes "logging i P m" and "\<And>a. logging i P (f a)"
  shows "logging i P (door_then m f)"
  unfolding logging_def
proof (intro allI impI)
  fix p r q assume p: "current p" and run: "door_then m f p = (r, q)" and kept: "\<not> left_behind r"
  show "files_of q = files_of p \<and> (\<exists>bs. recorded p i bs q \<and> list_all P bs)"
    using run
  proof (cases rule: door_then_cases)
    case (failed e)
    have "\<not> left_behind (Inl e :: (door_error, 'a) result)" using kept failed(2) by (simp add: left_behind_iff)
    then show ?thesis using loggingD [OF assms(1) p failed(1)] by blast
  next
    case (went a u)
    obtain bs where bs: "recorded p i bs u" "list_all P bs" "files_of u = files_of p"
      using loggingD [OF assms(1) p went(1)] by auto
    obtain cs where "recorded u i cs q" "list_all P cs" "files_of q = files_of u"
      using loggingD [OF assms(2) _ went(2) kept] bs(1) recorded_current by blast
    then show ?thesis using bs recorded_trans by (metis list_all_append)
  qed
qed

lemma logging_append_about [logs]: "P b \<Longrightarrow> logging i P (append_about w i who sess b)"
  unfolding logging_def
proof (intro allI impI)
  fix p r q assume "P b" and p: "current p" and run: "append_about w i who sess b p = (r, q)" and "\<not> left_behind r"
  then show "files_of q = files_of p \<and> (\<exists>bs. recorded p i bs q \<and> list_all P bs)"
    using append_about_records [OF p run] by (auto intro: exI [of _ "[b]"] exI [of _ "[]"])
qed

lemma logging_append_for [logs]: "P b \<Longrightarrow> logging (asked_task q) P (append_for w q ask b)"
  by (simp add: append_for_def logging_append_about)

lemma logging_each_do [logs]:
  "(\<And>x. x \<in> set xs \<Longrightarrow> logging i P (f x)) \<Longrightarrow> logging i P (each_do f xs)"
  by (induction xs) (auto intro: logs)

text \<open>A posted line is not projected, and changes nothing the tables show.\<close>

lemma current_quiet:
  assumes "current p" and "well_numbered (log_of p @ [e])" and "body e = OtherEvent kind"
  shows "current (p\<lparr>log_of := log_of p @ [e]\<rparr>)"
proof -
  from assms(1) obtain t where t: "replay (log_of p) = Inr t" "task_rows t = task_rows (tables_of p)"
    by (auto simp: current_def)
  have "apply_to e t = Inr t"
    using assms(2,3) by (simp add: apply_to_def well_numbered_snoc split: option.split)
  then have "replay (log_of p @ [e]) = Inr (t\<lparr>cursor := seq e\<rparr>)"
    using t(1) by (simp add: replay_snoc [OF assms(2)])
  then show ?thesis using assms t(2) is_replay_grows by (simp add: current_def)
qed

lemma post_line_records:
  assumes "current p" and "post_line w rq ask p = (r, q)"
  shows "files_of q = files_of p
    \<and> (r = Inr () \<and> recorded p (asked_task rq) [OtherEvent ''message.posted''] q
       \<or> (\<exists>e. r = Inl (StoreRefused e)) \<and> recorded p (asked_task rq) [] q)"
proof -
  let ?ids = "\<lparr>about_task = Some (asked_task rq), by_agent = None, in_session = ask_session ask\<rparr>"
  let ?now = "clock_at w (ticks p)"
  let ?b = "OtherEvent ''message.posted''"
  let ?stop = "append_refused w (Suc (ticks p)) ?ids ?b"
  have l: "well_numbered (log_of p)" using assms(1) by (simp add: current_def)
  from append_refused_or_next [OF l, of ?stop ?now ?ids ?b] show ?thesis
  proof
    assume "\<exists>e. append ?stop (log_of p) ?now ?ids ?b = Inl e"
    then show ?thesis using assms by (auto simp: post_line_def door_then_log)
  next
    assume "\<exists>e. append ?stop (log_of p) ?now ?ids ?b = Inr e \<and> well_numbered (log_of p @ [e])
      \<and> seq e = length (log_of p) + 1 \<and> body e = ?b \<and> about_task (ids e) = about_task ?ids"
    then obtain e where e: "append ?stop (log_of p) ?now ?ids ?b = Inr e" "well_numbered (log_of p @ [e])"
      "body e = ?b" "about_task (ids e) = Some (asked_task rq)" by auto
    have "r = Inr ()" "q = p\<lparr>log_of := log_of p @ [e], ticks := ticks p + 1\<rparr>"
      using assms(2) e(1) by (auto simp: post_line_def door_then_log)
    then show ?thesis using e current_quiet [OF assms(1) e(2,3)]
      by (simp add: recorded_def)
  qed
qed

lemma logging_post_line [logs]:
  "P (OtherEvent ''message.posted'') \<Longrightarrow> logging (asked_task rq) P (post_line w rq ask)"
  unfolding logging_def
proof (intro allI impI)
  fix p r q assume "P (OtherEvent ''message.posted'')" and p: "current p" and run: "post_line w rq ask p = (r, q)"
  then show "files_of q = files_of p \<and> (\<exists>bs. recorded p (asked_task rq) bs q \<and> list_all P bs)"
    using post_line_records [OF p run]
    by (auto intro: exI [of _ "[OtherEvent ''message.posted'']"] exI [of _ "[]"])
qed

section \<open>Notes and moves\<close>

text \<open>An event is a note when it changes no standing: any but a filing, a rewritten contract, a move
  and a hand-over.\<close>

fun is_note :: "event_body \<Rightarrow> bool" where
  "is_note (TaskCreated _ _ _ _) = False"
| "is_note (ContractWritten _) = False"
| "is_note (TaskTransitioned _) = False"
| "is_note (TaskReassigned _ _) = False"
| "is_note _ = True"

lemma note_effect: "is_note b \<Longrightarrow> effect_on b st = st"
  by (cases b) simp_all

text \<open>The notes the door itself makes: an escalation, an evaluation, a refusal, a tidied worktree and the
  line it posts.\<close>

fun door_note :: "event_body \<Rightarrow> bool" where
  "door_note (WaitingEvent (EscalationRaised _ _)) = True"
| "door_note (ContractEvaluated _ _ _) = True"
| "door_note (TransitionRefused _) = True"
| "door_note (WorktreeTidied _ _) = True"
| "door_note (OtherEvent kind) = (kind = ''message.posted'')"
| "door_note _ = False"

lemma door_note_is_note: "door_note b \<Longrightarrow> is_note b"
  by (cases b rule: door_note.cases) simp_all

lemma door_notes_are_notes: "list_all door_note bs \<Longrightarrow> list_all is_note bs"
  using door_note_is_note by (auto simp: list_all_iff)


lemma logging_raise [logs]:
  "logging (asked_task rq) door_note (raise_escalation w rq ask d reason)"
proof -
  have "logging (asked_task rq) door_note (append_for w rq ask (WaitingEvent (EscalationRaised reason said)))" for said
    by (intro logs) simp
  then show ?thesis unfolding logging_def raise_escalation_def by blast
qed

lemma logging_tidy:
  "logging i door_note (tidy w i t by)"
  unfolding tidy_def
  by (intro logs) (auto intro!: logs split: option.split prod.split)

lemma logging_evaluations:
  "logging (asked_task rq) door_note (each_do (\<lambda>(gate, passes, failures).
     append_for w rq ask (ContractEvaluated gate passes failures)) evals)"
  by (auto intro!: logs split: prod.split)

text \<open>What follows a move when nothing fails: an escalation for each the decision raises, then the line
  in the channel.\<close>

definition raises :: "escalation_reason \<Rightarrow> event_body \<Rightarrow> bool" where
  "raises reason b \<longleftrightarrow> (\<exists>said. b = WaitingEvent (EscalationRaised reason said))"

definition told_after ::
  "transition_request \<Rightarrow> transition_ask \<Rightarrow> transition_decision \<Rightarrow> event_body list \<Rightarrow> bool" where
  "told_after rq ask d bs \<longleftrightarrow>
     (\<exists>es. list_all2 raises (filter_map raised_by (decided_effects d)) es
        \<and> bs = es @ (if is_told rq ask then [OtherEvent ''message.posted''] else []))"

lemma raises_door_note: "list_all2 raises reasons bs \<Longrightarrow> list_all door_note bs"
  by (induction rule: list_all2_induct) (auto simp: raises_def)

lemma each_raise_records:
  assumes "current p" and "each_do (raise_escalation w rq ask d) reasons p = (Inr u, q)"
  shows "\<exists>bs. recorded p (asked_task rq) bs q \<and> list_all2 raises reasons bs"
  using assms
proof (induction reasons arbitrary: p)
  case (Cons reason reasons)
  then obtain v where v: "raise_escalation w rq ask d reason p = (Inr (), v)"
    and rest: "each_do (raise_escalation w rq ask d) reasons v = (Inr u, q)"
    by (auto simp: door_then_Inr)
  obtain said where said: "recorded p (asked_task rq) [WaitingEvent (EscalationRaised reason said)] v"
    using append_about_records [OF Cons.prems(1) v [unfolded raise_escalation_def append_for_def]] by auto
  obtain bs where "recorded v (asked_task rq) bs q" "list_all2 raises reasons bs"
    using Cons.IH [OF recorded_current [OF said] rest] by blast
  moreover have "raises reason (WaitingEvent (EscalationRaised reason said))"
    by (simp add: raises_def)
  ultimately show ?case using recorded_trans [OF said]
    by (intro exI [of _ "WaitingEvent (EscalationRaised reason said) # bs"]) simp
qed (auto intro: exI [of _ "[]"])

lemma record_move_cases:
  assumes "current p" and "record_move w rq ask contract folder d p = (r, q)"
  defines "moved \<equiv> moved_contract ask d contract"
  shows "left_behind r
    \<or> files_of q = files_of p \<and> recorded p (asked_task rq) [] q \<and> (\<exists>e. r = Inl (FilesRefused e))
    \<or> files_of q = write_contract (files_of p) moved
    \<and> (recorded p (asked_task rq) [] q \<and> (\<exists>e. r = Inl (StoreRefused e))
       \<or> (\<exists>ns. recorded p (asked_task rq)
               (TaskTransitioned (move_body_of rq ask moved folder d) # ns) q \<and> list_all door_note ns
           \<and> (r = Inr () \<longrightarrow> told_after rq ask d ns)))"
proof (cases "write_refused w (Suc (ticks p)) moved")
  case (Some e)
  then show ?thesis using assms(1,2) by (auto simp: record_move_def Let_def door_then_file moved_def)
next
  case None
  define start where "start = p\<lparr>ticks := ticks p + 1, files_of := write_contract (files_of p) moved\<rparr>"
  define rest where "rest = door_then (each_do (raise_escalation w rq ask d)
          (filter_map raised_by (decided_effects d))) (\<lambda>_.
      if is_told rq ask then post_line w rq ask else answer ())"
  let ?b = "TaskTransitioned (move_body_of rq ask moved folder d)"
  have run: "door_then (append_for w rq ask ?b) (\<lambda>_. rest) start = (r, q)"
    using assms(2) None by (simp add: record_move_def Let_def moved_def start_def rest_def door_then_file)
  have p: "current start" and files: "files_of start = write_contract (files_of p) moved"
    using assms(1) by (simp_all add: start_def)
  have rest: "logging (asked_task rq) door_note rest"
    unfolding rest_def by (intro logs) (auto intro!: logs)
  from run show ?thesis
  proof (cases rule: door_then_cases)
    case (failed e)
    then show ?thesis
      using append_about_records [OF p failed(1) [unfolded append_for_def]] files
      by (auto simp: start_def left_behind_iff)
  next
    case (went a u)
    then have u: "recorded start (asked_task rq) [?b] u" "files_of u = files_of start"
      using append_about_records [OF p went(1) [unfolded append_for_def]] by auto
    have "left_behind r \<or> (\<exists>ns. recorded u (asked_task rq) ns q \<and> list_all door_note ns \<and> files_of q = files_of u
        \<and> (r = Inr () \<longrightarrow> told_after rq ask d ns))"
    proof (cases "r = Inr ()")
      case True
      with went(2) obtain v where v: "each_do (raise_escalation w rq ask d)
          (filter_map raised_by (decided_effects d)) u = (Inr (), v)"
        and line: "(if is_told rq ask then post_line w rq ask else answer ()) v = (Inr (), q)"
        by (auto simp: rest_def door_then_Inr)
      obtain bs where bs: "recorded u (asked_task rq) bs v"
        "list_all2 raises (filter_map raised_by (decided_effects d)) bs"
        using each_raise_records [OF recorded_current [OF u(1)] v] by blast
      have "recorded v (asked_task rq) (if is_told rq ask then [OtherEvent ''message.posted''] else []) q"
        using line post_line_records [OF recorded_current [OF bs(1)], of w rq ask "Inr ()" q]
          recorded_current [OF bs(1)]
        by (auto split: if_splits)
      with bs have "recorded u (asked_task rq) (bs @ (if is_told rq ask then [OtherEvent ''message.posted''] else [])) q"
        using recorded_trans by blast
      moreover have "files_of q = files_of u"
        using loggingD(1) [OF rest recorded_current [OF u(1)] went(2)] True by simp
      ultimately show ?thesis using bs(2) raises_door_note [OF bs(2)] by (fastforce simp: told_after_def)
    next
      case False
      then show ?thesis using loggingD [OF rest recorded_current [OF u(1)] went(2)] by blast
    qed
    then show ?thesis
    proof
      assume "\<exists>ns. recorded u (asked_task rq) ns q \<and> list_all door_note ns \<and> files_of q = files_of u
        \<and> (r = Inr () \<longrightarrow> told_after rq ask d ns)"
      then obtain ns where "recorded u (asked_task rq) ns q" "list_all door_note ns" "files_of q = files_of u"
        "r = Inr () \<longrightarrow> told_after rq ask d ns" by blast
      moreover have "recorded start (asked_task rq) (?b # ns) q"
        using recorded_trans [OF u(1) calculation(1)] by simp
      ultimately show ?thesis using u files by (auto simp: start_def)
    qed simp
  qed
qed

section \<open>One request\<close>

definition only_noted :: "project \<Rightarrow> string \<Rightarrow> project \<Rightarrow> bool" where
  "only_noted p i q \<longleftrightarrow> (\<exists>ns. recorded p i ns q \<and> list_all door_note ns)"

definition move_recorded ::
  "project \<Rightarrow> transition_request \<Rightarrow> transition_ask \<Rightarrow> transition_context \<Rightarrow> transition_decision \<Rightarrow> bool
     \<Rightarrow> project \<Rightarrow> bool" where
  "move_recorded p rq ask x d whole q \<longleftrightarrow>
     (\<exists>before after. list_all door_note (before @ after) \<and> (whole \<longrightarrow> told_after rq ask d after)
        \<and> recorded p (asked_task rq) (before @ TaskTransitioned (move_body_of rq ask
              (moved_contract ask d (ctx_contract x)) (folder_of_work (ctx_work x)) d) # after) q)"

definition refusal_recorded :: "project \<Rightarrow> string \<Rightarrow> transition_refusal \<Rightarrow> project \<Rightarrow> bool" where
  "refusal_recorded p i no q \<longleftrightarrow>
     (\<exists>ns b. recorded p i (ns @ [TransitionRefused b]) q \<and> list_all door_note ns \<and> refusal b = no)"

lemma only_noted_trans: "only_noted p i q \<Longrightarrow> only_noted q i r \<Longrightarrow> only_noted p i r"
  unfolding only_noted_def using recorded_trans by (metis list_all_append)

lemma only_noted_refusal:
  assumes "only_noted p i q" and "refusal_recorded q i no r"
  shows "refusal_recorded p i no r"
proof -
  from assms obtain ms ns b where "recorded p i ms q" "list_all door_note ms"
    "recorded q i (ns @ [TransitionRefused b]) r" "list_all door_note ns" "refusal b = no"
    by (auto simp: only_noted_def refusal_recorded_def)
  then have "recorded p i ((ms @ ns) @ [TransitionRefused b]) r \<and> list_all door_note (ms @ ns) \<and> refusal b = no"
    using recorded_trans by fastforce
  then show ?thesis unfolding refusal_recorded_def by blast
qed

lemma only_noted_move: "only_noted p (asked_task rq) q \<Longrightarrow> move_recorded q rq ask x d whole r \<Longrightarrow> move_recorded p rq ask x d whole r"
  unfolding only_noted_def move_recorded_def
proof (elim exE conjE)
  fix ns before after
  let ?m = "TaskTransitioned (move_body_of rq ask (moved_contract ask d (ctx_contract x))
     (folder_of_work (ctx_work x)) d)"
  assume "recorded p (asked_task rq) ns q" "list_all door_note ns" "list_all door_note (before @ after)"
    "whole \<longrightarrow> told_after rq ask d after" "recorded q (asked_task rq) (before @ ?m # after) r"
  then have "recorded p (asked_task rq) ((ns @ before) @ ?m # after) r"
    "list_all door_note ((ns @ before) @ after)" "whole \<longrightarrow> told_after rq ask d after"
    using recorded_trans [of p "asked_task rq" ns q] by simp_all
  then show "\<exists>before after. list_all door_note (before @ after)
      \<and> (whole \<longrightarrow> told_after rq ask d after) \<and> recorded p (asked_task rq) (before @ ?m # after) r" by blast
qed

lemma loggingD_noted:
  assumes "logging i door_note m" and "current p" and "m p = (r, q)" and "\<not> left_behind r"
  shows "only_noted p i q" "files_of q = files_of p" "current q"
  using loggingD [OF assms] by (auto simp: only_noted_def)

lemma record_decided_cases:
  assumes p: "current p" and run: "record_decided w rq ask x decided p = (r, q)"
  obtains (noted) "only_noted p (asked_task rq) q" "files_of q = files_of p"
      "(\<exists>e. r = Inl e) \<or> (\<exists>no. decided = Inl no \<and> r = Inr (RefusedFor no)
        \<and> refusal_recorded p (asked_task rq) no q)"
    | (cut) d e where "decided = Inr d" "only_noted p (asked_task rq) q"
      "files_of q = write_contract (files_of p) (moved_contract ask d (ctx_contract x))" "r = Inl e"
    | (moved) d where "decided = Inr d" "move_recorded p rq ask x d (is_ok r) q"
      "files_of q = write_contract (files_of p) (moved_contract ask d (ctx_contract x))"
      "(\<exists>e. r = Inl e) \<or> r = Inr (MovedTo d)"
    | (behind) "left_behind r"
proof (cases "left_behind r")
  case True
  then show ?thesis by (rule behind)
next
  case kept: False
  let ?i = "asked_task rq"
  from run [unfolded record_decided_def] show ?thesis
  proof (cases rule: door_then_cases)
    case (failed e)
    then have "\<not> left_behind (Inl e :: (door_error, unit) result)" using kept by (simp add: left_behind_iff)
    then show ?thesis using loggingD_noted [OF logging_evaluations p failed(1)] failed(2) noted by blast
  next
    case (went a u)
    note u = loggingD_noted [OF logging_evaluations p went(1) left_behind_Inr]
    show ?thesis
    proof (cases decided)
      case (Inl no)
      have "logging ?i door_note (append_for w rq ask (TransitionRefused b))" for b
        by (intro logs) simp
      from went(2) [unfolded Inl sum.case] show ?thesis
      proof (cases rule: door_then_cases)
        case (failed e)
        then have "\<not> left_behind (Inl e :: (door_error, unit) result)" using kept by (simp add: left_behind_iff)
        from loggingD_noted [OF \<open>\<And>b. logging ?i door_note (append_for w rq ask (TransitionRefused b))\<close> u(3) failed(1) this]
        show ?thesis using failed u only_noted_trans noted by metis
      next
        case (went a v)
        have "refusal_recorded u ?i no v"
          using append_about_records [OF u(3) went(1) [unfolded append_for_def]]
          unfolding refusal_recorded_def by (intro exI [of _ "[]"]) auto
        moreover have "r = Inr (RefusedFor no)" "q = v" using went(2) by auto
        moreover from loggingD_noted [OF \<open>\<And>b. logging ?i door_note (append_for w rq ask (TransitionRefused b))\<close> u(3) went(1) left_behind_Inr]
        have "only_noted u ?i v" "files_of v = files_of u" by simp_all
        ultimately show ?thesis
          using u only_noted_trans [OF u(1)] only_noted_refusal [OF u(1)] noted Inl by simp
      qed
    next
      case (Inr d)
      have ran: "\<exists>s. record_move w rq ask (ctx_contract x) (folder_of_work (ctx_work x)) d u = (s, q)
          \<and> ((\<exists>e. r = Inl e) \<or> s = Inr () \<and> r = Inr (MovedTo d)) \<and> (\<forall>e. s = Inl e \<longrightarrow> r = Inl e)"
        using went(2) [unfolded Inr sum.case] by (cases rule: door_then_cases) auto
      then obtain s where s: "record_move w rq ask (ctx_contract x) (folder_of_work (ctx_work x)) d u = (s, q)"
        "(\<exists>e. r = Inl e) \<or> s = Inr () \<and> r = Inr (MovedTo d)" "\<forall>e. s = Inl e \<longrightarrow> r = Inl e" by blast
      from record_move_cases [OF u(3) s(1)] show ?thesis
      proof (elim conjE disjE)
        assume "left_behind s"
        then show ?thesis using kept s(3) by (auto simp: left_behind_iff)
      next
        assume "files_of q = files_of u" "recorded u ?i [] q" "\<exists>e. s = Inl (FilesRefused e)"
        moreover from this have "only_noted u ?i q" by (auto simp: only_noted_def)
        ultimately show ?thesis using s(3) u only_noted_trans noted by metis
      next
        assume "recorded u ?i [] q" "\<exists>e. s = Inl (StoreRefused e)"
          and files: "files_of q = write_contract (files_of u) (moved_contract ask d (ctx_contract x))"
        then have "only_noted u ?i q" "\<exists>e. r = Inl e"
          using s(3) by (auto simp: only_noted_def)
        then show ?thesis using cut Inr files u only_noted_trans by metis
      next
        assume "\<exists>ns. recorded u ?i (TaskTransitioned (move_body_of rq ask (moved_contract ask d (ctx_contract x))
              (folder_of_work (ctx_work x)) d) # ns) q \<and> list_all door_note ns \<and> (s = Inr () \<longrightarrow> told_after rq ask d ns)"
          and files: "files_of q = write_contract (files_of u) (moved_contract ask d (ctx_contract x))"
        moreover have "is_ok r \<longrightarrow> s = Inr ()" using s(2) by (auto simp: is_ok_iff)
        ultimately have "move_recorded u rq ask x d (is_ok r) q"
          unfolding move_recorded_def by (metis append_Nil)
        then show ?thesis using moved Inr files u only_noted_move s(2) by metis
      qed
    qed
  qed
qed

text \<open>What a request judges: the project after the tidy, which only added a note.\<close>

definition judged ::
  "world \<Rightarrow> project \<Rightarrow> transition_request \<Rightarrow> transition_ask \<Rightarrow> team \<Rightarrow> transition_context
     \<Rightarrow> (transition_refusal, transition_decision) result \<Rightarrow> bool" where
  "judged w p rq ask t x decided \<longleftrightarrow>
     (\<exists>now u. only_noted p (asked_task rq) u \<and> files_of u = files_of p
       \<and> context_at w u now rq ask t = Inr x \<and> decided = decide w u rq ask t x)"

lemma request_cases:
  assumes p: "current p" and run: "request w rq raw t p = (r, q)"
  obtains (noted) "only_noted p (asked_task rq) q" "files_of q = files_of p"
      "(\<exists>e. r = Inl e) \<or> (\<exists>no x. judged w p rq (tidied raw) t x (Inl no) \<and> r = Inr (RefusedFor no)
        \<and> refusal_recorded p (asked_task rq) no q)"
    | (cut) d x e where "judged w p rq (tidied raw) t x (Inr d)" "only_noted p (asked_task rq) q"
      "files_of q = write_contract (files_of p) (moved_contract (tidied raw) d (ctx_contract x))" "r = Inl e"
    | (moved) d x where "judged w p rq (tidied raw) t x (Inr d)"
      "move_recorded p rq (tidied raw) x d (is_ok r) q"
      "files_of q = write_contract (files_of p) (moved_contract (tidied raw) d (ctx_contract x))"
      "(\<exists>e. r = Inl e) \<or> r = Inr (MovedTo d)"
    | (behind) "left_behind r"
proof (cases "left_behind r")
  case True
  then show ?thesis by (rule behind)
next
  case kept: False
  let ?ask = "tidied raw" and ?i = "asked_task rq"
  define tidying where "tidying = (if asked_to rq = Verifying then tidy w ?i t (Some (rq, ?ask)) else answer ())"
  have tidying: "logging ?i door_note tidying"
    unfolding tidying_def by (auto intro: logging_tidy logging_answer)
  define rest where "rest = (\<lambda>context. door_then (reading (\<lambda>p. Inr (decide w p rq ?ask t context)))
      (record_decided w rq ?ask context))"
  have "door_then tidying (\<lambda>_. door_then (read_clock w) (\<lambda>now.
      door_then (reading (\<lambda>p. context_at w p now rq ?ask t)) rest)) p = (r, q)"
    using run by (simp add: request_def Let_def tidying_def rest_def)
  then show ?thesis
  proof (cases rule: door_then_cases)
    case (failed e)
    then have "\<not> left_behind (Inl e :: (door_error, unit) result)" using kept by (simp add: left_behind_iff)
    then show ?thesis using loggingD_noted [OF tidying p failed(1)] failed(2) noted by blast
  next
    case (went a u)
    note u = loggingD_noted [OF tidying p went(1) left_behind_Inr]
    define v where "v = u\<lparr>ticks := ticks u + 1\<rparr>"
    have v: "only_noted p ?i v" "files_of v = files_of p" "current v"
      using u by (simp_all add: v_def only_noted_def)
    have run: "door_then (reading (\<lambda>p. context_at w p (clock_at w (ticks u)) rq ?ask t)) rest v = (r, q)"
      using went(2) by (simp add: v_def)
    show ?thesis
    proof (cases "context_at w v (clock_at w (ticks u)) rq ?ask t")
      case (Inl e)
      then have "q = v" "r = Inl e" using run by (simp_all add: door_then_reading)
      then show ?thesis using v noted by simp
    next
      case (Inr x)
      let ?decided = "decide w v rq ?ask t x"
      have run: "record_decided w rq ?ask x ?decided v = (r, q)"
        using run Inr by (simp add: door_then_reading rest_def)
      have judged: "judged w p rq ?ask t x ?decided"
        using v Inr unfolding judged_def by blast
      from v(3) run show ?thesis
      proof (cases rule: record_decided_cases)
        case noted
        then show ?thesis
          using that(1) v judged only_noted_trans [OF v(1)] only_noted_refusal [OF v(1)] by metis
      next
        case (cut d e)
        then show ?thesis using that(2) v judged only_noted_trans by metis
      next
        case (moved d)
        then show ?thesis using that(3) v judged only_noted_move by metis
      next
        case behind
        then show ?thesis using kept by simp
      qed
    qed
  qed
qed

section \<open>What is judged is what the board shows\<close>

lemma each_ok_in: "each_ok (map f xs) = Inr ys \<Longrightarrow> y \<in> set ys \<Longrightarrow> \<exists>x \<in> set xs. f x = Inr y"
  by (induction xs arbitrary: ys) (auto simp: and_then_Inr_iff)

lemma projection_of_row_Inr:
  assumes "projection_of_row c r = Inr b"
  shows "b_task b = row_task r \<and> standing_of r = \<lparr>stands = b_status b, holder = b_assignee b,
    judge = b_reviewer b, tries = b_iteration b\<rparr>"
  using assms by (auto simp: projection_of_row_def standing_of_def split: option.splits)

lemma current_kept:
  assumes "current p"
  shows "distinct (map row_task (task_rows (tables_of p)))"
  using assms replay_kept by (fastforce simp: current_def tables_kept_def)

lemma current_standing: "current p \<Longrightarrow> standing_at (tables_of p) i = standing_in (log_of p) i"
  unfolding current_def using standing_replay standing_at_cong by metis

lemma row_in_distinct:
  assumes "distinct (map row_task (task_rows t))" and "r \<in> set (task_rows t)"
  shows "row_in t (row_task r) = Some r"
proof -
  have "List.find (\<lambda>x. row_task x = row_task r) rs = Some r" if "distinct (map row_task rs)" "r \<in> set rs" for rs
    using that by (induction rs) auto
  then show ?thesis using assms by (simp add: row_in_def)
qed

definition row_standing :: "board_row \<Rightarrow> standing" where
  "row_standing b = \<lparr>stands = b_status b, holder = b_assignee b, judge = b_reviewer b, tries = b_iteration b\<rparr>"

lemma known_row_standing:
  assumes "current p" and "board_of w p = Inr b" and "known_row b i = Inr own"
  shows "b_task own = i \<and> standing_in (log_of p) i = Some (row_standing own)"
proof -
  have own: "own \<in> set b" "b_task own = i"
    using assms(3) by (auto simp: known_row_def row_of_def find_Some_iff split: option.splits)
  have "board (sum_usd_of w) (tables_of p) = Inr b"
    using assms(2) by (simp add: board_of_def stored_def map_err_def split: sum.splits)
  then obtain r c where r: "r \<in> set (task_rows (tables_of p))" "projection_of_row c r = Inr own"
    unfolding board_def using own(1) each_ok_in by fastforce
  then have "row_task r = i" "standing_of r = row_standing own"
    using projection_of_row_Inr [OF r(2)] own by (simp_all add: row_standing_def)
  then have "standing_at (tables_of p) i = Some (row_standing own)"
    using row_in_distinct [OF current_kept [OF assms(1)] r(1)] by (simp add: standing_at_def)
  then show ?thesis using own current_standing [OF assms(1)] by simp
qed

lemma context_contract:
  assumes "context_at w p now rq ask t = Inr x"
  obtains b own held where "board_of w p = Inr b" "known_row b (asked_task rq) = Inr own"
    "read_contract (files_of p) (asked_task rq) = Inr held" "ctx_contract x = as_on_the_board own held"
proof -
  have "\<exists>b own held. board_of w p = Inr b \<and> known_row b (asked_task rq) = Inr own
      \<and> read_contract (files_of p) (asked_task rq) = Inr held \<and> ctx_contract x = as_on_the_board own held"
    using assms by (auto simp: context_at_def Let_def and_then_Inr_iff case_prod_beta)
  then show ?thesis using that by blast
qed

lemma standing_grows:
  assumes "recorded p i bs q"
  shows "standing_in (log_of q) j =
    (if j = i then foldl (\<lambda>st b. effect_on b st) (standing_in (log_of p) j) bs else standing_in (log_of p) j)"
proof -
  from assms obtain es where es: "log_of q = log_of p @ es" "map body es = bs"
    "\<forall>e \<in> set es. about_task (ids e) = Some i" by (auto simp: recorded_def)
  have "standing_in (l @ es) j = (if j = i then foldl (\<lambda>st b. effect_on b st) (standing_in l j) (map body es)
      else standing_in l j)" if "\<forall>e \<in> set es. about_task (ids e) = Some i" for l
    using that
  proof (induction es rule: rev_induct)
    case (snoc e es)
    then show ?case using standing_in_snoc [of "l @ es" e j] by (auto split: if_splits)
  qed simp
  then show ?thesis using es by simp
qed

lemma notes_effect: "list_all is_note bs \<Longrightarrow> foldl (\<lambda>st b. effect_on b st) st bs = st"
  by (induction bs arbitrary: st) (simp_all add: note_effect)

lemma only_noted_standing: "only_noted p i q \<Longrightarrow> standing_in (log_of q) = standing_in (log_of p)"
  using standing_grows notes_effect door_notes_are_notes by (fastforce simp: only_noted_def fun_eq_iff)

lemma move_recorded_standing:
  assumes "move_recorded p rq ask x d whole q"
  defines "c \<equiv> moved_contract ask d (ctx_contract x)"
  shows "standing_in (log_of q) j =
    (if j = asked_task rq
     then map_option (\<lambda>_. \<lparr>stands = decided_to d, holder = assignee c, judge = reviewer c,
                          tries = u32_saturating (iteration_field c)\<rparr>) (standing_in (log_of p) j)
     else standing_in (log_of p) j)"
  using assms standing_grows
  by (fastforce simp: move_recorded_def notes_effect door_notes_are_notes move_body_of_def Let_def)

lemma judged_contract:
  assumes "current p" and "judged w p rq ask t x decided"
  obtains own held where "read_contract (files_of p) (asked_task rq) = Inr held"
    "ctx_contract x = as_on_the_board own held" "standing_in (log_of p) (asked_task rq) = Some (row_standing own)"
proof -
  from assms(2) obtain now u where u: "only_noted p (asked_task rq) u" "files_of u = files_of p"
    "context_at w u now rq ask t = Inr x" by (auto simp: judged_def)
  have "current u" using u(1) recorded_current by (auto simp: only_noted_def)
  moreover obtain b own held where "board_of w u = Inr b" "known_row b (asked_task rq) = Inr own"
    "read_contract (files_of u) (asked_task rq) = Inr held" "ctx_contract x = as_on_the_board own held"
    using context_contract [OF u(3)] by blast
  ultimately show ?thesis
    using that u(2) known_row_standing only_noted_standing [OF u(1)] by metis
qed

lemma judged_decision:
  assumes "judged w p rq ask t x (Inr d)"
  obtains r where "d = decision rq x r" "r \<in> set (find_transitions (decided_from d) (decided_to d))"
    "row_actor r = asked_actor rq" "check_row (engine w) rq x r = Inr ()"
    "asked_task rq = task_id (ctx_contract x)"
proof -
  have "evaluate_transition (engine w) rq x = Inr d"
    using assms by (auto simp: judged_def decide_def split: option.splits)
  from evaluate_transition_InrE [OF this] show ?thesis
    using that by (metis decision_simps(1,2))
qed

end
