(* ===== verification/Answers.thy ===== *)
theory Answers
  imports Recording
begin

text \<open>
  That a request is answered. Once everything it reads can be read, an operation of the door fails only
  for want of sequence numbers, or for what the disk, the log or the projections did not take; the lemmas
  bound how many events it appends. Then a small
  project and a world, the concrete inputs of the witnesses.
\<close>

section \<open>Room in the log\<close>

text \<open>What the disk, the log and the projections did not take, as the door answers it.\<close>

definition refused_outside :: "world \<Rightarrow> door_error \<Rightarrow> bool" where
  "refused_outside w e \<longleftrightarrow>
     (\<exists>n c x. write_refused w n c = Some x \<and> e = FilesRefused x)
     \<or> (\<exists>n i b x. append_refused w n i b = Some x \<and> e = StoreRefused x)
     \<or> (\<exists>n ev x. apply_refused w n ev = Some x \<and> e = ProjectionsRefused x)"

definition answers :: "world \<Rightarrow> nat \<Rightarrow> 'a door \<Rightarrow> bool" where
  "answers w n m \<longleftrightarrow> (\<forall>p. current p \<longrightarrow> length (log_of p) + n \<le> SEQ_MAX \<longrightarrow>
     (\<exists>a q. m p = (Inr a, q) \<and> current q \<and> length (log_of q) \<le> length (log_of p) + n)
     \<or> (\<exists>e q. m p = (Inl e, q) \<and> refused_outside w e))"

lemma answersD:
  assumes "answers w n m" and "current p" and "length (log_of p) + n \<le> SEQ_MAX"
  obtains (answered) a q where "m p = (Inr a, q)" "current q" "length (log_of q) \<le> length (log_of p) + n"
    | (refused) e q where "m p = (Inl e, q)" "refused_outside w e"
  using assms unfolding answers_def by blast

lemma answers_answer: "answers w n (answer a)"
  by (auto simp: answers_def)

lemma answers_then:
  assumes "answers w n m" and "\<And>a. answers w k (f a)"
  shows "answers w (n + k) (door_then m f)"
  unfolding answers_def
proof (intro allI impI)
  fix p assume p: "current p" "length (log_of p) + (n + k) \<le> SEQ_MAX"
  then have room: "length (log_of p) + n \<le> SEQ_MAX" by simp
  from assms(1) p(1) room show "(\<exists>b q. door_then m f p = (Inr b, q) \<and> current q \<and> length (log_of q) \<le> length (log_of p) + (n + k))
      \<or> (\<exists>e q. door_then m f p = (Inl e, q) \<and> refused_outside w e)"
  proof (cases rule: answersD)
    case (answered a u)
    then have "length (log_of u) + k \<le> SEQ_MAX" using p(2) by simp
    with assms(2) answered(2) show ?thesis
      by (cases rule: answersD) (use answered in \<open>auto simp: door_then_def\<close>)
  qed (auto simp: door_then_def)
qed

lemma answers_mono:
  assumes "answers w n m" and "n \<le> k"
  shows "answers w k m"
  unfolding answers_def
proof (intro allI impI)
  fix p assume p: "current p" "length (log_of p) + k \<le> SEQ_MAX"
  then have "length (log_of p) + n \<le> SEQ_MAX" using assms(2) by simp
  with assms(1) p(1) show "(\<exists>a q. m p = (Inr a, q) \<and> current q \<and> length (log_of q) \<le> length (log_of p) + k)
      \<or> (\<exists>e q. m p = (Inl e, q) \<and> refused_outside w e)"
    by (cases rule: answersD) (use assms(2) in auto)
qed

lemma append_room:
  assumes "well_numbered l" and "length l < SEQ_MAX" and "append stop l now i b = Inl e"
  shows "stop = Some e"
  using assms well_numbered_last by (simp add: append_def split: option.splits)

lemma recorded_length: "recorded p i bs q \<Longrightarrow> length (log_of q) = length (log_of p) + length bs"
  by (auto simp: recorded_def)

lemma append_about_refused:
  assumes "current p" and "length (log_of p) < SEQ_MAX" and "append_about w i who sess b p = (Inl e, q)"
  shows "refused_outside w e"
proof -
  let ?ids = "\<lparr>about_task = Some i, by_agent = who, in_session = sess\<rparr>" and ?now = "clock_at w (ticks p)"
  let ?stop = "append_refused w (Suc (ticks p)) ?ids b"
  have l: "well_numbered (log_of p)" using assms(1) by (simp add: current_def)
  from append_refused_or_next [OF l, of ?stop ?now ?ids b] show ?thesis
  proof
    assume "\<exists>x. append ?stop (log_of p) ?now ?ids b = Inl x"
    then obtain x where x: "append ?stop (log_of p) ?now ?ids b = Inl x" by blast
    then have "e = StoreRefused x" using assms(3) by (simp add: append_about_def door_then_log)
    then show ?thesis using append_room [OF l assms(2) x] by (auto simp: refused_outside_def)
  next
    assume "\<exists>ev. append ?stop (log_of p) ?now ?ids b = Inr ev \<and> well_numbered (log_of p @ [ev])
      \<and> seq ev = length (log_of p) + 1 \<and> body ev = b \<and> about_task (ids ev) = about_task ?ids"
    then obtain ev where ev: "append ?stop (log_of p) ?now ?ids b = Inr ev" "well_numbered (log_of p @ [ev])" by blast
    obtain t where t: "apply_event (log_of p @ [ev]) ev (tables_of p) = Inr t"
      using apply_event_shows_all [OF assms(1) ev(2)] by blast
    then have "\<exists>x. apply_refused w (Suc (ticks p)) ev = Some x \<and> e = ProjectionsRefused x"
      using assms(3) ev(1) by (auto simp: append_about_def door_then_log project_event_def split: option.splits)
    then show ?thesis by (auto simp: refused_outside_def)
  qed
qed

lemma answers_append_about: "answers w 1 (append_about w i who sess b)"
  unfolding answers_def
proof (intro allI impI)
  fix p assume p: "current p" "length (log_of p) + 1 \<le> SEQ_MAX"
  obtain r q where run: "append_about w i who sess b p = (r, q)" by fastforce
  show "(\<exists>a q. append_about w i who sess b p = (Inr a, q) \<and> current q \<and> length (log_of q) \<le> length (log_of p) + 1)
    \<or> (\<exists>e q. append_about w i who sess b p = (Inl e, q) \<and> refused_outside w e)"
  proof (cases r)
    case (Inl e)
    then show ?thesis using append_about_refused p run by simp
  next
    case (Inr a)
    then have "recorded p i [b] q" using append_about_records [OF p(1) run] by simp
    then show ?thesis using run Inr recorded_current recorded_length by fastforce
  qed
qed

lemma answers_append_for: "answers w 1 (append_for w rq ask b)"
  unfolding append_for_def by (rule answers_append_about)

lemma answers_raise: "answers w 1 (raise_escalation w rq ask d reason)"
  using answers_append_for unfolding answers_def raise_escalation_def by blast

lemma answers_each_do: "(\<And>x. answers w 1 (f x)) \<Longrightarrow> answers w (length xs) (each_do f xs)"
proof (induction xs)
  case (Cons x xs)
  then have "answers w (1 + length xs) (door_then (f x) (\<lambda>_. each_do f xs))"
    by (intro answers_then) auto
  then show ?case by simp
qed (simp add: answers_answer)

lemma answers_post_line: "answers w 1 (post_line w rq ask)"
  unfolding answers_def
proof (intro allI impI)
  fix p assume p: "current p" "length (log_of p) + 1 \<le> SEQ_MAX"
  let ?ids = "\<lparr>about_task = Some (asked_task rq), by_agent = None, in_session = ask_session ask\<rparr>"
    and ?b = "OtherEvent ''message.posted''"
  let ?appended = "append (append_refused w (Suc (ticks p)) ?ids ?b) (log_of p) (clock_at w (ticks p)) ?ids ?b"
  have l: "well_numbered (log_of p)" "length (log_of p) < SEQ_MAX" using p by (simp_all add: current_def)
  show "(\<exists>a q. post_line w rq ask p = (Inr a, q) \<and> current q \<and> length (log_of q) \<le> length (log_of p) + 1)
    \<or> (\<exists>e q. post_line w rq ask p = (Inl e, q) \<and> refused_outside w e)"
  proof (cases ?appended)
    case (Inl x)
    then have "\<exists>q. post_line w rq ask p = (Inl (StoreRefused x), q)" by (simp add: post_line_def door_then_log)
    moreover have "refused_outside w (StoreRefused x)"
      using append_room [OF l Inl] by (auto simp: refused_outside_def)
    ultimately show ?thesis by blast
  next
    case (Inr e)
    then obtain q where run: "post_line w rq ask p = (Inr (), q)"
      by (simp add: post_line_def door_then_log)
    then show ?thesis using post_line_records [OF p(1) run] recorded_current recorded_length by fastforce
  qed
qed

lemma answers_cong:
  assumes "\<And>p. m p = m' (g p) \<or> (\<exists>e q. m p = (Inl e, q) \<and> refused_outside w e)"
    and "\<And>p. current p \<Longrightarrow> current (g p)" and "\<And>p. log_of (g p) = log_of p"
    and "answers w n m'"
  shows "answers w n m"
  using assms unfolding answers_def by metis

lemma answers_record_move:
  "answers w (length (filter_map raised_by (decided_effects d)) + 2) (record_move w rq ask contract folder d)"
proof -
  let ?raised = "filter_map raised_by (decided_effects d)" and ?moved = "moved_contract ask d contract"
  define rest where "rest = door_then (append_for w rq ask
        (TaskTransitioned (move_body_of rq ask (moved_contract ask d contract) folder d))) (\<lambda>_.
      door_then (each_do (raise_escalation w rq ask d) ?raised) (\<lambda>_.
      if is_told rq ask then post_line w rq ask else answer ()))"
  have rest: "answers w (1 + (length ?raised + 1)) rest"
    unfolding rest_def
    by (intro answers_then answers_append_for answers_each_do answers_raise)
      (auto intro: answers_post_line [simplified] answers_answer)
  define start where "start = (\<lambda>p :: project. p\<lparr>ticks := ticks p + 1, files_of := write_contract (files_of p) ?moved\<rparr>)"
  have "record_move w rq ask contract folder d p = rest (start p)
      \<or> (\<exists>e q. record_move w rq ask contract folder d p = (Inl e, q) \<and> refused_outside w e)" for p
  proof (cases "write_refused w (Suc (ticks p)) ?moved")
    case (Some x)
    then have "record_move w rq ask contract folder d p = (Inl (FilesRefused x), p\<lparr>ticks := Suc (ticks p)\<rparr>)"
      by (simp add: record_move_def Let_def door_then_file)
    moreover have "refused_outside w (FilesRefused x)" using Some by (auto simp: refused_outside_def)
    ultimately show ?thesis by blast
  qed (simp add: record_move_def Let_def door_then_file rest_def start_def)
  then have "answers w (1 + (length ?raised + 1)) (record_move w rq ask contract folder d)"
    by (rule answers_cong [where m' = rest and g = start, OF _ _ _ rest]) (simp_all add: start_def)
  then show ?thesis by simp
qed

text \<open>How many events a decision brings with it.\<close>

definition MOST_EVENTS :: nat where "MOST_EVENTS = length TRANSITION_TABLE + 3"

lemma length_find_transitions: "length (find_transitions from to) \<le> length TRANSITION_TABLE"
  by (simp add: find_transitions_def)

lemma length_filter_map: "length (filter_map f xs) \<le> length xs"
  by (induction xs) (auto split: option.split)

lemma gate_failures_length: "length (gate_failures g q x rs) \<le> length rs"
  by (simp add: gate_failures_def length_filter_map)

lemma decide_Inl_GateFailed:
  assumes "decide w p rq ask t x = Inl (GateFailed failures)"
  shows "length failures \<le> length TRANSITION_TABLE"
proof (cases "refused_before_the_governor rq ask t (ctx_contract x)
    (the_given_agent (log_of p) t rq (ctx_contract x))")
  case None
  then have "evaluate_transition (engine w) rq x = Inl (GateFailed failures)"
    using assms by (simp add: decide_def)
  then have "failures = gate_failures (engine w) rq x (rows_of rq x)"
    by (auto simp: evaluate_transition_cases try_rows_Inl_iff split: if_splits)
  moreover have "length (rows_of rq x) \<le> length (find_transitions (status (ctx_contract x)) (asked_to rq))"
    by simp
  ultimately show ?thesis
    using gate_failures_length le_trans length_find_transitions by metis
next
  case (Some no)
  then have "failures = [] \<or> length failures = 1"
    using assms by (auto simp: decide_def refused_before_the_governor_def Let_def split: option.splits if_splits)
  then show ?thesis by (auto simp: TRANSITION_TABLE_def)
qed

lemma decide_Inr: "decide w p rq ask t x = Inr d \<Longrightarrow> evaluate_transition (engine w) rq x = Inr d"
  by (simp add: decide_def split: option.splits)

lemma raised_at_most_once:
  "length (filter_map raised_by (effects gate to x)) \<le> 1"
  by (simp add: effects_def Let_def reason_if_def)

lemma answers_record_decided:
  assumes "decided = decide w p rq ask t x"
  shows "answers w MOST_EVENTS (record_decided w rq ask x decided)"
proof (cases decided)
  case (Inl no)
  have "length (evaluations decided) \<le> length TRANSITION_TABLE"
  proof (cases no)
    case (GateFailed failures)
    have "length (evaluations decided) \<le> length failures"
      unfolding Inl GateFailed evaluations.simps by (rule length_filter_map)
    then show ?thesis using decide_Inl_GateFailed [of w p rq ask t x failures] assms Inl GateFailed by simp
  qed (simp_all add: Inl)
  moreover have "answers w (length (evaluations decided) + (1 + 0)) (record_decided w rq ask x decided)"
    unfolding record_decided_def Inl sum.case
    by (intro answers_then answers_each_do answers_append_for answers_answer)
      (auto intro: answers_append_for [simplified] split: prod.split)
  ultimately show ?thesis using answers_mono by (fastforce simp: MOST_EVENTS_def)
next
  case (Inr d)
  then obtain r where "d = decision rq x r"
    using assms decide_Inr evaluate_transition_InrE by metis
  then have "length (filter_map raised_by (decided_effects d)) \<le> 1"
    using raised_at_most_once by simp
  moreover have "length (evaluations decided) \<le> 1"
    by (simp add: Inr split: option.split)
  moreover have "1 < length TRANSITION_TABLE" by (simp add: TRANSITION_TABLE_def)
  moreover have "answers w (length (evaluations decided) + (length (filter_map raised_by (decided_effects d)) + 2 + 0))
      (record_decided w rq ask x decided)"
    unfolding record_decided_def Inr sum.case
    by (intro answers_then answers_each_do answers_record_move answers_answer)
      (auto intro: answers_append_for [simplified] split: prod.split)
  ultimately show ?thesis using answers_mono by (fastforce simp: MOST_EVENTS_def)
qed

section \<open>A request is answered\<close>

definition tidy_first ::
  "world \<Rightarrow> transition_request \<Rightarrow> transition_ask \<Rightarrow> team \<Rightarrow> unit door" where
  "tidy_first w rq raw t =
     (if asked_to rq = Verifying then tidy w (asked_task rq) t (Some (rq, tidied raw)) else answer ())"

lemma request_runs:
  assumes "tidy_first w rq raw t p = (Inr (), u)"
    and "context_at w u (clock_at w (ticks u)) rq (tidied raw) t = Inr x"
  shows "request w rq raw t p =
    record_decided w rq (tidied raw) x (decide w u rq (tidied raw) t x) (u\<lparr>ticks := ticks u + 1\<rparr>)"
proof -
  have b: "board_of w (u\<lparr>ticks := n\<rparr>) = board_of w u" for n
    by (simp add: board_of_def)
  have parts: "awaits_the_product_plan_of w (u\<lparr>ticks := n\<rparr>) = awaits_the_product_plan_of w u" for n
    unfolding awaits_the_product_plan_of_def b by (simp cong: if_cong)
  have same: "context_at w (u\<lparr>ticks := n\<rparr>) now rq ask t = context_at w u now rq ask t"
    "decide w (u\<lparr>ticks := n\<rparr>) rq ask t x = decide w u rq ask t x" for n now ask
    unfolding context_at_def decide_def readiness_parts_def parts b
    by (simp_all cong: option.case_cong)
  have "request w rq raw t p = door_then (tidy_first w rq raw t) (\<lambda>_.
      door_then (read_clock w) (\<lambda>now.
      door_then (reading (\<lambda>p. context_at w p now rq (tidied raw) t)) (\<lambda>context.
      door_then (reading (\<lambda>p. Inr (decide w p rq (tidied raw) t context))) (\<lambda>decided.
        record_decided w rq (tidied raw) context decided)))) p"
    by (simp add: request_def tidy_first_def Let_def)
  also have "\<dots> = record_decided w rq (tidied raw) x (decide w u rq (tidied raw) t x) (u\<lparr>ticks := ticks u + 1\<rparr>)"
    using assms by (simp add: door_then_def [of "tidy_first w rq raw t"] door_then_reading same)
  finally show ?thesis .
qed

lemma answered_or_refused:
  assumes "current u" and "tidy_first w rq raw t p = (Inr (), u)"
    and "context_at w u (clock_at w (ticks u)) rq (tidied raw) t = Inr x"
    and "length (log_of u) + MOST_EVENTS \<le> SEQ_MAX"
  shows "(\<exists>q. current q \<and> request w rq raw t p =
      (Inr (case decide w u rq (tidied raw) t x of Inr d \<Rightarrow> MovedTo d | Inl no \<Rightarrow> RefusedFor no), q))
    \<or> (\<exists>e q. request w rq raw t p = (Inl e, q) \<and> refused_outside w e)"
proof -
  let ?decided = "decide w u rq (tidied raw) t x" and ?u = "u\<lparr>ticks := ticks u + 1\<rparr>"
  have "current ?u" "length (log_of ?u) + MOST_EVENTS \<le> SEQ_MAX" using assms(1,4) by simp_all
  with answers_record_decided [where w = w and decided = ?decided, OF refl] show ?thesis
  proof (cases rule: answersD)
    case (answered a q)
    then have "a = (case ?decided of Inr d \<Rightarrow> MovedTo d | Inl no \<Rightarrow> RefusedFor no)"
      by (cases ?decided) (auto simp: record_decided_def door_then_Inr)
    then show ?thesis using answered request_runs [OF assms(2,3)] by auto
  next
    case (refused e q)
    then show ?thesis using request_runs [OF assms(2,3)] by auto
  qed
qed

text \<open>
  C9: A request whose reads succeed, with room in the log for the events a decision can bring (one for each
  row of the table and three more), fails only for what lies outside the door: the disk or the schema
  does not take the contract file, the database or the schema does not take an event, or the database
  does not write the projections. Otherwise it is answered with the decision of the door's own check and
  the governor, and the project stays current.
\<close>

theorem readable_request_is_answered:
  assumes "current u" and "tidy_first w rq raw t p = (Inr (), u)"
    and "context_at w u (clock_at w (ticks u)) rq (tidied raw) t = Inr x"
    and "length (log_of u) + MOST_EVENTS \<le> SEQ_MAX"
  shows "(\<exists>q. current q \<and> request w rq raw t p =
      (Inr (case decide w u rq (tidied raw) t x of Inr d \<Rightarrow> MovedTo d | Inl no \<Rightarrow> RefusedFor no), q))
    \<or> (\<exists>e q. request w rq raw t p = (Inl e, q) \<and> refused_outside w e)"
  by (rule answered_or_refused [OF assms])

section \<open>A small project\<close>

lemma read_contract_id: "read_contract files i = Inr c \<Longrightarrow> files i = Some c \<and> task_id c = i"
  by (auto simp: read_contract_def split: option.splits if_splits)

definition sample_world :: world where
  "sample_world = \<lparr>engine = prefix_globs, sum_usd_of = (\<lambda>_. Finite 0),
     float_add_of = (\<lambda>a _. a), float_sub_of = (\<lambda>a _. a), clock_at = int, session_running = None,
     previews_available = False, team_on_file = Inr sample_team, repos_on_file = Inr None,
     reads_disk = (\<lambda>_ _. Inr False), stale_among = (\<lambda>_ _. Inr []), has_worktree = (\<lambda>_. False),
     member_there = (\<lambda>_ _. Inr True), clean_worktree = (\<lambda>_. Inr True), commits_on = (\<lambda>_. Inr 0),
     branch_changes = (\<lambda>_. Inr []), document_changes = (\<lambda>_. Inr []), folder_changes = (\<lambda>_ _. Inr []),
     private_file_there = (\<lambda>_ _. True), merging = (\<lambda>_. Inr False), uncommitted_in = (\<lambda>_. Inr []),
     put_back_in = (\<lambda>_ _. Inr ()), removed_from = (\<lambda>_ _. Inr ()), documents_touched = (\<lambda>_. Inr []),
     write_refused = (\<lambda>_ _. None), append_refused = (\<lambda>_ _ _. None), apply_refused = (\<lambda>_ _. None)\<rparr>"

definition sample_task :: "task_status \<Rightarrow> task_contract" where
  "sample_task st = sample_contract\<lparr>task_id := ''CTV-7'', parent := None, lane := None, status := st\<rparr>"

definition summary_at :: "task_status \<Rightarrow> contract_summary" where
  "summary_at st = sample_summary\<lparr>summary_status := st\<rparr>"

text \<open>A project with one task, filed with the status \<open>st\<close>.\<close>

definition project_at :: "task_status \<Rightarrow> project" where
  "project_at st =
     \<lparr>log_of = [sample_event 1 (TaskCreated (summary_at st) False None None)],
      tables_of = empty_tables\<lparr>task_rows := [new_row ''CTV-7'' (summary_at st) 1], cursor := 1\<rparr>,
      files_of = [''CTV-7'' \<mapsto> sample_task st], ticks = 0\<rparr>"

abbreviation sample_project :: project where
  "sample_project \<equiv> project_at Draft"

definition no_ask :: transition_ask where
  "no_ask = \<lparr>ask_assignee = None, ask_reviewer = None, ask_blocker = None, ask_resolution = None,
     ask_rejection = None, ask_denied = False, ask_session = None, ask_unrunnable = None,
     ask_preview_failed = None, ask_reason = None, ask_filed = False, ask_grants_tries = False,
     ask_workbooks = None, ask_conflicts = None\<rparr>"

definition human_asks_for :: "task_status \<Rightarrow> transition_request" where
  "human_asks_for to = \<lparr>asked_task = ''CTV-7'', asked_to = to, asked_actor = HumanActor, asked_agent = None\<rparr>"

lemma sample_current: "current (project_at st)"
proof -
  have numbered: "well_numbered (log_of (project_at st))"
    by (simp add: project_at_def summary_at_def sample_event_def well_numbered_def SEQ_MAX_def)
  have "replay (log_of (project_at st)) = Inr (tables_of (project_at st))"
    by (simp add: project_at_def summary_at_def sample_event_def replay_def run_defs)
  then show ?thesis using numbered is_replay_iff_whole by (auto simp: current_def)
qed

lemma sample_standing:
  "standing_at (tables_of (project_at st)) ''CTV-7''
     = Some \<lparr>stands = st, holder = None, judge = None, tries = 0\<rparr>"
  by (simp add: standing_at_def row_in_def project_at_def summary_at_def new_row_def standing_of_def sample_summary_def)

lemma sample_agrees: "files_of (project_at st) = [''CTV-7'' \<mapsto> sample_task st]"
  "standing_in (log_of (project_at st)) ''CTV-7'' = Some \<lparr>stands = st, holder = None, judge = None, tries = 0\<rparr>"
  using current_standing [OF sample_current] sample_standing by (simp_all add: project_at_def summary_at_def)

lemma sample_board:
  "\<exists>own. board_of sample_world (project_at st) = Inr [own] \<and> b_task own = ''CTV-7'' \<and> b_parent own = None
     \<and> row_standing own = \<lparr>stands = st, holder = None, judge = None, tries = 0\<rparr>"
  by (simp add: board_of_def board_def stored_def map_err_def project_at_def summary_at_def projection_of_row_def
      u32_try_def new_row_def sample_summary_def row_standing_def)

lemma sample_world_simps [simp]:
  "has_worktree sample_world i = False" "repos_on_file sample_world = Inr None"
  "stale_among sample_world t l = Inr []" "reads_disk sample_world t l = Inr False"
  "engine sample_world = prefix_globs"
  "write_refused sample_world n c = None" "append_refused sample_world n idz b = None"
  "apply_refused sample_world n e = None" "\<not> refused_outside sample_world err"
  by (simp_all add: sample_world_def refused_outside_def)

lemma answered_request:
  assumes "current u" and "tidy_first sample_world rq raw t p = (Inr (), u)"
    and "context_at sample_world u (clock_at sample_world (ticks u)) rq (tidied raw) t = Inr x"
    and "length (log_of u) + MOST_EVENTS \<le> SEQ_MAX"
  shows "\<exists>q. current q \<and> request sample_world rq raw t p =
    (Inr (case decide sample_world u rq (tidied raw) t x of Inr d \<Rightarrow> MovedTo d | Inl no \<Rightarrow> RefusedFor no), q)"
  using answered_or_refused [OF assms] by simp

text \<open>What a request reads of a project with one task, quiet otherwise, can be read.\<close>

lemma one_task_readable:
  assumes b: "board_of sample_world p = Inr [own]" and own: "b_task own = ''CTV-7''" "b_parent own = None"
    and held: "read_contract (files_of p) ''CTV-7'' = Inr held"
    and c: "parent held = None" "lane held = None" "task_private_folder held = None"
    and quiet: "cost_records (tables_of p) = []" "new_project (log_of p) = None"
    and "asked_task rq = ''CTV-7''"
  shows "\<exists>x. context_at sample_world p now rq ask t = Inr x"
proof -
  let ?w = sample_world and ?i = "''CTV-7''"
  have row: "known_row [own] ?i = Inr own" using own by (simp add: known_row_def row_of_def)
  let ?c = "as_on_the_board own held"
  have c: "parent ?c = None" "lane ?c = None" "task_private_folder ?c = None" "task_id ?c = ?i"
    using c read_contract_id [OF held] by (auto simp: as_on_the_board_def task_private_folder_def split: if_splits)
  have "costs_by_task s (tables_of p) = Inr []" "costs_by_day s (tables_of p) = Inr []" for s
    using quiet(1) by (simp_all add: costs_by_task_def costs_by_day_def each_once_def)
  then obtain budget where budget: "budget_state_of (sum_usd_of ?w) (float_add_of ?w) (log_of p) (tables_of p) t
      (assignee_role ?c) (assignee ?c) (Some ?c) no_session now = Inr budget"
    by (simp add: budget_state_of_def task_budget_of_def spent_by_task_def spent_by_day_def Let_def case_prod_beta)
  have "awaits_the_product_plan_of ?w p = Inr False"
    using quiet(2) by (simp add: awaits_the_product_plan_of_def)
  then obtain readiness where ready: "readiness_parts ?w p [own] t ?c now = Inr (budget, readiness)"
    using budget c(1) by (simp add: readiness_parts_def parent_state_of_def stored_def map_err_def)
  have "private_folder_busy_on (files_of p) [own] own r = Inr False" for r
    by (simp add: private_folder_busy_on_def split: option.split)
  then obtain f where fill: "fill_assignment ?w (files_of p) [own] own ?c t pilot input = Inr (f pilot input)" for pilot input
    using c(2) by (auto simp: fill_assignment_def lane_builder_of_def)
  show ?thesis
    using b row held ready c fill assms
    by (simp add: context_at_def work_of_def stale_twins_among_def has_no_branch_def
        Let_def case_prod_beta and_then_def split: option.split)
qed

lemma sample_readable:
  assumes "asked_task rq = ''CTV-7''"
  shows "\<exists>x. context_at sample_world (project_at st) now rq ask t = Inr x"
proof -
  obtain own where own: "board_of sample_world (project_at st) = Inr [own]" "b_task own = ''CTV-7''" "b_parent own = None"
    using sample_board by blast
  have held: "read_contract (files_of (project_at st)) ''CTV-7'' = Inr (sample_task st)"
    by (simp add: read_contract_def sample_agrees sample_task_def)
  show ?thesis
    by (rule one_task_readable [OF own held _ _ _ _ _ assms])
      (simp_all add: sample_task_def sample_contract_def task_private_folder_def private_folder_def project_at_def
        summary_at_def empty_tables_def new_project_def sample_event_def)
qed

text \<open>In the small project the human may cancel the task, and nobody may accept a draft.\<close>

lemma sample_context_draft:
  assumes "context_at sample_world sample_project now (human_asks_for to) ask t = Inr x"
  shows "task_id (ctx_contract x) = ''CTV-7'' \<and> status (ctx_contract x) = Draft"
proof -
  obtain b own held where x: "board_of sample_world sample_project = Inr b" "known_row b ''CTV-7'' = Inr own"
    "read_contract (files_of sample_project) ''CTV-7'' = Inr held" "ctx_contract x = as_on_the_board own held"
    using context_contract [OF assms] by (auto simp: human_asks_for_def)
  have "standing_in (log_of sample_project) ''CTV-7'' = Some (row_standing own)"
    using known_row_standing [OF sample_current x(1,2)] by simp
  then have "b_status own = Draft" using sample_agrees(2) by (simp add: row_standing_def)
  then show ?thesis using x(3,4) read_contract_id by (simp add: as_on_the_board_def)
qed

lemma sample_decides:
  assumes "context_at sample_world sample_project now (human_asks_for to) ask t = Inr x"
  shows "to = Cancelled \<Longrightarrow> \<exists>d. decide sample_world sample_project (human_asks_for to) ask t x = Inr d"
    and "to = Accepted \<Longrightarrow> \<exists>no. decide sample_world sample_project (human_asks_for to) ask t x = Inl no"
proof -
  have human: "asked_actor (human_asks_for to) = HumanActor" "asked_to (human_asks_for to) = to"
    "asked_task (human_asks_for to) = ''CTV-7''" by (simp_all add: human_asks_for_def)
  then have decide: "decide sample_world sample_project (human_asks_for to) ask t x
      = evaluate_transition prefix_globs (human_asks_for to) x"
    by (simp add: decide_def refused_before_the_governor_def)
  note x = sample_context_draft [OF assms]
  show "\<exists>d. decide sample_world sample_project (human_asks_for to) ask t x = Inr d" if to: "to = Cancelled"
  proof -
    obtain r where r: "List.find (\<lambda>_. True) (rows_of (human_asks_for to) x) = Some r" "row_gate r = NoGate"
      using human_free_rows [of Draft Cancelled] x human to by auto
    then have "r \<in> set (rows_of (human_asks_for to) x)" using find_Some_in by fastforce
    moreover have "check_row prefix_globs (human_asks_for to) x r = Inr ()"
      using r(2) human by (simp add: check_row_to gate_opens)
    ultimately have "is_ok (evaluate_transition prefix_globs (human_asks_for to) x)"
      using x human by (auto simp: passes_iff may_ask_unnamed)
    then show ?thesis unfolding decide is_ok_iff .
  qed
  show "\<exists>no. decide sample_world sample_project (human_asks_for to) ask t x = Inl no" if to: "to = Accepted"
  proof (cases "evaluate_transition prefix_globs (human_asks_for to) x")
    case (Inr d)
    then obtain r where "r \<in> set (find_transitions Draft Accepted)"
      using evaluate_transition_InrE x human to by metis
    then show ?thesis by (auto dest: find_transitions_to_Accepted)
  qed (simp add: decide)
qed

lemma sample_room: "length (log_of (project_at st)) + MOST_EVENTS \<le> SEQ_MAX"
  by (simp add: project_at_def MOST_EVENTS_def SEQ_MAX_def TRANSITION_TABLE_def)

lemma sample_untidied: "asked_to rq \<noteq> Verifying \<Longrightarrow> tidy_first w rq ask t p = (Inr (), p)"
  by (simp add: tidy_first_def)

lemma sample_answered:
  assumes "asked_task rq = ''CTV-7''" and "asked_to rq \<noteq> Verifying"
  shows "\<exists>x q. context_at sample_world (project_at st) (clock_at sample_world (ticks (project_at st))) rq (tidied ask) t = Inr x
    \<and> current q \<and> request sample_world rq ask t (project_at st) =
      (Inr (case decide sample_world (project_at st) rq (tidied ask) t x of
        Inr d \<Rightarrow> MovedTo d | Inl no \<Rightarrow> RefusedFor no), q)"
proof -
  obtain x where "context_at sample_world (project_at st) (clock_at sample_world (ticks (project_at st))) rq (tidied ask) t = Inr x"
    using sample_readable [OF assms(1)] by blast
  then show ?thesis
    using answered_request [OF sample_current sample_untidied [OF assms(2)] _ sample_room] by blast
qed

lemma sample_requests:
  "\<exists>d q. request sample_world (human_asks_for Cancelled) no_ask sample_team sample_project = (Inr (MovedTo d), q)"
  "\<exists>no q. request sample_world (human_asks_for Accepted) no_ask sample_team sample_project = (Inr (RefusedFor no), q)"
proof -
  have rq: "asked_task (human_asks_for to) = ''CTV-7''" "asked_to (human_asks_for to) = to" for to
    by (simp_all add: human_asks_for_def)
  show "\<exists>d q. request sample_world (human_asks_for Cancelled) no_ask sample_team sample_project = (Inr (MovedTo d), q)"
    using sample_answered [of "human_asks_for Cancelled" Draft no_ask sample_team] rq sample_decides(1) by fastforce
  show "\<exists>no q. request sample_world (human_asks_for Accepted) no_ask sample_team sample_project = (Inr (RefusedFor no), q)"
    using sample_answered [of "human_asks_for Accepted" Draft no_ask sample_team] rq sample_decides(2) by fastforce
qed

theorem readable_request_is_answered_witness:
  "\<exists>out q. request sample_world (human_asks_for Escalated) no_ask sample_team sample_project = (Inr out, q)
     \<and> current q"
proof -
  have rq: "asked_task (human_asks_for Escalated) = ''CTV-7''" "asked_to (human_asks_for Escalated) \<noteq> Verifying"
    by (simp_all add: human_asks_for_def)
  obtain x where x: "context_at sample_world sample_project (clock_at sample_world (ticks sample_project))
      (human_asks_for Escalated) (tidied no_ask) sample_team = Inr x"
    using sample_readable [OF rq(1)] by blast
  show ?thesis
    using readable_request_is_answered [OF sample_current sample_untidied [OF rq(2)] x sample_room] by auto
qed

end
