(* ===== verification/Lifecycle.thy ===== *)
theory Lifecycle
  imports Answers
begin

text \<open>
  The life of a task, over any run of the operations of crates/runtime/src/transitions.rs. \<open>lawful\<close> is
  the abstract specification: a history each of whose changes the transition table or the hand-over
  rule allows. The step relation \<open>door_step\<close> lets requests, hand-overs, branches and notes follow each
  other in any order, each under its own world and team; the theorems are about every run of it.
\<close>

section \<open>Lawful histories\<close>

text \<open>The abstract specification of a task's life: what one recorded move may do to its standing, what
  one hand-over may, and a history all of whose changes are such.\<close>

definition is_assigning :: "move_body \<Rightarrow> bool" where
  "is_assigning b \<longleftrightarrow> move_from b = Ready \<and> move_to b = Assigned"

definition counts_up :: "move_body \<Rightarrow> bool" where
  "counts_up b \<longleftrightarrow> IncrementIterationItem \<in> set (move_effects b)"

definition moves_from :: "standing \<Rightarrow> move_body \<Rightarrow> bool" where
  "moves_from s b \<longleftrightarrow>
     move_from b = stands s
     \<and> list_ex (\<lambda>r. row_actor r = move_actor b \<and> row_gate r = move_gate b)
         (find_transitions (move_from b) (move_to b))
     \<and> unat (move_iteration b) = min (unat (tries s) + (if counts_up b then 1 else 0)) (2 ^ 32 - 1)
     \<and> (is_assigning b \<or> move_assignee b = holder s \<and> move_reviewer b = judge s)
     \<and> (move_from b = Rejected \<and> move_to b = InProgress \<longrightarrow> counts_up b)"

fun lawful_change :: "standing \<Rightarrow> event_body \<Rightarrow> bool" where
  "lawful_change s (TaskTransitioned b) = moves_from s b"
| "lawful_change s (TaskReassigned from to) =
     (stands s \<in> {Assigned, InProgress} \<and> from = (case holder s of None \<Rightarrow> [] | Some i \<Rightarrow> i)
      \<and> trim to \<noteq> trim from)"
| "lawful_change s b = is_note b"

definition after_body :: "standing \<Rightarrow> event_body \<Rightarrow> standing" where
  "after_body s b = (case effect_on b (Some s) of None \<Rightarrow> s | Some u \<Rightarrow> u)"

fun lawful :: "standing \<Rightarrow> event_body list \<Rightarrow> bool" where
  "lawful s [] = True"
| "lawful s (b # bs) = (lawful_change s b \<and> lawful (after_body s b) bs)"

lemma effect_after: "effect_on b (Some s) = Some (after_body s b)"
  by (cases b) (simp_all add: after_body_def written_def)

lemma after_bodies: "foldl (\<lambda>st b. effect_on b st) (Some s) bs = Some (foldl after_body s bs)"
  by (induction bs arbitrary: s) (simp_all add: effect_after)

lemma lawful_append: "lawful s (bs @ cs) \<longleftrightarrow> lawful s bs \<and> lawful (foldl after_body s bs) cs"
  by (induction bs arbitrary: s) auto

lemma note_lawful: "is_note b \<Longrightarrow> lawful_change s b \<and> after_body s b = s"
  by (cases b) (simp_all add: after_body_def)

lemma notes_lawful: "list_all is_note bs \<Longrightarrow> lawful s bs \<and> foldl after_body s bs = s"
  by (induction bs) (auto simp: note_lawful)

lemma effect_wire_increment:
  "IncrementIterationItem \<in> effect_wire ` set es \<longleftrightarrow> IncrementIteration \<in> set es"
proof -
  have "effect_wire x = IncrementIterationItem \<longleftrightarrow> x = IncrementIteration" for x by (cases x) simp_all
  then show ?thesis by (metis imageE imageI)
qed

lemma unat_next_try:
  "unat (u32_saturating (saturating_add (ucast (n :: u32)) 1)) = min (unat n + 1) (2 ^ 32 - 1)"
  "u32_saturating (ucast (n :: u32)) = n"
  "min (unat n) 4294967295 = unat n"
proof -
  have n: "unat n < 2 ^ 32" using unsigned_less [of n] by simp
  then have "unat (ucast n :: u64) = unat n"
    by (simp add: unsigned_ucast_eq take_bit_nat_eq_self)
  then show "unat (u32_saturating (saturating_add (ucast n) 1)) = min (unat n + 1) (2 ^ 32 - 1)"
    "u32_saturating (ucast n) = n" "min (unat n) 4294967295 = unat n"
    using n by (simp_all add: unat_u32_saturating unat_saturating_add word_unat_eq_iff)
qed

lemma judged_move_is_lawful:
  assumes "current p" and "judged w p rq ask t x (Inr d)"
    and "b = move_body_of rq ask (moved_contract ask d (ctx_contract x)) folder d"
  shows "\<exists>s. standing_in (log_of p) (asked_task rq) = Some s \<and> moves_from s b"
proof -
  obtain own held where own: "ctx_contract x = as_on_the_board own held"
    "standing_in (log_of p) (asked_task rq) = Some (row_standing own)"
    using judged_contract [OF assms(1,2)] by metis
  obtain r where r: "d = decision rq x r" "r \<in> set (find_transitions (decided_from d) (decided_to d))"
    "row_actor r = asked_actor rq"
    using judged_decision [OF assms(2)] by metis
  have left: "decided_from d = b_status own" using r(1) own(1) by (simp add: as_on_the_board_def)
  have rejected: "IncrementIteration \<in> set (decided_effects d)"
    if "decided_from d = Rejected" "decided_to d = InProgress"
    using that r(1) by (simp add: effects_def Let_def reason_if_def)
  have "moves_from (row_standing own) b"
    using r left rejected
    by (auto simp: moves_from_def assms(3) move_body_of_def Let_def row_standing_def own(1)
        as_on_the_board_def moved_contract_def is_assigning_def counts_up_def effect_wire_increment
        recorded_effects_def unat_next_try list_ex_iff)
  with own(2) show ?thesis by blast
qed

section \<open>A hand-over and a branch\<close>

text \<open>What \<open>check_reassignment\<close> lets through, as far as the standing goes.\<close>

lemma check_reassignment_lets:
  assumes "check_reassignment c (reassignment_of t b own c to) = Inr ()"
  shows "stands (row_standing own) \<in> {Assigned, InProgress}
    \<and> trim to \<noteq> trim (re_from (reassignment_of t b own c to))
    \<and> (map_option trim (judge (row_standing own)) = Some (trim to) \<longrightarrow> may_review_itself c)"
  using assms
  by (auto simp: check_reassignment_def reassignment_of_def Let_def row_standing_def reason_if_def
      split: if_splits)

lemma reassign_cases:
  assumes p: "current p" and run: "reassign w i to t p = (r, q)"
  obtains (kept) "recorded p i [] q" "files_of q = files_of p" "(\<exists>e. r = Inl e) \<or> (\<exists>ns. r = Inr (NotReassigned ns))"
    | (cut) c e where "read_contract (files_of p) i = Inr c" "recorded p i [] q"
        "files_of q = write_contract (files_of p) (c\<lparr>assignee := Some to\<rparr>)" "r = Inl e"
    | (handed) c e b own where "read_contract (files_of p) i = Inr c"
        "board_of w p = Inr b" "known_row b i = Inr own"
        "check_reassignment c (reassignment_of t b own c to) = Inr ()"
        "recorded p i [TaskReassigned (re_from (reassignment_of t b own c to)) to] q"
        "files_of q = write_contract (files_of p) (c\<lparr>assignee := Some to\<rparr>)" "r = Inr (Reassigned e)"
    | (behind) "left_behind r"
proof -
  show ?thesis
  proof (cases "\<exists>b own c. board_of w p = Inr b \<and> known_row b i = Inr own \<and> read_contract (files_of p) i = Inr c
      \<and> check_reassignment c (reassignment_of t b own c to) = Inr ()")
    case False
    then have "q = p \<and> ((\<exists>e. r = Inl e) \<or> (\<exists>ns. r = Inr (NotReassigned ns)))"
      using run by (auto simp: reassign_def door_then_reading Let_def split: sum.splits)
    then show ?thesis using kept p by auto
  next
    case True
    then obtain b own c where ok: "board_of w p = Inr b" "known_row b i = Inr own"
        "read_contract (files_of p) i = Inr c" "check_reassignment c (reassignment_of t b own c to) = Inr ()"
      by blast
    define ev where "ev = TaskReassigned (re_from (reassignment_of t b own c to)) to"
    define idz where "idz = \<lparr>about_task = Some i, by_agent = None, in_session = None\<rparr>"
    define start where "start = p\<lparr>ticks := ticks p + 1, files_of := write_contract (files_of p) (c\<lparr>assignee := Some to\<rparr>)\<rparr>"
    define stop where "stop = append_refused w (Suc (ticks p)) idz ev"
    show ?thesis
    proof (cases "write_refused w (Suc (ticks p)) (c\<lparr>assignee := Some to\<rparr>)")
      case (Some x)
      then have "q = p\<lparr>ticks := Suc (ticks p)\<rparr>" "r = Inl (FilesRefused x)"
        using run ok by (simp_all add: reassign_def door_then_reading door_then_file Let_def)
      then show ?thesis using kept p by simp
    next
    case None
    have run: "door_then (log_event w (clock_at w (ticks p)) idz ev)
        (\<lambda>e. door_then (project_event w e) (\<lambda>_. answer (Reassigned e))) start = (r, q)"
      using run ok None by (simp add: reassign_def door_then_reading door_then_file Let_def start_def ev_def idz_def)
    have l: "well_numbered (log_of p)" and start: "log_of start = log_of p" "tables_of start = tables_of p"
      and ticks: "ticks start = Suc (ticks p)"
      using p by (simp_all add: current_def start_def)
    from append_refused_or_next [OF l, of stop "clock_at w (ticks p)" idz ev] show ?thesis
    proof
      assume "\<exists>e. append stop (log_of p) (clock_at w (ticks p)) idz ev = Inl e"
      then obtain x where "append stop (log_of p) (clock_at w (ticks p)) idz ev = Inl x" by blast
      then have "q = start" "r = Inl (StoreRefused x)"
        using run start ticks by (auto simp: door_then_log stop_def)
      then show ?thesis using cut [OF ok(3)] p by (simp add: start_def)
    next
      assume "\<exists>e. append stop (log_of p) (clock_at w (ticks p)) idz ev = Inr e \<and> well_numbered (log_of p @ [e])
        \<and> seq e = length (log_of p) + 1 \<and> body e = ev \<and> about_task (ids e) = about_task idz"
      then obtain e where e: "append stop (log_of p) (clock_at w (ticks p)) idz ev = Inr e"
        "well_numbered (log_of p @ [e])" "body e = ev" "about_task (ids e) = Some i"
        by (auto simp: idz_def)
      obtain tb where tb: "apply_event (log_of p @ [e]) e (tables_of p) = Inr tb"
        "is_replay (log_of p @ [e]) tb" "replay (log_of p @ [e]) = Inr tb"
        using apply_event_shows_all [OF p e(2)] by blast
      have "left_behind r \<or> r = Inr (Reassigned e) \<and> q = start\<lparr>log_of := log_of p @ [e], tables_of := tb\<rparr>"
        using run e(1) tb(1) start ticks
        by (auto simp: door_then_log door_then_project stop_def left_behind_iff split: option.splits)
      moreover have "recorded p i [ev] (start\<lparr>log_of := log_of p @ [e], tables_of := tb\<rparr>)"
        using e tb by (simp add: recorded_def current_def)
      ultimately show ?thesis using handed [OF ok(3,1,2,4)] behind by (auto simp: ev_def start_def)
    qed
    qed
  qed
qed

lemma record_branch_cases:
  assumes "record_branch w valid i nm p = (r, q)"
  obtains (same) "q = p"
    | (put) c where "read_contract (files_of p) i = Inr c" "branch c = None" "valid nm" "r = Inr nm"
        "q = p\<lparr>files_of := write_contract (files_of p) (c\<lparr>branch := Some nm\<rparr>)\<rparr>"
  using assms
  by (auto simp: record_branch_def door_then_reading door_then_file split: sum.splits option.splits if_splits)
     (simp add: reading_def)

section \<open>Runs\<close>

text \<open>One operation on the project, with whether it was answered: a request, a hand-over, a branch, or
  a note some other part of the program appends. It may fail in any way but one: a run does not go on
  past an event that the database did not take into the tables.\<close>

inductive door_step :: "bool \<Rightarrow> project \<Rightarrow> project \<Rightarrow> bool" where
  asked: "request w rq ask t p = (r, q) \<Longrightarrow> \<not> left_behind r \<Longrightarrow> door_step (is_ok r) p q"
| handed: "reassign w i to t p = (r, q) \<Longrightarrow> \<not> left_behind r \<Longrightarrow> door_step (is_ok r) p q"
| branched: "record_branch w valid i nm p = (r, q) \<Longrightarrow> door_step (is_ok r) p q"
| noted: "append_about w i who sess b p = (r, q) \<Longrightarrow> \<not> left_behind r \<Longrightarrow> is_note b \<Longrightarrow> door_step (is_ok r) p q"

inductive_cases door_stepE: "door_step ok p q"

text \<open>A run of operations; when \<open>answered\<close> holds, every one of them was answered.\<close>

inductive door_run :: "bool \<Rightarrow> project \<Rightarrow> project \<Rightarrow> bool" for answered where
  nothing: "door_run answered p p"
| next_step: "door_run answered p q \<Longrightarrow> door_step ok q r \<Longrightarrow> answered \<longrightarrow> ok \<Longrightarrow> door_run answered p r"

text \<open>The file of a task agrees with what the log says of it.\<close>

definition file_standing :: "task_contract \<Rightarrow> standing" where
  "file_standing c = \<lparr>stands = status c, holder = assignee c, judge = reviewer c,
                      tries = u32_saturating (iteration_field c)\<rparr>"

definition files_agree :: "project \<Rightarrow> bool" where
  "files_agree p \<longleftrightarrow> (\<forall>i c. files_of p i = Some c \<longrightarrow> task_id c = i
     \<and> (\<forall>s. standing_in (log_of p) i = Some s \<longrightarrow> file_standing c = s))"

definition lawfully :: "project \<Rightarrow> string \<Rightarrow> project \<Rightarrow> bool" where
  "lawfully p i q \<longleftrightarrow> (\<exists>bs. recorded p i bs q
     \<and> (case standing_in (log_of p) i of None \<Rightarrow> list_all is_note bs | Some s \<Rightarrow> lawful s bs))"

lemma noted_lawfully: "recorded p i bs q \<Longrightarrow> list_all is_note bs \<Longrightarrow> lawfully p i q"
  unfolding lawfully_def by (rule exI, erule conjI) (auto simp: notes_lawful split: option.split)

lemma only_noted_lawfully: "only_noted p i q \<Longrightarrow> lawfully p i q"
  using noted_lawfully door_notes_are_notes by (auto simp: only_noted_def)

lemma write_contract_other: "task_id c = i \<Longrightarrow> write_contract files c j = (if j = i then Some c else files j)"
  by (simp add: write_contract_def)

lemma moved_contract_id [simp]: "task_id (moved_contract ask d c) = task_id c"
  by (simp add: moved_contract_def Let_def)

lemma moved_standing:
  "file_standing (moved_contract ask d c) = \<lparr>stands = decided_to d,
     holder = assignee (moved_contract ask d c), judge = reviewer (moved_contract ask d c),
     tries = u32_saturating (iteration_field (moved_contract ask d c))\<rparr>"
  by (simp add: file_standing_def moved_contract_def Let_def)

lemma request_step:
  assumes p: "current p" and run: "request w rq raw t p = (r, q)" and kept: "\<not> left_behind r"
  shows "current q \<and> lawfully p (asked_task rq) q \<and> (is_ok r \<longrightarrow> files_agree p \<longrightarrow> files_agree q)"
  using p run
proof (cases rule: request_cases)
  case noted
  then show ?thesis
    using only_noted_lawfully only_noted_standing [OF noted(1)]
    by (auto simp: only_noted_def files_agree_def dest: recorded_current)
next
  case (cut d x e)
  then show ?thesis using only_noted_lawfully by (auto simp: only_noted_def dest: recorded_current)
next
  case (moved d x)
  let ?i = "asked_task rq" and ?c = "moved_contract (tidied raw) d (ctx_contract x)"
  obtain own held where own: "read_contract (files_of p) ?i = Inr held"
    "ctx_contract x = as_on_the_board own held" "standing_in (log_of p) ?i = Some (row_standing own)"
    using judged_contract [OF p moved(1)] by metis
  then have id: "task_id ?c = ?i" using read_contract_id by (simp add: as_on_the_board_def)
  from moved(2) obtain before after where rec: "list_all door_note (before @ after)"
    "recorded p ?i (before @ TaskTransitioned (move_body_of rq (tidied raw) ?c
       (folder_of_work (ctx_work x)) d) # after) q"
    by (auto simp: move_recorded_def)
  have "lawfully p ?i q"
    unfolding lawfully_def using rec own(3) judged_move_is_lawful [OF p moved(1) refl]
    by (intro exI conjI [OF rec(2)]) (auto simp: lawful_append notes_lawful door_notes_are_notes)
  moreover have "files_agree q" if "files_agree p"
    using that moved(3) move_recorded_standing [OF moved(2)] own(3) moved_standing
      id [unfolded moved_contract_id]
    by (auto simp: files_agree_def write_contract_other [OF id])
  ultimately show ?thesis using rec(2) recorded_current by blast
qed (use kept in simp)

lemma reassign_step:
  assumes p: "current p" and run: "reassign w i to t p = (r, q)" and no_lag: "\<not> left_behind r"
  shows "current q \<and> lawfully p i q \<and> (is_ok r \<longrightarrow> files_agree p \<longrightarrow> files_agree q)"
  using p run
proof (cases rule: reassign_cases)
  case kept
  then show ?thesis using standing_grows [OF kept(1)] recorded_current
    by (auto simp: lawfully_def files_agree_def intro!: exI [of _ "[]"] split: option.split)
next
  case (cut c e)
  then show ?thesis using recorded_current
    by (auto simp: lawfully_def intro!: exI [of _ "[]"] split: option.split)
next
  case (handed c e b own)
  have own: "standing_in (log_of p) i = Some (row_standing own)"
    using known_row_standing [OF p handed(2,3)] by simp
  have id: "files_of p i = Some c" "task_id c = i" using read_contract_id [OF handed(1)] by simp_all
  have "lawful (row_standing own) [TaskReassigned (re_from (reassignment_of t b own c to)) to]"
    using check_reassignment_lets [OF handed(4)]
    by (simp add: reassignment_of_def Let_def row_standing_def)
  then have "lawfully p i q" using own handed(5) unfolding lawfully_def by force
  moreover have "files_agree q" if agree: "files_agree p"
  proof -
    have "file_standing c = row_standing own" using agree id own by (simp add: files_agree_def)
    then have "file_standing (c\<lparr>assignee := Some to\<rparr>) = (row_standing own)\<lparr>holder := Some to\<rparr>"
      by (simp add: file_standing_def row_standing_def)
    then show ?thesis using agree handed(6) standing_grows [OF handed(5)] own id
      by (auto simp: files_agree_def write_contract_other)
  qed
  ultimately show ?thesis using handed(5) recorded_current by blast
qed (use no_lag in simp)

lemma door_step_lawful:
  assumes "current p" and "door_step ok p q"
  shows "current q \<and> (\<exists>i. lawfully p i q) \<and> (ok \<longrightarrow> files_agree p \<longrightarrow> files_agree q)"
  using assms(2)
proof (cases rule: door_step.cases)
  case (asked w rq ask t r)
  then show ?thesis using request_step [OF assms(1)] by blast
next
  case (handed w i to t r)
  then show ?thesis using reassign_step [OF assms(1)] by blast
next
  case (branched w valid i nm r)
  have "current q \<and> only_noted p i q \<and> (files_agree p \<longrightarrow> files_agree q)"
    using branched(2)
  proof (cases rule: record_branch_cases)
    case same
    then show ?thesis using assms(1) by (auto simp: only_noted_def intro!: exI [of _ "[]"])
  next
    case (put c)
    have "files_of p i = Some c" "task_id c = i" using read_contract_id [OF put(1)] by simp_all
    moreover have "file_standing (c\<lparr>branch := Some nm\<rparr>) = file_standing c" by (simp add: file_standing_def)
    ultimately show ?thesis using assms(1) put(5)
      by (auto simp: only_noted_def files_agree_def write_contract_other intro!: exI [of _ "[]"])
  qed
  then show ?thesis using only_noted_lawfully by blast
next
  case (noted w i who sess b r)
  then obtain bs where bs: "recorded p i bs q" "list_all is_note bs" "files_of q = files_of p"
    using append_about_records [OF assms(1) noted(2)] noted(3,4) by fastforce
  then have "standing_in (log_of q) = standing_in (log_of p)"
    using standing_grows [OF bs(1)] notes_effect [OF bs(2)] by (simp add: fun_eq_iff)
  then have "current q" "lawfully p i q" "files_agree p \<longrightarrow> files_agree q"
    using bs noted_lawfully recorded_current by (auto simp: files_agree_def)
  then show ?thesis by blast
qed

section \<open>Over a run\<close>

lemma recorded_history:
  assumes "recorded p i bs q"
  shows "map body (history_of (log_of q) j) = map body (history_of (log_of p) j) @ (if j = i then bs else [])"
  using assms by (auto simp: recorded_def history_of_def filter_empty_conv)

lemma run_lawful:
  assumes "door_run answered p q" and "current p"
  shows "current q \<and> (answered \<longrightarrow> files_agree p \<longrightarrow> files_agree q)
    \<and> (\<forall>s. standing_in (log_of p) i = Some s \<longrightarrow> (\<exists>bs. lawful s bs
          \<and> map body (history_of (log_of q) i) = map body (history_of (log_of p) i) @ bs
          \<and> standing_in (log_of q) i = Some (foldl after_body s bs)))"
  using assms
proof (induction rule: door_run.induct)
  case nothing
  then show ?case by (auto intro: exI [of _ "[]"])
next
  case (next_step p q ok r)
  have q: "current q" using next_step by simp
  obtain j where step: "current r" "lawfully q j r" "ok \<longrightarrow> files_agree q \<longrightarrow> files_agree r"
    using door_step_lawful [OF q next_step.hyps(2)] by blast
  obtain cs where cs: "recorded q j cs r"
    "case standing_in (log_of q) j of None \<Rightarrow> list_all is_note cs | Some s \<Rightarrow> lawful s cs"
    using step(2) by (auto simp: lawfully_def)
  have "\<exists>bs. lawful s bs \<and> map body (history_of (log_of r) i) = map body (history_of (log_of p) i) @ bs
      \<and> standing_in (log_of r) i = Some (foldl after_body s bs)" if here: "standing_in (log_of p) i = Some s" for s
  proof -
    obtain bs where bs: "lawful s bs" "standing_in (log_of q) i = Some (foldl after_body s bs)"
      "map body (history_of (log_of q) i) = map body (history_of (log_of p) i) @ bs"
      using next_step here by blast
    show ?thesis
    proof (intro exI [of _ "bs @ (if i = j then cs else [])"] conjI)
      show "lawful s (bs @ (if i = j then cs else []))"
        using bs cs(2) by (auto simp: lawful_append)
      show "map body (history_of (log_of r) i) = map body (history_of (log_of p) i) @ bs @ (if i = j then cs else [])"
        using bs(3) recorded_history [OF cs(1)] by simp
      show "standing_in (log_of r) i = Some (foldl after_body s (bs @ (if i = j then cs else [])))"
        using standing_grows [OF cs(1), of i] bs(2) by (auto simp: after_bodies)
    qed
  qed
  then show ?case using step next_step by blast
qed

text \<open>
  C6: The contract files never contradict the log: when every request, hand-over and branch of a run
  was answered, each task's file still has the status, the holder, the reviewer and the iteration
  the board shows, and the tables still show the whole log. (A failure half-way may leave a file
  ahead of the log; the next request judges by the log.)
\<close>

theorem run_keeps_files_agreeing:
  assumes "current p" and "files_agree p" and "door_run True p q"
    and "files_of q i = Some c" and "standing_at (tables_of q) i = Some s"
  shows "current q \<and> task_id c = i \<and> file_standing c = s"
proof -
  have "current q" "files_agree q" using run_lawful [OF assms(3,1)] assms(2) by simp_all
  then show ?thesis using assms(4,5) current_standing [of q i] by (auto simp: files_agree_def)
qed


lemma lawful_cancelled:
  assumes "stands s = Cancelled" and "lawful s bs"
  shows "list_all is_note bs"
  using assms
proof (induction bs arbitrary: s)
  case (Cons b bs)
  then have "is_note b"
    by (cases b) (auto simp: moves_from_def)
  then show ?case using Cons note_lawful [of b s] by simp
qed simp

text \<open>The one move out of accepted.\<close>

definition reopens_accepted :: "standing \<Rightarrow> move_body \<Rightarrow> bool" where
  "reopens_accepted s b \<longleftrightarrow> move_from b = Accepted \<and> move_to b = Assigned \<and> move_actor b = GovernorActor
     \<and> move_gate b = PullRequestConflicted \<and> move_assignee b = holder s \<and> move_reviewer b = judge s"

lemma lawful_accepted:
  assumes "stands s = Accepted" and "lawful s bs"
  shows "list_all is_note bs \<or> (\<exists>before b after. bs = before @ TaskTransitioned b # after
    \<and> list_all is_note before \<and> reopens_accepted s b)"
  using assms
proof (induction bs)
  case (Cons b bs)
  show ?case
  proof (cases "is_note b")
    case True
    then have "list_all is_note bs \<or> (\<exists>before b after. bs = before @ TaskTransitioned b # after
        \<and> list_all is_note before \<and> reopens_accepted s b)"
      using Cons note_lawful [of b s] by simp
    then show ?thesis
    proof
      assume "\<exists>before m after. bs = before @ TaskTransitioned m # after
        \<and> list_all is_note before \<and> reopens_accepted s m"
      then obtain before m after where "b # bs = (b # before) @ TaskTransitioned m # after"
        "list_all is_note (b # before)" "reopens_accepted s m" using True by auto
      then show ?thesis by blast
    qed (use True in simp)
  next
    case False
    then obtain m where m: "b = TaskTransitioned m"
      using Cons.prems by (cases b) auto
    then have "reopens_accepted s m"
      using Cons.prems
      by (auto simp: moves_from_def find_transitions_Accepted is_assigning_def reopens_accepted_def split: if_splits)
    then show ?thesis using m by (intro disjI2 exI [of _ "[]"]) auto
  qed
qed simp

text \<open>
  C7: A closed task stays closed. Over any run nothing the log gains about a cancelled task changes it, and
  it keeps its holder, its reviewer and its tries. Nothing changes an accepted task either, until the
  first move the run gained about it: that is the Governor's, made because its pull request conflicts,
  from accepted to assigned, with the same holder and reviewer.
\<close>

theorem closed_tasks_stay_closed:
  assumes "current p" and "door_run answered p q" and "standing_at (tables_of p) i = Some s"
  shows "\<exists>gained. map body (history_of (log_of q) i) = map body (history_of (log_of p) i) @ gained
    \<and> (stands s = Cancelled \<longrightarrow> list_all is_note gained \<and> standing_at (tables_of q) i = Some s)
    \<and> (stands s = Accepted \<longrightarrow>
        list_all is_note gained \<and> standing_at (tables_of q) i = Some s
        \<or> (\<exists>before b after. gained = before @ TaskTransitioned b # after \<and> list_all is_note before
              \<and> reopens_accepted s b))"
proof -
  have "standing_in (log_of p) i = Some s" using current_standing assms(1,3) by simp
  then obtain bs where bs: "lawful s bs" "standing_in (log_of q) i = Some (foldl after_body s bs)"
    "map body (history_of (log_of q) i) = map body (history_of (log_of p) i) @ bs" and "current q"
    using run_lawful [OF assms(2,1)] by (metis (no_types, lifting))
  then have q: "standing_at (tables_of q) i = Some (foldl after_body s bs)" using current_standing by simp
  have same: "foldl after_body s bs = s" if "list_all is_note bs" using notes_lawful that by blast
  show ?thesis
  proof (intro exI [of _ bs] conjI impI)
    show "map body (history_of (log_of q) i) = map body (history_of (log_of p) i) @ bs" by (rule bs(3))
  next
    assume "stands s = Cancelled"
    then show "list_all is_note bs" "standing_at (tables_of q) i = Some s"
      using q same lawful_cancelled bs(1) by metis+
  next
    assume "stands s = Accepted"
    from lawful_accepted [OF this bs(1)]
    show "list_all is_note bs \<and> standing_at (tables_of q) i = Some s
        \<or> (\<exists>before b after. bs = before @ TaskTransitioned b # after \<and> list_all is_note before
              \<and> reopens_accepted s b)"
      using q same by auto
  qed
qed

section \<open>Tries\<close>

fun counted_move :: "event_body \<Rightarrow> bool" where
  "counted_move (TaskTransitioned b) = counts_up b"
| "counted_move _ = False"

fun reworked :: "event_body \<Rightarrow> bool" where
  "reworked (TaskTransitioned b) = (move_from b = Rejected \<and> move_to b = InProgress)"
| "reworked _ = False"

lemma lawful_tries:
  assumes "lawful s bs"
  shows "unat (tries (foldl after_body s bs)) = min (unat (tries s) + length (filter counted_move bs)) (2 ^ 32 - 1)
    \<and> length (filter reworked bs) \<le> length (filter counted_move bs)"
  using assms
proof (induction bs arbitrary: s)
  case Nil
  then show ?case by (simp add: unat_next_try(3))
next
  case (Cons b bs)
  then have IH: "unat (tries (foldl after_body (after_body s b) bs))
        = min (unat (tries (after_body s b)) + length (filter counted_move bs)) (2 ^ 32 - 1)"
    "length (filter reworked bs) \<le> length (filter counted_move bs)" by auto
  have "unat (tries (after_body s b)) = min (unat (tries s) + (if counted_move b then 1 else 0)) (2 ^ 32 - 1)
      \<and> (reworked b \<longrightarrow> counted_move b)"
  proof (cases b)
    case (TaskTransitioned m)
    then show ?thesis using Cons.prems by (auto simp: moves_from_def after_body_def)
  qed (use Cons.prems in \<open>auto simp: after_body_def unat_next_try(3)\<close>)
  then show ?case using IH by auto
qed

text \<open>
  C8: Tries are counted, never lost: over any run a task's iteration grows by exactly the moves that
  record an increment, stopping at the largest \<open>u32\<close>, and each return of a rejected task to work is
  one of them, so the number of returns is bounded by what the iteration gained.
\<close>

theorem tries_count_every_rework:
  assumes "current p" and "door_run answered p q"
    and "standing_at (tables_of p) i = Some s" and "standing_at (tables_of q) i = Some u"
  shows "\<exists>bs. map body (history_of (log_of q) i) = map body (history_of (log_of p) i) @ bs
    \<and> unat (tries u) = min (unat (tries s) + length (filter counted_move bs)) (2 ^ 32 - 1)
    \<and> (unat (tries u) < 2 ^ 32 - 1 \<longrightarrow> length (filter reworked bs) \<le> unat (tries u) - unat (tries s))"
proof -
  have "standing_in (log_of p) i = Some s" using current_standing assms(1,3) by simp
  then obtain bs where bs: "lawful s bs" "standing_in (log_of q) i = Some (foldl after_body s bs)"
    "map body (history_of (log_of q) i) = map body (history_of (log_of p) i) @ bs" and "current q"
    using run_lawful [OF assms(2,1)] by (metis (no_types, lifting))
  then have "u = foldl after_body s bs" using current_standing assms(4) by simp
  then show ?thesis using lawful_tries [OF bs(1)] bs(3) by (intro exI [of _ bs]) auto
qed

section \<open>What one request does\<close>

text \<open>
  C4: A request answered with a move records that move and nothing else about the board: among notes,
  one \<open>task.transitioned\<close> with the row's gate, the actor and the statuses, then an escalation for
  each the decision raises and the line in the channel. The task's file and its row on the board
  stand where the move says, and no other task's file or standing changes.
\<close>

theorem moved_request_is_recorded:
  assumes "current p" and "request w rq ask t p = (Inr (MovedTo d), q)"
  shows "\<exists>c b before after.
      map body (history_of (log_of q) (asked_task rq))
        = map body (history_of (log_of p) (asked_task rq)) @ before @ TaskTransitioned b # after
    \<and> list_all door_note (before @ after) \<and> told_after rq (tidied ask) d after
    \<and> move_from b = decided_from d \<and> move_to b = asked_to rq \<and> move_actor b = asked_actor rq
    \<and> move_gate b = row_gate (decided_row d)
    \<and> files_of q = (files_of p)(asked_task rq \<mapsto> c) \<and> status c = asked_to rq
    \<and> standing_at (tables_of q) (asked_task rq) = Some (file_standing c)
    \<and> (\<forall>j. j \<noteq> asked_task rq \<longrightarrow> standing_at (tables_of q) j = standing_at (tables_of p) j)"
  using assms
proof (cases rule: request_cases)
  case (moved d' x)
  let ?i = "asked_task rq" and ?c = "moved_contract (tidied ask) d (ctx_contract x)"
  have d: "d' = d" "is_ok (Inr (MovedTo d) :: (door_error, transition_outcome) result)"
    using moved(4) by (simp_all add: is_ok_iff)
  have judged: "judged w p rq (tidied ask) t x (Inr d)" using moved(1) d(1) by simp
  obtain r where r: "d = decision rq x r" using judged_decision [OF judged] by metis
  obtain own held where own: "read_contract (files_of p) ?i = Inr held" "ctx_contract x = as_on_the_board own held"
    "standing_in (log_of p) ?i = Some (row_standing own)"
    using judged_contract [OF assms(1) judged] by metis
  then have id: "task_id ?c = ?i" using read_contract_id by (simp add: as_on_the_board_def)
  obtain before after where rec: "list_all door_note (before @ after)" "told_after rq (tidied ask) d after"
    "recorded p ?i (before @ TaskTransitioned (move_body_of rq (tidied ask) ?c
       (folder_of_work (ctx_work x)) d) # after) q"
    using moved(2) d by (auto simp: move_recorded_def)
  have "current q" using rec(3) recorded_current by blast
  note shown = current_standing [OF this] current_standing [OF assms(1)]
  have files: "files_of q = (files_of p)(?i \<mapsto> ?c)" using moved(3) d(1) id by (simp add: write_contract_def)
  have standing: "standing_at (tables_of q) ?i = Some (file_standing ?c)"
      "\<forall>j. j \<noteq> ?i \<longrightarrow> standing_at (tables_of q) j = standing_at (tables_of p) j"
    using move_recorded_standing [OF moved(2)] own(3) d(1) by (simp_all add: shown moved_standing)
  show ?thesis
    using recorded_history [OF rec(3), of ?i] rec(1,2) files standing r
    by (intro exI [of _ ?c] exI [of _ "move_body_of rq (tidied ask) ?c (folder_of_work (ctx_work x)) d"]
        exI [of _ before] exI [of _ after])
      (simp add: move_body_of_def Let_def moved_contract_def)
qed simp_all

text \<open>
  C5: A refusal is recorded and changes nothing else: every contract file and every task's standing
  stay as they were, and the task's history gains notes only, the last of them the refusal that was
  answered.
\<close>

theorem refused_request_changes_nothing:
  assumes "current p" and "request w rq ask t p = (Inr (RefusedFor no), q)"
  shows "files_of q = files_of p \<and> standing_at (tables_of q) = standing_at (tables_of p)
    \<and> (\<exists>ns b. map body (history_of (log_of q) (asked_task rq))
          = map body (history_of (log_of p) (asked_task rq)) @ ns @ [TransitionRefused b]
        \<and> list_all door_note ns \<and> refusal b = no)"
  using assms
proof (cases rule: request_cases)
  case noted
  then have "refusal_recorded p (asked_task rq) no q" by auto
  then obtain ns b where nb: "recorded p (asked_task rq) (ns @ [TransitionRefused b]) q" "list_all door_note ns"
    "refusal b = no" by (auto simp: refusal_recorded_def)
  have "current q" using nb(1) recorded_current by blast
  then have "standing_at (tables_of q) = standing_at (tables_of p)"
    using current_standing assms(1) only_noted_standing [OF noted(1)] by (simp add: fun_eq_iff)
  then show ?thesis using noted(2) recorded_history [OF nb(1), of "asked_task rq"] nb by auto
qed simp_all

lemma moved_request_stands:
  assumes "current p" and "request w rq ask t p = (Inr (MovedTo d), q)"
  shows "map_option stands (standing_at (tables_of q) (asked_task rq)) = Some (asked_to rq)"
  using assms
proof (cases rule: request_cases)
  case (moved d' x)
  have "current q" using moved(2) recorded_current by (auto simp: move_recorded_def)
  moreover have "decided_to d' = asked_to rq"
    using judged_decision [OF moved(1)] by (metis decision_simps(2))
  moreover obtain own where "standing_in (log_of p) (asked_task rq) = Some (row_standing own)"
    using judged_contract [OF assms(1) moved(1)] by metis
  ultimately show ?thesis
    using move_recorded_standing [OF moved(2)] current_standing by simp
qed simp_all

section \<open>The small project\<close>

lemma sample_files_agree: "files_agree sample_project"
  by (auto simp: files_agree_def sample_agrees sample_task_def sample_contract_def file_standing_def
      u32_saturating_def split: if_splits)

lemma sample_run:
  "\<exists>d q c s. request sample_world (human_asks_for Cancelled) no_ask sample_team sample_project = (Inr (MovedTo d), q)
     \<and> door_run True sample_project q \<and> files_of q ''CTV-7'' = Some c
     \<and> standing_at (tables_of q) ''CTV-7'' = Some s \<and> stands s = Cancelled"
proof -
  let ?rq = "human_asks_for Cancelled"
  obtain d q where run: "request sample_world ?rq no_ask sample_team sample_project = (Inr (MovedTo d), q)"
    using sample_requests(1) by blast
  have "door_run True sample_project q"
    using door_run.next_step [OF door_run.nothing door_step.asked [OF run left_behind_Inr]] by simp
  moreover have "\<exists>c s. files_of q ''CTV-7'' = Some c \<and> standing_at (tables_of q) ''CTV-7'' = Some s
      \<and> stands s = Cancelled"
    using sample_current run
  proof (cases rule: request_cases)
    case (moved d' x)
    obtain own held where own: "read_contract (files_of sample_project) (asked_task ?rq) = Inr held"
      "ctx_contract x = as_on_the_board own held"
      using judged_contract [OF sample_current moved(1)] by metis
    have i: "asked_task ?rq = ''CTV-7''" "asked_to ?rq = Cancelled" by (simp_all add: human_asks_for_def)
    then have "task_id (moved_contract (tidied no_ask) d' (ctx_contract x)) = ''CTV-7''"
      using own read_contract_id by (simp add: as_on_the_board_def)
    then have "\<exists>c. files_of q ''CTV-7'' = Some c" using moved(3) by (simp add: write_contract_def)
    moreover have "decided_to d' = Cancelled"
      using judged_decision [OF moved(1)] i(2) by (metis decision_simps(2))
    moreover have "current q" using moved(2) recorded_current by (auto simp: move_recorded_def)
    ultimately show ?thesis
      using move_recorded_standing [OF moved(2)] i(1) sample_agrees(2) current_standing by simp
  qed simp_all
  ultimately show ?thesis using run by blast
qed

theorem run_keeps_files_agreeing_witness:
  "\<exists>q c s. door_run True sample_project q \<and> files_of q ''CTV-7'' = Some c
     \<and> standing_at (tables_of q) ''CTV-7'' = Some s \<and> stands s = Cancelled \<and> file_standing c = s"
proof -
  obtain q c s where q: "door_run True sample_project q" "files_of q ''CTV-7'' = Some c"
    "standing_at (tables_of q) ''CTV-7'' = Some s" "stands s = Cancelled"
    using sample_run by blast
  then show ?thesis
    using run_keeps_files_agreeing [OF sample_current sample_files_agree q(1-3)] by blast
qed


text \<open>An accepted task whose pull request conflicts, taken back by the Governor.\<close>

lemma conflict_takes_it_back:
  "\<exists>d q. request sample_world \<lparr>asked_task = ''CTV-7'', asked_to = Assigned, asked_actor = GovernorActor, asked_agent = None\<rparr>
      (no_ask\<lparr>ask_conflicts := Some [''src/a.rs'']\<rparr>) sample_team (project_at Accepted) = (Inr (MovedTo d), q)
    \<and> current q"
proof -
  let ?rq = "\<lparr>asked_task = ''CTV-7'', asked_to = Assigned, asked_actor = GovernorActor, asked_agent = None\<rparr> :: transition_request"
  let ?ask = "no_ask\<lparr>ask_conflicts := Some [''src/a.rs'']\<rparr>" and ?p = "project_at Accepted"
  have rq: "asked_task ?rq = ''CTV-7''" "asked_to ?rq \<noteq> Verifying" by simp_all
  obtain x q where x: "context_at sample_world ?p (clock_at sample_world (ticks ?p)) ?rq (tidied ?ask) sample_team = Inr x"
    and q: "current q" "request sample_world ?rq ?ask sample_team ?p =
      (Inr (case decide sample_world ?p ?rq (tidied ?ask) sample_team x of Inr d \<Rightarrow> MovedTo d | Inl no \<Rightarrow> RefusedFor no), q)"
    using sample_answered [OF rq, of Accepted ?ask sample_team] by auto
  obtain b own held where own: "board_of sample_world ?p = Inr b" "known_row b ''CTV-7'' = Inr own"
    "read_contract (files_of ?p) ''CTV-7'' = Inr held" "ctx_contract x = as_on_the_board own held"
    using context_contract [OF x] by auto
  have "b_status own = Accepted"
    using known_row_standing [OF sample_current own(1,2)] sample_agrees(2) [of Accepted] by (simp add: row_standing_def)
  then have c: "status (ctx_contract x) = Accepted" "task_id (ctx_contract x) = ''CTV-7''"
    using own(3,4) read_contract_id by (auto simp: as_on_the_board_def)
  have "pull_request_conflicts x = [''src/a.rs'']"
    using x by (auto simp: context_at_def Let_def and_then_Inr_iff case_prod_beta tidied_def)
  then have "is_ok (evaluate_transition (engine sample_world) ?rq x)"
    using c by (simp add: passes_iff may_ask_unnamed find_transitions_Accepted check_row_to gate_opens)
  then obtain d where "evaluate_transition (engine sample_world) ?rq x = Inr d" unfolding is_ok_iff by blast
  then have "decide sample_world ?p ?rq (tidied ?ask) sample_team x = Inr d"
    by (simp add: decide_def refused_before_the_governor_def)
  then show ?thesis using q by auto
qed

theorem closed_tasks_stay_closed_witness:
  "\<exists>q before b after. door_run True (project_at Accepted) q
     \<and> map body (history_of (log_of q) ''CTV-7'') =
         map body (history_of (log_of (project_at Accepted)) ''CTV-7'') @ before @ TaskTransitioned b # after
     \<and> list_all is_note before \<and> move_to b = Assigned \<and> move_gate b = PullRequestConflicted
     \<and> map_option stands (standing_at (tables_of q) ''CTV-7'') = Some Assigned"
proof -
  obtain rq ask d q where run: "request sample_world rq ask sample_team (project_at Accepted) = (Inr (MovedTo d), q)"
    and rq: "asked_to rq = Assigned" "asked_task rq = ''CTV-7''"
    using conflict_takes_it_back by fastforce
  have went: "door_run True (project_at Accepted) q"
    using door_run.next_step [OF door_run.nothing door_step.asked [OF run left_behind_Inr]] by simp
  have "map_option stands (standing_at (tables_of q) ''CTV-7'') = Some Assigned"
    using moved_request_stands [OF sample_current run] rq by simp
  then show ?thesis
    using closed_tasks_stay_closed [OF sample_current went sample_standing] went
    by (auto simp: reopens_accepted_def)
qed

theorem tries_count_every_rework_witness:
  "\<exists>q u bs. door_run True sample_project q \<and> standing_at (tables_of q) ''CTV-7'' = Some u
     \<and> unat (tries u) = min (length (filter counted_move bs)) (2 ^ 32 - 1)"
proof -
  obtain q u where q: "door_run True sample_project q" "standing_at (tables_of q) ''CTV-7'' = Some u"
    using sample_run by blast
  then show ?thesis
    using tries_count_every_rework [OF sample_current q(1) sample_standing q(2)] by auto
qed

theorem moved_request_is_recorded_witness:
  "\<exists>d q c. request sample_world (human_asks_for Cancelled) no_ask sample_team sample_project = (Inr (MovedTo d), q)
     \<and> files_of q = (files_of sample_project)(''CTV-7'' \<mapsto> c) \<and> status c = Cancelled"
proof -
  obtain d q where q: "request sample_world (human_asks_for Cancelled) no_ask sample_team sample_project
      = (Inr (MovedTo d), q)"
    using sample_requests(1) by blast
  then show ?thesis
    using moved_request_is_recorded [OF sample_current q] by (auto simp: human_asks_for_def)
qed

theorem refused_request_changes_nothing_witness:
  "\<exists>no q. request sample_world (human_asks_for Accepted) no_ask sample_team sample_project = (Inr (RefusedFor no), q)
     \<and> files_of q = files_of sample_project"
proof -
  obtain no q where q: "request sample_world (human_asks_for Accepted) no_ask sample_team sample_project
      = (Inr (RefusedFor no), q)"
    using sample_requests(2) by blast
  then show ?thesis
    using refused_request_changes_nothing [OF sample_current q] by blast
qed

end
