(* ===== verification/Assigning.thy ===== *)
theory Assigning
  imports Lifecycle
begin

text \<open>
  Who holds a task: the assignments and hand-overs of crates/runtime/src/transitions.rs seen through
  the whole door (its own check, the governor's gate and what is recorded), and which of an agent's
  tasks are within its limit.
\<close>

section \<open>An assignment\<close>

lemma context_assignment_parts:
  assumes "context_at w p now rq ask t = Inr x"
  obtains b own held where "board_of w p = Inr b" "known_row b (asked_task rq) = Inr own"
    "read_contract (files_of p) (asked_task rq) = Inr held" "ctx_contract x = as_on_the_board own held"
    "(case assignment_of w (tidied ask) t b own (dependency_states_on (as_on_the_board own held) b) of
        None \<Rightarrow> Inr None
      | Some r0 \<Rightarrow> and_then (fill_assignment w (files_of p) b own (as_on_the_board own held) t (autopilot_in (log_of p)) r0)
                   (\<lambda>f. Inr (Some f))) = (Inr (ctx_assignment x) :: (door_error, assignment_input option) result)"
proof -
  have "\<exists>b own held. board_of w p = Inr b \<and> known_row b (asked_task rq) = Inr own
    \<and> read_contract (files_of p) (asked_task rq) = Inr held \<and> ctx_contract x = as_on_the_board own held
    \<and> (case assignment_of w (tidied ask) t b own (dependency_states_on (as_on_the_board own held) b) of
        None \<Rightarrow> Inr None
      | Some r0 \<Rightarrow> and_then (fill_assignment w (files_of p) b own (as_on_the_board own held) t (autopilot_in (log_of p)) r0)
                   (\<lambda>f. Inr (Some f))) = (Inr (ctx_assignment x) :: (door_error, assignment_input option) result)"
    using assms by (auto simp: context_at_def Let_def and_then_Inr_iff case_prod_beta)
  then show ?thesis using that by blast
qed

lemma context_assignment:
  assumes "context_at w p now rq ask t = Inr x" and "ctx_assignment x = Some input"
  shows "\<exists>who. ask_assignee (tidied ask) = Some who \<and> assignee_id input = who
    \<and> reviewer_id input = (case ask_reviewer (tidied ask) of None \<Rightarrow> [] | Some i \<Rightarrow> i)
    \<and> assignment_solo input = is_solo t \<and> has_active_scrum_master input = has_active ScrumMaster t"
  using assms(1)
proof (cases rule: context_assignment_parts)
  case (1 b own held)
  then show ?thesis
    using assms(2)
    by (auto simp: assignment_of_def fill_assignment_def Let_def and_then_Inr_iff split: option.splits)
qed

lemma find_transitions_assigning:
  "r \<in> set (find_transitions Ready Assigned) \<Longrightarrow>
     row_gate r = AssignmentGate \<and> row_actor r \<in> {ProductManagerActor, ScrumMasterActor}"
  by (auto simp: find_transitions_def TRANSITION_TABLE_def leaves_def)

lemma door_failure_Nil:
  assumes "door_failure t human as who = []"
  shows "(as = AsReviewer \<and> human \<and> trimmed who = None)
    \<or> (\<exists>i a. trimmed who = Some i \<and> agent_named t i = Some a \<and> agent_status a = Active)"
  using assms by (auto simp: door_failure_def split: option.splits if_splits)

lemma trimmed_twice [simp]: "trimmed (trimmed x) = trimmed x"
  by (auto simp: trimmed_def split: option.splits)

lemma tidied_simps [simp]:
  "ask_assignee (tidied ask) = trimmed (ask_assignee ask)" "ask_reviewer (tidied ask) = trimmed (ask_reviewer ask)"
  "tidied (tidied ask) = tidied ask"
  by (simp_all add: tidied_def)

lemma trimmed_again: "trimmed x = Some i \<Longrightarrow> trimmed (Some i) = Some i"
  by (metis trimmed_twice)

lemma trimmed_trim: "trimmed x = Some i \<Longrightarrow> trim i = i \<and> i \<noteq> []"
  by (auto simp: trimmed_def split: option.splits if_splits)

text \<open>
  C12: An assignment that is recorded gave the task to an active agent of the team, named by the
  request; and unless the human reviews it (an epic with no Scrum Master) or the team is one agent
  alone, to an active reviewer too, who is somebody else unless the task is one its role reviews
  itself or a person reviews. Both are in the contract file, as the board shows them.
\<close>

theorem assignment_names_active_agents:
  assumes "current p" and "request w rq ask t p = (Inr (MovedTo d), q)"
    and "decided_from d = Ready" and "asked_to rq = Assigned"
  shows "\<exists>c who a. files_of q (asked_task rq) = Some c \<and> assignee c = Some who
    \<and> agent_named t who = Some a \<and> agent_status a = Active
    \<and> (reviewed_by_the_human c t \<or> is_solo t
        \<or> (\<exists>other r. reviewer c = Some other \<and> agent_named t other = Some r \<and> agent_status r = Active
             \<and> (other \<noteq> who \<or> may_review_itself c \<or> reviewer_role c = HumanRole)))"
  using assms(1,2)
proof (cases rule: request_cases)
  case (moved d' x)
  let ?i = "asked_task rq" and ?ask = "tidied ask" and ?x = "ctx_contract x"
  define c where "c = moved_contract ?ask d ?x"
  have "d' = d" using moved(4) by simp
  then have judged: "judged w p rq ?ask t x (Inr d)" using moved(1) by simp
  obtain r where r: "d = decision rq x r" "r \<in> set (find_transitions (decided_from d) (decided_to d))"
    "row_actor r = asked_actor rq" "check_row (engine w) rq x r = Inr ()" "?i = task_id ?x"
    using judged_decision [OF judged] by metis
  have to: "decided_to d = Assigned" using r(1) assms(4) by simp
  have ready: "status ?x = Ready" using r(1) assms(3) by simp
  have row: "row_gate r = AssignmentGate" "asked_actor rq \<in> {ProductManagerActor, ScrumMasterActor}"
    using find_transitions_assigning [of r] r(2,3) assms(3) to by auto
  from judged obtain u now where u: "context_at w u now rq ?ask t = Inr x" "Inr d = decide w u rq ?ask t x"
    unfolding judged_def by blast
  from u(2) have "refused_before_the_governor rq ?ask t ?x (the_given_agent (log_of u) t rq ?x) = None"
    by (simp add: decide_def split: option.splits)
  then have door: "door_failure t (reviewed_by_the_human ?x t \<or> is_solo t) AsAssignee (ask_assignee ?ask) = []"
      "door_failure t (reviewed_by_the_human ?x t \<or> is_solo t) AsReviewer (ask_reviewer ?ask) = []"
    using row(2) ready assms(4)
    by (auto simp: refused_before_the_governor_def Let_def split: option.splits if_splits)
  have "check_gate (engine w) AssignmentGate (asked_actor rq) Assigned x = Inr ()"
    using r(4) row assms(4) by (auto simp: check_row_to)
  then obtain input where input: "ctx_assignment x = Some input"
    "check_assignment ?x (input\<lparr>requested_by := requester (asked_actor rq)\<rparr>) = Inr ()"
    by (auto simp: gate_opens)
  obtain who where who: "trimmed (ask_assignee ask) = Some who" "assignee_id input = who"
    "reviewer_id input = (case trimmed (ask_reviewer ask) of None \<Rightarrow> [] | Some i \<Rightarrow> i)"
    "assignment_solo input = is_solo t" "has_active_scrum_master input = has_active ScrumMaster t"
    using context_assignment [OF u(1) input(1)] by auto
  have "reviewer_reasons ?x (input\<lparr>requested_by := requester (asked_actor rq)\<rparr>) = []"
    using input(2) by (simp add: check_assignment_def Let_def)
  then have apart: "other \<noteq> who \<or> may_review_itself ?x \<or> reviewer_role ?x = HumanRole
      \<or> reviewed_by_the_human ?x t \<or> is_solo t"
    if "trimmed (ask_reviewer ask) = Some other" for other
    using that who trimmed_trim [OF who(1)] trimmed_trim [OF that]
    by (auto simp: reviewer_reasons_def expected_reviewer_def reviewed_by_the_human_def split: if_splits)
  have c: "assignee c = Some who" "reviewer c = trimmed (ask_reviewer ask)"
    "reviewed_by_the_human c t = reviewed_by_the_human ?x t" "may_review_itself c = may_review_itself ?x"
    "reviewer_role c = reviewer_role ?x"
    using assms(3) to who(1)
    by (simp_all add: c_def moved_contract_def Let_def reviewed_by_the_human_def may_review_itself_def)
  have files: "files_of q ?i = Some c"
    using moved(3) \<open>d' = d\<close> r(5) by (simp add: write_contract_def c_def)
  obtain a where a: "agent_named t who = Some a" "agent_status a = Active"
    using door_failure_Nil [OF door(1)] who(1) trimmed_again [OF who(1)] by auto
  show ?thesis
    using files c a apart door_failure_Nil [OF door(2)] trimmed_again
    by (intro exI [of _ c] exI [of _ who] exI [of _ a]) auto
qed simp_all

section \<open>A hand-over\<close>

text \<open>
  C13: A hand-over changes one thing, the holder, in the file and on the board alike: to another active
  agent of the contract's role who is below its limit and is not the task's reviewer (unless the role
  reviews its own work), and only while the task is assigned or in progress, past its holder's limit.
  A refused hand-over leaves the project as it was.
\<close>

theorem hand_over_changes_only_the_holder:
  assumes "current p" and "reassign w i to t p = (Inr outcome, q)"
  shows "case outcome of
      NotReassigned _ \<Rightarrow> q = p
    | Reassigned e \<Rightarrow> \<exists>c a s. read_contract (files_of p) i = Inr c
        \<and> agent_named t to = Some a \<and> agent_status a = Active \<and> agent_role a = assignee_role c
        \<and> files_of q = (files_of p)(i \<mapsto> c\<lparr>assignee := Some to\<rparr>)
        \<and> standing_at (tables_of p) i = Some s \<and> stands s \<in> {Assigned, InProgress}
        \<and> standing_at (tables_of q) = (standing_at (tables_of p))(i \<mapsto> s\<lparr>holder := Some to\<rparr>)
        \<and> (map_option trim (judge s) \<noteq> Some (trim to) \<or> may_review_itself c)
        \<and> (\<exists>b own. board_of w p = Inr b \<and> known_row b i = Inr own \<and> i \<notin> set (within_limit t b)
             \<and> open_tasks b to (b_parent own) < wip_limit_of t)"
proof (cases outcome)
  case (NotReassigned ns)
  have "q = p"
    using assms(2) NotReassigned
    by (auto simp: reassign_def door_then_reading door_then_file door_then_log door_then_project Let_def
        split: sum.splits option.splits)
  then show ?thesis by (simp add: NotReassigned)
next
  case (Reassigned e)
  from assms(1,2) show ?thesis
  proof (cases rule: reassign_cases)
    case (handed c e' b own)
    let ?s = "row_standing own"
    have own: "standing_in (log_of p) i = Some ?s" using known_row_standing [OF assms(1) handed(2,3)] by simp
    have "current q" using handed(5) recorded_current by blast
    note shown = current_standing [OF this] current_standing [OF assms(1)]
    have "\<exists>a. agent_named t to = Some a \<and> agent_status a = Active \<and> agent_role a = assignee_role c"
      using handed(4) by (auto simp: check_reassignment_def reassignment_of_def Let_def reason_if_def
          split: if_splits option.splits)
    then obtain a where a: "agent_named t to = Some a" "agent_status a = Active" "agent_role a = assignee_role c"
      by blast
    have "standing_at (tables_of q) = (standing_at (tables_of p))(i \<mapsto> ?s\<lparr>holder := Some to\<rparr>)"
      using standing_grows [OF handed(5)] own by (auto simp: shown fun_eq_iff)
    moreover have "files_of q = (files_of p)(i \<mapsto> c\<lparr>assignee := Some to\<rparr>)"
      using handed(6) read_contract_id [OF handed(1)] by (simp add: write_contract_def)
    moreover have "i \<notin> set (within_limit t b) \<and> open_tasks b to (b_parent own) < wip_limit_of t"
      using handed(4) known_row_standing [OF assms(1) handed(2,3)]
      by (auto simp: check_reassignment_def reassignment_of_def Let_def reason_if_def split: if_splits)
    ultimately show ?thesis
      using a handed(1-3) own check_reassignment_lets [OF handed(4)] shown Reassigned by auto
  qed (simp_all add: Reassigned)
qed

section \<open>The limit on what an agent works on\<close>

lemma active_named: "ungoverned t r = False \<longleftrightarrow> b_kind r \<noteq> Epic \<and> row_counts_towards_wip r
    \<and> (\<exists>a \<in> set (active_members t). b_assignee r = Some (agent_id a))"
  unfolding ungoverned_def list_ex_iff by (metis (no_types, lifting))

lemma same_row:
  "distinct (map b_task b) \<Longrightarrow> r \<in> set b \<Longrightarrow> r' \<in> set b \<Longrightarrow> b_task r = b_task r' \<Longrightarrow> r = r'"
  by (simp add: distinct_map inj_on_def)

text \<open>Of what an active agent holds, exactly its first tasks are within the limit.\<close>

lemma within_limit_of_agent:
  assumes "distinct (map b_task b)" and "a \<in> set (active_members t)" and "r \<in> set (held_by b (agent_id a))"
  shows "b_task r \<in> set (within_limit t b) \<longleftrightarrow> r \<in> set (take (limit_of t) (held_in_order b (agent_id a)))"
proof
  have held: "r \<in> set b" "b_assignee r = Some (agent_id a)" "ungoverned t r = False"
    using assms(2,3) active_named by (auto simp: held_by_def)
  assume "b_task r \<in> set (within_limit t b)"
  then consider r' where "r' \<in> set b" "ungoverned t r'" "b_task r' = b_task r"
    | a' r' where "a' \<in> set (active_members t)" "b_task r' = b_task r"
        "r' \<in> set (take (limit_of t) (held_in_order b (agent_id a')))"
    by (auto simp: within_limit_def)
  then show "r \<in> set (take (limit_of t) (held_in_order b (agent_id a)))"
  proof cases
    case 1
    then show ?thesis using same_row [OF assms(1) 1(1) held(1)] held(3) by simp
  next
    case 2
    then have "r' \<in> set (held_by b (agent_id a'))"
      using in_set_takeD [OF 2(3)] by (simp add: held_in_order_def)
    then have "r' = r" "b_assignee r' = Some (agent_id a')"
      using same_row [OF assms(1) _ held(1)] 2(2) by (auto simp: held_by_def)
    then show ?thesis using 2(3) held(2) by simp
  qed
next
  assume "r \<in> set (take (limit_of t) (held_in_order b (agent_id a)))"
  then show "b_task r \<in> set (within_limit t b)" using assms(2) by (auto simp: within_limit_def)
qed

lemma sorted_prefix:
  assumes "sorted (map f xs)" and "x \<in> set (take n xs)" and "y \<in> set xs" and "y \<notin> set (take n xs)"
  shows "f x \<le> f y"
proof -
  have "y \<in> set (drop n xs)" using assms(3,4) by (metis append_take_drop_id Un_iff set_append)
  moreover have "sorted (map f (take n xs) @ map f (drop n xs))"
    using assms(1) by (metis append_take_drop_id map_append)
  ultimately show ?thesis using assms(2) by (auto simp: sorted_append)
qed

text \<open>
  C14: The limit binds: however many tasks an active agent holds, at most the team's limit of them (and
  at least one) may be worked on, the rest wait, and none that waits was counted before one that may
  be worked on.
\<close>

theorem limit_binds_in_order:
  assumes "distinct (map b_task b)" and "a \<in> set (active_members t)"
  defines "mine \<equiv> filter (\<lambda>r. b_task r \<in> set (within_limit t b)) (held_by b (agent_id a))"
  shows "length mine = min (length (held_by b (agent_id a))) (limit_of t)
    \<and> 1 \<le> limit_of t
    \<and> (\<forall>r \<in> set mine. \<forall>r' \<in> set (held_by b (agent_id a)) - set mine. rank_of r \<le> rank_of r')"
proof -
  let ?held = "held_by b (agent_id a)" and ?order = "held_in_order b (agent_id a)"
  have mine: "set mine = set (take (limit_of t) ?order)"
    using within_limit_of_agent [OF assms(1,2)] in_set_takeD [of _ "limit_of t" ?order]
    by (fastforce simp: mine_def held_in_order_def)
  have "distinct (map b_task ?held)"
    using assms(1) by (simp add: held_by_def distinct_map_filter)
  then have distinct: "distinct ?held" by (simp add: distinct_map)
  then have "length mine = card (set (take (limit_of t) ?order))"
    using mine by (metis distinct_card distinct_filter mine_def)
  also have "\<dots> = min (length ?held) (limit_of t)"
    using distinct by (simp add: distinct_card held_in_order_def)
  finally have "length mine = min (length ?held) (limit_of t)" .
  moreover have "rank_of r \<le> rank_of r'" if "r \<in> set mine" "r' \<in> set ?held - set mine" for r r'
    using that sorted_prefix [of rank_of ?order r "limit_of t" r'] unfolding mine
    by (simp add: held_in_order_def)
  ultimately show ?thesis by (simp add: limit_of_def Let_def)
qed

section \<open>Two teams at work\<close>

definition staffed_team :: team where
  "staffed_team = sample_team\<lparr>agents :=
     [sample_agent ''agent-1'' SoftwareDeveloper Active, sample_agent ''agent-2'' Architect Active,
      sample_agent ''agent-3'' ProductManager Active, sample_agent ''agent-5'' SoftwareDeveloper Active]\<rparr>"

definition assigning_request :: transition_request where
  "assigning_request = \<lparr>asked_task = ''CTV-7'', asked_to = Assigned, asked_actor = ProductManagerActor,
     asked_agent = Some ''agent-3''\<rparr>"

definition assigning_ask :: transition_ask where
  "assigning_ask = no_ask\<lparr>ask_assignee := Some ''agent-1'', ask_reviewer := Some ''agent-2''\<rparr>"

lemma assigning_decides:
  assumes "context_at sample_world (project_at Ready) now assigning_request (tidied assigning_ask) staffed_team = Inr x"
  shows "\<exists>d. decide sample_world (project_at Ready) assigning_request (tidied assigning_ask) staffed_team x = Inr d
    \<and> decided_from d = Ready"
  using assms
proof (cases rule: context_assignment_parts)
  case (1 b own held)
  have "b = [own]" "b_task own = ''CTV-7''" "b_parent own = None" and st: "b_status own = Ready" "b_assignee own = None"
    using sample_board [of Ready] 1(1,2)
    by (auto simp: known_row_def row_of_def row_standing_def assigning_request_def split: option.splits if_splits)
  note own = this
  let ?c = "as_on_the_board own (sample_task Ready)"
  let ?input = "\<lparr>requested_by = ScrumMasterAsks, has_active_scrum_master = False, assignee_id = ''agent-1'',
     assignee_agent_role = SoftwareDeveloper, reviewer_id = ''agent-2'', reviewer_agent_role = Architect,
     assignee_open_tasks = 0, wip_limit = 1, dependency_states = [], browser = BrowserReady,
     private_folder_busy = False, lane_builder = None, assignment_solo = False, past_limit_allowed = False\<rparr>"
  have held: "held = sample_task Ready"
    using 1(3) by (simp add: read_contract_def sample_agrees assigning_request_def sample_task_def)
  have team: "role_in staffed_team ''agent-1'' = SoftwareDeveloper" "role_in staffed_team ''agent-2'' = Architect"
    "has_active ScrumMaster staffed_team = False" "wip_limit_of staffed_team = 1" "is_solo staffed_team = False"
    by (simp_all add: role_in_def agent_named_def staffed_team_def sample_agent_def has_active_def
        active_members_def wip_limit_of_def sample_team_def sample_policy_def is_solo_def)
  have ask: "ask_assignee (tidied assigning_ask) = Some ''agent-1''" "ask_reviewer (tidied assigning_ask) = Some ''agent-2''"
    by (simp_all add: assigning_ask_def no_ask_def trimmed_def) code_simp+
  have "assignment_of sample_world (tidied assigning_ask) staffed_team b own (dependency_states_on ?c b) = Some ?input"
    using own st ask team
    by (simp add: assignment_of_def Let_def open_tasks_def u32_of_def dependency_states_on_def
        as_on_the_board_def sample_task_def sample_contract_def)
  moreover have "fill_assignment sample_world (files_of (project_at Ready)) b own ?c staffed_team pilot ?input = Inr ?input" for pilot
    using own by (simp add: fill_assignment_def private_folder_busy_on_def lane_builder_of_def is_idle_def
        sample_world_def private_folder_def)
  ultimately have "ctx_assignment x = Some ?input" using 1(5) held by simp
  note input = this
  have trims: "trim ''agent-1'' = ''agent-1''" "trim ''agent-2'' = ''agent-2''" "trim ''agent-3'' = ''agent-3''"
    by code_simp+
  have passes: "check_assignment ?c (?input\<lparr>requested_by := ProductManagerAsks\<rparr>) = Inr ()"
    by (simp add: check_assignment_def Let_def expected_assignee_def expected_reviewer_def requester_reasons_def
        reviewer_reasons_def over_the_limit_def without_the_folder_def lane_taken_def without_a_browser_def
        unready_dependencies_def may_build_def may_review_def as_on_the_board_def sample_task_def
        sample_contract_def trims private_folder_def)
  let ?r = "row (Is Ready) (Is Assigned) ProductManagerActor AssignmentGate"
  have rq: "asked_actor assigning_request = ProductManagerActor" "asked_to assigning_request = Assigned"
    "asked_task assigning_request = ''CTV-7''" "asked_agent assigning_request = Some ''agent-3''"
    by (simp_all add: assigning_request_def)
  have x: "status (ctx_contract x) = Ready" "task_id (ctx_contract x) = ''CTV-7''"
    using 1(4) held st by (simp_all add: as_on_the_board_def sample_task_def)
  have "?r \<in> set (rows_of assigning_request x)"
    using x rq by (simp add: find_transitions_iff leaves_def TRANSITION_TABLE_def)
  moreover have "check_row (engine sample_world) assigning_request x ?r = Inr ()"
    using input passes 1(4) held rq by (simp add: check_row_to gate_opens)
  ultimately have "is_ok (evaluate_transition (engine sample_world) assigning_request x)"
    using x rq may_ask_unnamed [of assigning_request x] unfolding passes_iff by auto
  then obtain d where d: "evaluate_transition (engine sample_world) assigning_request x = Inr d"
    unfolding is_ok_iff by blast
  have "refused_before_the_governor assigning_request (tidied assigning_ask) staffed_team (ctx_contract x) given = None" for given
    using rq ask x trims
    by (simp add: refused_before_the_governor_def holds_role_def door_failure_def staffed_team_def
        sample_agent_def active_members_def agent_named_def trimmed_def Let_def)
  moreover have "decided_from d = Ready"
    using x(1) evaluate_transition_InrE [OF d] by (metis decision_simps(1))
  ultimately show ?thesis using d by (simp add: decide_def)
qed

theorem assignment_names_active_agents_witness:
  "\<exists>d q c. request sample_world assigning_request assigning_ask staffed_team (project_at Ready) = (Inr (MovedTo d), q)
     \<and> files_of q ''CTV-7'' = Some c \<and> (\<exists>who a. assignee c = Some who \<and> agent_named staffed_team who = Some a
         \<and> agent_status a = Active)"
proof -
  have rq: "asked_task assigning_request = ''CTV-7''" "asked_to assigning_request = Assigned"
    by (simp_all add: assigning_request_def)
  obtain d q where q: "request sample_world assigning_request assigning_ask staffed_team (project_at Ready)
      = (Inr (MovedTo d), q)" "decided_from d = Ready"
    using sample_answered [OF rq(1), of Ready assigning_ask staffed_team] assigning_decides rq(2) by fastforce
  show ?thesis
    using assignment_names_active_agents [OF sample_current q rq(2)] q(1) unfolding rq(1) by blast
qed

text \<open>A board on which \<open>agent-1\<close> holds two tasks, one more than the limit.\<close>

definition held_row :: "string \<Rightarrow> nat \<Rightarrow> board_row" where
  "held_row i n = \<lparr>b_task = i, b_kind = Task, b_parent = None, b_title = [], b_status = InProgress,
     b_risk = Low, b_triaged = True, b_locked = False, b_updated_seq = n, b_cost_usd = Finite 0,
     b_assignee = Some ''agent-1'', b_reviewer = Some ''agent-2'', b_iteration = 0,
     b_awaiting_integration = False, b_waiting_on_human = False, b_awaiting_approval = False,
     b_verifications = 0, b_rejections = 0, b_interventions = 0, b_sprint = None,
     b_left_for_the_backlog = False, b_skips_sprints = False, b_counted_seq = Some n\<rparr>"

theorem limit_binds_in_order_witness:
  "length (filter (\<lambda>r. b_task r \<in> set (within_limit sample_team [held_row ''CTV-7'' 4, held_row ''CTV-8'' 2]))
     (held_by [held_row ''CTV-7'' 4, held_row ''CTV-8'' 2] ''agent-1'')) = 1"
proof -
  let ?b = "[held_row ''CTV-7'' 4, held_row ''CTV-8'' 2]" and ?a = "sample_agent ''agent-1'' SoftwareDeveloper Active"
  have "distinct (map b_task ?b)" "?a \<in> set (active_members sample_team)"
    by (simp_all add: held_row_def sample_team_def active_members_def sample_agent_def)
  from limit_binds_in_order [OF this]
  show ?thesis
    by (simp add: held_by_def held_row_def row_counts_towards_wip_def counted_status_def sample_agent_def
        limit_of_def sample_team_def sample_policy_def)
qed

text \<open>The same board as a project: \<open>agent-1\<close> holds both tasks, and the second is past its limit.\<close>

definition about_event :: "nat \<Rightarrow> string \<Rightarrow> event_body \<Rightarrow> event" where
  "about_event n i b = (sample_event n b)\<lparr>ids := \<lparr>about_task = Some i, by_agent = None, in_session = None\<rparr>\<rparr>"

definition pair_log :: log where
  "pair_log = [about_event 1 ''CTV-7'' (TaskCreated (summary_at Assigned) False None None),
     about_event 2 ''CTV-7'' (TaskReassigned [] ''agent-1''),
     about_event 3 ''CTV-8'' (TaskCreated (summary_at Assigned) False None None),
     about_event 4 ''CTV-8'' (TaskReassigned [] ''agent-1'')]"

definition pair_row :: "string \<Rightarrow> nat \<Rightarrow> task_row" where
  "pair_row i n = (new_row i (summary_at Assigned) n)\<lparr>row_assignee := Some ''agent-1'', counted_seq := Some n\<rparr>"

definition pair_project :: project where
  "pair_project = \<lparr>log_of = pair_log,
     tables_of = empty_tables\<lparr>task_rows := [pair_row ''CTV-7'' 2, pair_row ''CTV-8'' 4], cursor := 4\<rparr>,
     files_of = [''CTV-7'' \<mapsto> sample_task Assigned, ''CTV-8'' \<mapsto> (sample_task Assigned)\<lparr>task_id := ''CTV-8''\<rparr>],
     ticks = 0\<rparr>"

lemma pair_current: "current pair_project"
proof -
  have numbered: "well_numbered pair_log"
    by (simp add: pair_log_def about_event_def sample_event_def well_numbered_def SEQ_MAX_def upt_rec)
  have "replay pair_log = Inr (tables_of pair_project)"
    by (simp add: pair_log_def about_event_def sample_event_def replay_def run_defs pair_project_def
        pair_row_def summary_at_def)
  then show ?thesis
    using numbered is_replay_iff_whole by (auto simp: current_def pair_project_def)
qed

lemma pair_reassigned:
  "\<exists>e q. reassign sample_world ''CTV-8'' ''agent-5'' staffed_team pair_project = (Inr (Reassigned e), q)"
proof -
  let ?own = "(held_row ''CTV-8'' 4)\<lparr>b_status := Assigned, b_title := ''Fix the parser'', b_triaged := False, b_reviewer := None\<rparr>"
  let ?other = "(held_row ''CTV-7'' 2)\<lparr>b_status := Assigned, b_title := ''Fix the parser'', b_triaged := False, b_reviewer := None\<rparr>"
  let ?c = "(sample_task Assigned)\<lparr>task_id := ''CTV-8''\<rparr>"
  have board: "board_of sample_world pair_project = Inr [?other, ?own]"
    by (simp add: board_of_def board_def stored_def map_err_def pair_project_def projection_of_row_def
        u32_try_def new_row_def sample_summary_def summary_at_def pair_row_def held_row_def cost_on_def
        empty_tables_def sample_world_def by_number_def number_in_def waits_def
        is_digit_ascii_def code_point_def)
  have row: "known_row [?other, ?own] ''CTV-8'' = Inr ?own"
    by (simp add: known_row_def row_of_def held_row_def)
  have held: "read_contract (files_of pair_project) ''CTV-8'' = Inr ?c"
    by (simp add: read_contract_def pair_project_def)
  have checked: "check_reassignment ?c (reassignment_of staffed_team [?other, ?own] ?own ?c ''agent-5'') = Inr ()"
  proof -
    have trims: "trim ''agent-1'' = ''agent-1''" "trim ''agent-5'' = ''agent-5''" by code_simp+
    have "''CTV-8'' \<notin> set (within_limit staffed_team [?other, ?own])"
      by (simp add: within_limit_def ungoverned_def held_in_order_def held_by_def rank_of_def limit_of_def
          held_row_def staffed_team_def sample_agent_def active_members_def sample_team_def sample_policy_def
          row_counts_towards_wip_def counted_status_def)
    moreover have "open_tasks [?other, ?own] ''agent-5'' None = 0" "wip_limit_of staffed_team = 1"
      by (simp_all add: open_tasks_def held_row_def u32_of_def wip_limit_of_def staffed_team_def
          sample_team_def sample_policy_def)
    moreover have "agent_named staffed_team ''agent-5'' = Some (sample_agent ''agent-5'' SoftwareDeveloper Active)"
      by (simp add: agent_named_def staffed_team_def sample_agent_def)
    ultimately show ?thesis
      by (simp add: check_reassignment_def reassignment_of_def Let_def reason_if_def trims held_row_def
          sample_agent_def sample_task_def sample_contract_def row_counts_towards_wip_def counted_status_def)
  qed
  let ?ids = "\<lparr>about_task = Some ''CTV-8'', by_agent = None, in_session = None\<rparr>"
  let ?stop = "append_refused sample_world (Suc 0)"
  let ?ev = "TaskReassigned (re_from (reassignment_of staffed_team [?other, ?own] ?own ?c ''agent-5'')) ''agent-5''"
  have "well_numbered (log_of pair_project)" "length (log_of pair_project) < SEQ_MAX"
    using pair_current by (simp_all add: current_def) (simp add: pair_project_def pair_log_def SEQ_MAX_def)
  from append_refused_or_next [OF this(1), of "?stop ?ids ?ev" "clock_at sample_world 0" ?ids ?ev] append_room [OF this]
  obtain e where e: "append (?stop ?ids ?ev) (log_of pair_project) (clock_at sample_world 0) ?ids ?ev = Inr e"
    "well_numbered (log_of pair_project @ [e])" by fastforce
  obtain tb where "apply_event (log_of pair_project @ [e]) e (tables_of pair_project) = Inr tb"
    using apply_event_shows_all [OF pair_current e(2)] by blast
  moreover have "ticks pair_project = 0" by (simp add: pair_project_def)
  ultimately have "\<exists>q. reassign sample_world ''CTV-8'' ''agent-5'' staffed_team pair_project = (Inr (Reassigned e), q)"
    using board row held checked e(1)
    by (simp add: reassign_def door_then_reading door_then_file door_then_log door_then_project Let_def)
  then show ?thesis by blast
qed

theorem hand_over_changes_only_the_holder_witness:
  "\<exists>e q s. reassign sample_world ''CTV-8'' ''agent-5'' staffed_team pair_project = (Inr (Reassigned e), q)
     \<and> standing_at (tables_of q) ''CTV-8'' = Some (s\<lparr>holder := Some ''agent-5''\<rparr>)
     \<and> standing_at (tables_of q) ''CTV-7'' = standing_at (tables_of pair_project) ''CTV-7''"
proof -
  obtain e q where run: "reassign sample_world ''CTV-8'' ''agent-5'' staffed_team pair_project = (Inr (Reassigned e), q)"
    using pair_reassigned by blast
  from hand_over_changes_only_the_holder [OF pair_current run]
  obtain s where "standing_at (tables_of q) = (standing_at (tables_of pair_project))(''CTV-8'' \<mapsto> s\<lparr>holder := Some ''agent-5''\<rparr>)"
    by auto
  then show ?thesis using run by auto
qed

end
