(* ===== verification/Slugs.thy ===== *)
theory Slugs
  imports Numbers Folders
begin

text \<open>
  The two slugs of the program, a branch's (crates/core/src/branch.rs) and an attached document's
  (crates/core/src/folders.rs), and the names made from them that no entry holds yet. Both slugs are
  made of lower-case letters, digits and single dashes; that shape, \<open>is_slug\<close>, is what the schema
  lets a contract record as a branch and what \<open>is_attached_path\<close> asks of a document.
\<close>

section \<open>The shape of a slug\<close>

definition slug_char :: "char \<Rightarrow> bool" where
  "slug_char c \<longleftrightarrow> is_lower_ascii c \<or> is_digit_ascii c"

definition dashed :: "string \<Rightarrow> bool" where
  "dashed s \<longleftrightarrow> (\<forall>c \<in> set s. slug_char c \<or> c = CHR ''-'')
     \<and> successively (\<lambda>a b. a \<noteq> CHR ''-'' \<or> b \<noteq> CHR ''-'') s"

definition undashed :: "string \<Rightarrow> bool" where
  "undashed s \<longleftrightarrow> s \<noteq> [] \<and> hd s \<noteq> CHR ''-'' \<and> last s \<noteq> CHR ''-''"

lemma slug_char_not_dash [simp]: "\<not> slug_char (CHR ''-'')"
  by (simp add: slug_char_def is_lower_ascii_def is_digit_ascii_def code_point_def)

lemma slug_char_not_slash [simp]: "\<not> slug_char (CHR ''/'')" "\<not> slug_char (CHR ''.'')"
  by (simp_all add: slug_char_def is_lower_ascii_def is_digit_ascii_def code_point_def)

lemma dashed_Nil [simp]: "dashed []"
  by (simp add: dashed_def)

lemma dashed_infix: "dashed (xs @ ys @ zs) \<Longrightarrow> dashed ys"
  by (auto simp: dashed_def successively_append_iff)

lemma dashed_take: "dashed s \<Longrightarrow> dashed (take n s)"
  using dashed_infix [of "[]" "take n s" "drop n s"] by simp

lemma hd_take_same: "take n xs \<noteq> [] \<Longrightarrow> hd (take n xs) = hd xs"
  by (cases n; cases xs) auto

lemma dashed_snoc:
  "dashed (s @ [c]) \<longleftrightarrow> dashed s \<and> (slug_char c \<or> c = CHR ''-'' \<and> (s = [] \<or> last s \<noteq> CHR ''-''))"
  by (auto simp: dashed_def successively_append_iff)

lemma trim_end_take: "trim_end p s = take (length s - length (takeWhile p (rev s))) s"
  by (simp add: trim_end_def dropWhile_eq_drop rev_drop)

lemma dashed_trim_end: "dashed s \<Longrightarrow> dashed (trim_end p s)"
  by (simp add: trim_end_take dashed_take)

lemma dashed_trim: "dashed s \<Longrightarrow> dashed (trim_matches p s)"
  using dashed_infix [of "takeWhile p s" "dropWhile p s" "[]"]
  by (simp add: trim_matches_def trim_start_def dashed_trim_end)

lemma undashed_trim:
  "trim_matches (\<lambda>c. c = CHR ''-'') s \<noteq> [] \<Longrightarrow> undashed (trim_matches (\<lambda>c. c = CHR ''-'') s)"
  using trim_matches_hd [of "\<lambda>c. c = CHR ''-''" s] trim_matches_last [of "\<lambda>c. c = CHR ''-''" s]
  by (simp add: undashed_def)

lemma length_trim_matches: "length (trim_matches p s) \<le> length s"
proof -
  have "length (trim_end p t) \<le> length t" for t by (simp add: trim_end_take)
  from this [of "dropWhile p s"] length_dropWhile_le [of p s] show ?thesis
    by (simp add: trim_matches_def trim_start_def)
qed

lemma ends_with_dash: "ends_with s ''-'' \<longleftrightarrow> s \<noteq> [] \<and> last s = CHR ''-''"
  by (cases s rule: rev_cases) (auto simp: ends_with_def starts_with_def)

text \<open>Cutting at the dashes leaves no empty part but where a dash leads or ends.\<close>

lemma split_parts:
  assumes "s \<noteq> []" and "last s \<noteq> CHR ''-''"
    and "successively (\<lambda>a b. a \<noteq> CHR ''-'' \<or> b \<noteq> CHR ''-'') s"
  shows "list_all (\<lambda>part. part \<noteq> [])
    (if hd s = CHR ''-'' then tl (split_on (\<lambda>c. c = CHR ''-'') s) else split_on (\<lambda>c. c = CHR ''-'') s)"
  using assms
proof (induction s)
  case (Cons c s)
  show ?case
  proof (cases "s = []")
    case True
    with Cons.prems show ?thesis by simp
  next
    case False
    with Cons.prems Cons.IH have IH: "list_all (\<lambda>part. part \<noteq> [])
        (if hd s = CHR ''-'' then tl (split_on (\<lambda>c. c = CHR ''-'') s) else split_on (\<lambda>c. c = CHR ''-'') s)"
      by (auto simp: successively_Cons)
    obtain x xs where x: "split_on (\<lambda>c. c = CHR ''-'') s = x # xs"
      by (cases "split_on (\<lambda>c. c = CHR ''-'') s") auto
    have "c = CHR ''-'' \<Longrightarrow> hd s \<noteq> CHR ''-''"
      using Cons.prems(3) False by (auto simp: successively_Cons)
    with IH x show ?thesis by (auto split: if_splits)
  qed
qed simp

lemma slug_intro:
  assumes "dashed s" and "undashed s"
  shows "is_slug s"
proof -
  have "slug_char c" if "part \<in> set (split_on (\<lambda>c. c = CHR ''-'') s)" and "c \<in> set part" for part c
    using split_on_no_sep [OF that] assms(1) by (auto simp: dashed_def)
  moreover have "list_all (\<lambda>part. part \<noteq> []) (split_on (\<lambda>c. c = CHR ''-'') s)"
    using split_parts [of s] assms by (simp add: dashed_def undashed_def)
  ultimately show ?thesis
    using assms(2) by (auto simp: is_slug_def undashed_def list_all_iff slug_char_def)
qed

lemma dashed_number:
  assumes "dashed s" and "undashed s"
  shows "dashed (s @ ''-'' @ decimal n)" and "undashed (s @ ''-'' @ decimal n)"
proof -
  have d: "\<forall>c \<in> set (decimal n). slug_char c \<and> c \<noteq> CHR ''-''"
    using decimal_chars by (auto simp: slug_char_def)
  have "successively (\<lambda>a b. a \<noteq> CHR ''-'' \<or> b \<noteq> CHR ''-'') (decimal n)"
    by (rule successively_if_sorted_wrt [OF sorted_wrt_mono_rel [of _ "\<lambda>_ _. True"]])
      (use d in \<open>auto simp: sorted_wrt_iff_nth_less\<close>)
  moreover have "hd (decimal n) \<noteq> CHR ''-''" "last (decimal n) \<noteq> CHR ''-''"
    using d hd_in_set [of "decimal n"] last_in_set [of "decimal n"] by auto
  ultimately show "dashed (s @ ''-'' @ decimal n)" "undashed (s @ ''-'' @ decimal n)"
    using assms d by (auto simp: dashed_def undashed_def successively_append_iff successively_Cons)
qed

lemma strip_prefix_append [simp]: "strip_prefix p (p @ s) = Some s"
  by (simp add: strip_prefix_def)

lemma ends_with_append [simp]: "ends_with (s @ p) p"
  by (simp add: ends_with_def)

section \<open>The slug of a branch\<close>

definition SLUG_MAX :: nat where "SLUG_MAX = 40"

fun branch_loop :: "string \<Rightarrow> string \<Rightarrow> string" where
  "branch_loop slug [] = slug"
| "branch_loop slug (c # cs) =
     (let lower = to_lower_ascii c in
      if is_lower_ascii lower \<or> is_digit_ascii lower then branch_loop (slug @ [lower]) cs
      else if \<not> ends_with slug ''-'' then branch_loop (slug @ ''-'') cs
      else branch_loop slug cs)"

definition cut_slug :: "string \<Rightarrow> string" where
  "cut_slug slug =
     (if length slug > SLUG_MAX
      then (let cut = (case rsplit_once (CHR ''-'') (take (SLUG_MAX + 1) slug) of
                         None \<Rightarrow> SLUG_MAX | Some (before, _) \<Rightarrow> length before)
            in trim_matches (\<lambda>c. c = CHR ''-'') (take cut slug))
      else slug)"

definition branch_slug :: "string \<Rightarrow> string" where
  "branch_slug words =
     (let slug = cut_slug (trim_matches (\<lambda>c. c = CHR ''-'') (branch_loop [] words))
      in if slug = [] then ''change'' else slug)"

lemma dashed_branch_loop: "dashed slug \<Longrightarrow> dashed (branch_loop slug cs)"
  by (induction slug cs rule: branch_loop.induct)
    (auto simp: Let_def dashed_snoc ends_with_dash slug_char_def)

lemma dashed_change: "dashed ''change''" "undashed ''change''"
  by (simp_all add: dashed_def undashed_def slug_char_def is_lower_ascii_def code_point_def)

lemma cut_slug_shape:
  assumes "dashed s" and "s = [] \<or> undashed s"
  shows "dashed (cut_slug s)" and "cut_slug s = [] \<or> undashed (cut_slug s)"
  using assms undashed_trim by (auto simp: cut_slug_def Let_def intro: dashed_trim dashed_take)

lemma rsplit_once_Some:
  assumes "rsplit_once c s = Some (a, b)"
  shows "s = a @ c # b" and "c \<notin> set b"
proof -
  obtain x y where "break_at c (rev s) = Some (x, y)" and ab: "a = rev y" "b = rev x"
    using assms by (auto simp: rsplit_once_def split: option.splits)
  then have "rev s = x @ c # y" and x: "c \<notin> set x" using break_at_Some by blast+
  then have "rev (rev s) = rev y @ c # rev x" by (simp only: rev_append rev.simps append_assoc) simp
  then show "s = a @ c # b" "c \<notin> set b" using ab x by simp_all
qed

lemma rsplit_once_length: "rsplit_once c s = Some (a, b) \<Longrightarrow> length a < length s"
  by (drule rsplit_once_Some(1)) simp

lemma length_cut_slug: "length (cut_slug s) \<le> SLUG_MAX"
proof -
  have "length (take n s) \<le> SLUG_MAX" if "n \<le> SLUG_MAX" for n using that by simp
  moreover have "length a \<le> SLUG_MAX"
    if "rsplit_once (CHR ''-'') (take (SLUG_MAX + 1) s) = Some (a, b)" for a b
    using rsplit_once_length [OF that] by simp
  ultimately show ?thesis
    by (auto simp: cut_slug_def Let_def split: option.splits
          intro: order_trans [OF length_trim_matches])
qed

lemma branch_slug_shape:
  "dashed (branch_slug words)" "undashed (branch_slug words)" "length (branch_slug words) \<le> SLUG_MAX"
proof -
  let ?t = "trim_matches (\<lambda>c. c = CHR ''-'') (branch_loop [] words)"
  have "dashed ?t" by (simp add: dashed_trim dashed_branch_loop)
  moreover have "?t = [] \<or> undashed ?t" using undashed_trim by blast
  ultimately have "dashed (cut_slug ?t)" "cut_slug ?t = [] \<or> undashed (cut_slug ?t)"
    using cut_slug_shape by blast+
  then show "dashed (branch_slug words)" "undashed (branch_slug words)"
    by (auto simp: branch_slug_def Let_def dashed_change)
  show "length (branch_slug words) \<le> SLUG_MAX"
    using length_cut_slug [of ?t] by (auto simp: branch_slug_def Let_def SLUG_MAX_def)
qed

section \<open>The slug of an attached document\<close>

lemma dashed_attached_loop:
  "dashed slug \<Longrightarrow> slug = [] \<or> hd slug \<noteq> CHR ''-''
     \<Longrightarrow> dashed (attached_loop slug cs) \<and> (attached_loop slug cs = [] \<or> hd (attached_loop slug cs) \<noteq> CHR ''-'')"
proof (induction slug cs rule: attached_loop.induct)
  case (2 slug c cs)
  have lower: "is_alphanumeric_ascii c \<Longrightarrow> slug_char (to_lower_ascii c)"
    by (auto simp: is_alphanumeric_ascii_def to_lower_ascii_def slug_char_def is_upper_ascii_def
          is_lower_ascii_def code_point_def of_char_of)
  then have "is_alphanumeric_ascii c \<Longrightarrow> to_lower_ascii c \<noteq> CHR ''-''"
    by (metis slug_char_not_dash)
  with 2 lower show ?case by (auto simp: dashed_snoc ends_with_dash hd_append)
qed simp

lemma trim_end_last: "trim_end p s \<noteq> [] \<Longrightarrow> \<not> p (last (trim_end p s))"
  by (simp add: trim_end_def last_rev hd_dropWhile)

lemma attached_slug_shape: "dashed (attached_slug f)" "undashed (attached_slug f)"
proof -
  define stem where "stem = (case rsplit_once (CHR ''.'') f of None \<Rightarrow> f | Some (s, _) \<Rightarrow> s)"
  define t where "t = take ATTACHED_SLUG_MAX (attached_loop [] stem)"
  define slug where "slug = trim_end (\<lambda>c. c = CHR ''-'') t"
  have loop: "dashed (attached_loop [] stem)"
      "attached_loop [] stem = [] \<or> hd (attached_loop [] stem) \<noteq> CHR ''-''"
    using dashed_attached_loop [of "[]"] by auto
  then have "dashed slug" by (simp add: slug_def t_def dashed_trim_end dashed_take)
  moreover have "undashed slug" if "slug \<noteq> []"
  proof -
    have "last slug \<noteq> CHR ''-''" using that trim_end_last slug_def by blast
    moreover have "hd slug = hd (attached_loop [] stem)"
      using that by (simp add: slug_def t_def trim_end_take take_take hd_take_same)
    moreover have "attached_loop [] stem \<noteq> []"
      using that by (auto simp: slug_def t_def trim_end_take)
    ultimately show ?thesis using that loop(2) by (auto simp: undashed_def)
  qed
  moreover have "attached_slug f = (if slug = [] then ''document'' else slug)"
    by (simp add: attached_slug_def slug_def t_def stem_def Let_def)
  moreover have "dashed ''document''" "undashed ''document''"
    by (simp_all add: dashed_def undashed_def slug_char_def is_lower_ascii_def code_point_def)
  ultimately show "dashed (attached_slug f)" "undashed (attached_slug f)" by auto
qed

end
