(* ===== verification/Attached.thy ===== *)
theory Attached
  imports Slugs
begin

text \<open>
  Where an attached document is written (crates/core/src/folders.rs \<open>free_attached_path\<close>): its slug's
  own path, or the slug numbered from two, the first that no document has. The counter is a \<open>usize\<close>
  of 64 bits.
\<close>

definition numbered_attached :: "attach_kind \<Rightarrow> string \<Rightarrow> nat \<Rightarrow> string" where
  "numbered_attached k slug n = attached_path k (slug @ ''-'' @ decimal n)"

definition free_attached_path :: "attach_kind \<Rightarrow> string \<Rightarrow> (string \<Rightarrow> bool) \<Rightarrow> string option" where
  "free_attached_path k file_name taken =
     (let slug = attached_slug file_name; first = attached_path k slug in
      if \<not> taken first then Some first
      else map_option (\<lambda>n. numbered_attached k slug (unat n))
             (first_free (\<lambda>n :: u64. taken (numbered_attached k slug (unat n))) 2))"

interpretation attached_numbers: numbered_names "\<lambda>path n. path = numbered_attached k slug n" for k slug
  by unfold_locales (auto simp: numbered_attached_def attached_path_def)

lemma rsplit_once_append: "c \<notin> set b \<Longrightarrow> rsplit_once c (a @ c # b) = Some (a, b)"
  by (simp add: rsplit_once_def break_at_def takeWhile_append dropWhile_append)

lemma attached_path_is_attached:
  assumes "dashed slug" and "undashed slug"
  shows "is_attached_path (attached_path k slug)"
proof -
  have ch: "slug_char c \<or> c = CHR ''-''" if "c \<in> set slug" for c
    using assms(1) that by (auto simp: dashed_def)
  have no: "\<not> slug_char (CHR ''/'')" "\<not> slug_char backslash" "backslash \<noteq> CHR ''-''" "backslash \<notin> set ''.md''"
    by (simp_all add: slug_char_def is_lower_ascii_def is_digit_ascii_def code_point_def backslash_def)
  have chars: "CHR ''/'' \<notin> set (slug @ ''.md'')" "backslash \<notin> set (slug @ ''.md'')"
    using ch [of "CHR ''/''"] ch [of backslash] no by auto
  have "length (slug @ ''.md'') > 2" by simp
  then have "slug @ ''.md'' \<noteq> ''.''" and "slug @ ''.md'' \<noteq> ''..''" by (auto dest: arg_cong [of _ _ length])
  then have name: "clean_segment (slug @ ''.md'')"
    using chars by (auto simp: clean_segment_def)
  have folder: "clean_segment ''docs''" "clean_segment ''catervas''" "clean_segment ''product''"
    "clean_segment ''architecture''" "clean_segment ''attached''"
    by (simp_all add: clean_segment_def backslash_def)
  define segs where "segs = [''docs'', ''catervas'',
    (case k of ProductDocument \<Rightarrow> ''product'' | ArchitectureDocument \<Rightarrow> ''architecture''),
    ''attached'', slug @ ''.md'']"
  have "attached_path k slug = join ''/'' segs"
    by (cases k) (simp_all add: segs_def attached_path_def ATTACHED_DIR_def)
  moreover have "segs \<noteq> []" and "\<forall>s \<in> set segs. clean_segment s"
    using name folder by (cases k; simp add: segs_def)+
  ultimately have "clean_path (attached_path k slug)"
    unfolding clean_path_def by blast
  moreover have "attached_path k slug ! 1 = CHR ''o''"
    by (cases k) (simp_all add: attached_path_def)
  ultimately have norm: "normalise (attached_path k slug) = Some (attached_path k slug)"
    by (intro normalise_clean_path) simp_all
  have format: "format_of (slug @ ''.md'') = Some Markdown"
    by (simp add: format_of_def)
  have "rsplit_once (CHR ''.'') (slug @ ''.md'') = Some (slug, ''md'')"
    using rsplit_once_append [of "CHR ''.''" "''md''" slug] by simp
  moreover have "Option.bind (strip_prefix (attach_folder k) (attached_path k slug)) (\<lambda>rest.
      Option.bind (strip_prefix ''/'' rest) (strip_prefix ATTACHED_DIR)) = Some (slug @ ''.md'')"
    unfolding attached_path_def by (simp only: strip_prefix_append Option.bind.simps)
  moreover have "k \<in> set [ProductDocument, ArchitectureDocument]"
    by (cases k) simp_all
  ultimately show ?thesis
    unfolding is_attached_path_def norm option.case list_ex_iff
    using format slug_intro [OF assms] by (intro bexI [of _ k]) simp_all
qed

text \<open>
  An attached document always finds a path: while fewer than 2^64 - 2 paths are taken, the loop of
  \<open>free_attached_path\<close> returns, with a path that is not taken and that \<open>is_attached_path\<close> reads as an
  attached document again, whatever the file was called.
\<close>

theorem attached_document_finds_a_path:
  assumes "length held + 2 < 2 ^ 64"
  shows "\<exists>path. free_attached_path k file_name (\<lambda>p. p \<in> set held) = Some path
    \<and> path \<notin> set held \<and> is_attached_path path"
proof (cases "attached_path k (attached_slug file_name) \<in> set held")
  case False
  then show ?thesis
    by (simp add: free_attached_path_def Let_def attached_path_is_attached attached_slug_shape)
next
  case True
  let ?slug = "attached_slug file_name"
  from attached_numbers.first_free_returns [of held "2 :: u64" k ?slug] assms
  obtain m where m: "first_free (\<lambda>x :: u64. \<exists>e \<in> set held. e = numbered_attached k ?slug (unat x)) 2 = Some m"
      "\<forall>e \<in> set held. e \<noteq> numbered_attached k ?slug (unat m)"
    by auto
  moreover have "is_attached_path (numbered_attached k ?slug (unat m))"
    unfolding numbered_attached_def
    by (intro attached_path_is_attached dashed_number attached_slug_shape)
  ultimately show ?thesis
    using True by (auto simp: free_attached_path_def Let_def Bex_def)
qed

theorem attached_document_finds_a_path_witness:
  "free_attached_path ProductDocument ''My Notes.txt''
     (\<lambda>p. p \<in> set [''docs/catervas/product/attached/my-notes.md''])
   = Some ''docs/catervas/product/attached/my-notes-2.md''
   \<and> is_attached_path ''docs/catervas/product/attached/my-notes-2.md''"
proof -
  have d: "decimal 2 = ''2''" by (simp add: decimal.simps char_of_def bit_Suc_0_iff)
  have slug: "attached_slug ''My Notes.txt'' = ''my-notes''" by code_simp
  have "free_attached_path ProductDocument ''My Notes.txt''
      (\<lambda>p. p \<in> set [''docs/catervas/product/attached/my-notes.md''])
    = Some ''docs/catervas/product/attached/my-notes-2.md''"
    by (simp add: free_attached_path_def Let_def slug first_free.simps numbered_attached_def
        attached_path_def ATTACHED_DIR_def d)
  with attached_document_finds_a_path
    [of "[''docs/catervas/product/attached/my-notes.md'']" ProductDocument "''My Notes.txt''"]
  show ?thesis by auto
qed

end
