(* ===== verification/Branches.thy ===== *)
theory Branches
  imports Door Slugs
begin

text \<open>
  The branch a task works on (crates/core/src/branch.rs): its type, the slug of its title, the first
  name no branch and no other task has, and the rule of before; the names taken
  (crates/store/src/branches.rs), the start's own \<open>chosen_branch\<close>
  (crates/runtime/src/orchestrator/rules.rs), and the number a new task gets
  (crates/store/src/event_log.rs \<open>next_task_id_above\<close>, crates/store/src/requests.rs). What git lists and the folder
  changes of the log are arguments.
\<close>

section \<open>The type of a change and its branch\<close>

datatype change_type = FeatChange | FixChange | DocsChange

fun change_prefix :: "change_type \<Rightarrow> string" where
  "change_prefix FeatChange = ''feat''"
| "change_prefix FixChange = ''fix''"
| "change_prefix DocsChange = ''docs''"

definition change_type_of :: "task_contract \<Rightarrow> change_type" where
  "change_type_of contract =
     (let only_docs = allowed_paths contract \<noteq> []
                      \<and> list_all (\<lambda>path. starts_with path ''docs/'') (allowed_paths contract) in
      if \<not> changes_code (assignee_role contract) \<or> only_docs then DocsChange
      else case contract_change contract of Some Fix \<Rightarrow> FixChange | _ \<Rightarrow> FeatChange)"

text \<open>An entry holds a name when it is the name, or a branch under it.\<close>

definition branch_held :: "string list \<Rightarrow> string \<Rightarrow> bool" where
  "branch_held taken name = list_ex (\<lambda>entry. entry = name \<or> starts_with entry (name @ ''/'')) taken"

definition numbered_branch :: "string \<Rightarrow> nat \<Rightarrow> string" where
  "numbered_branch first n = first @ ''-'' @ decimal n"

definition free_branch :: "change_type \<Rightarrow> string \<Rightarrow> string list \<Rightarrow> string option" where
  "free_branch k slug taken =
     (let first = change_prefix k @ ''/'' @ slug in
      if \<not> branch_held taken first then Some first
      else map_option (\<lambda>n. numbered_branch first (unat n))
             (first_free (\<lambda>n :: u32. branch_held taken (numbered_branch first (unat n))) 2))"

definition old_task_branch :: "task_contract \<Rightarrow> string" where
  "old_task_branch contract =
     (if \<not> changes_code (assignee_role contract) then ''docs/'' @ task_id contract
      else case contract_change contract of
             Some Fix \<Rightarrow> ''fix/'' @ task_id contract
           | _ \<Rightarrow> ''feature/'' @ task_id contract)"

definition task_branch :: "task_contract \<Rightarrow> string" where
  "task_branch contract =
     (case branch contract of None \<Rightarrow> old_task_branch contract | Some b \<Rightarrow> b)"

text \<open>\<open>TaskId\<close>, by the schema's pattern, and the number in it.\<close>

definition is_task_id :: "string \<Rightarrow> bool" where
  "is_task_id s = (case strip_prefix ''CTV-'' s of None \<Rightarrow> False
     | Some ds \<Rightarrow> ds \<noteq> [] \<and> length ds \<le> 6 \<and> list_all is_digit_ascii ds)"

definition task_number_of_branch :: "string \<Rightarrow> nat option" where
  "task_number_of_branch name =
     (let number = (\<lambda>kind i.
            if kind \<notin> {''feature'', ''fix'', ''docs''} \<or> \<not> is_task_id i then None
            else Option.bind (strip_prefix ''CTV-'' i) parse_u64) in
      case slash_split name of
        [_, kind, i] \<Rightarrow> number kind i
      | [kind, i] \<Rightarrow> number kind i
      | _ \<Rightarrow> None)"

text \<open>What the schema lets a contract record as its branch.\<close>

definition valid_branch :: "string \<Rightarrow> bool" where
  "valid_branch name \<longleftrightarrow> length name \<le> 64
     \<and> (case slash_split name of
          [kind, slug] \<Rightarrow> kind \<in> {''feat'', ''fix'', ''docs''} \<and> is_slug slug
        | _ \<Rightarrow> False)"

section \<open>The names taken and the one chosen\<close>

fun recorded_branch :: "(door_error, task_contract) result \<Rightarrow> string option" where
  "recorded_branch (Inr contract) = branch contract"
| "recorded_branch (Inl _) = None"

definition taken_branches ::
  "string list \<Rightarrow> string list \<Rightarrow> contract_files \<Rightarrow> string list \<Rightarrow> string option \<Rightarrow> string list" where
  "taken_branches in_git contract_ids files folder_changes_taken except =
     in_git
     @ filter_map (\<lambda>i. recorded_branch (read_contract files i))
         (filter (\<lambda>i. Some i \<noteq> except) contract_ids)
     @ folder_changes_taken"

text \<open>The loop of \<open>free_branch\<close> has no end of its own: \<open>None\<close> is not returning.\<close>

definition chosen_branch ::
  "world \<Rightarrow> task_contract \<Rightarrow> string list \<Rightarrow> project \<Rightarrow> ((door_error, string) result \<times> project) option" where
  "chosen_branch w contract taken p =
     (case branch contract of
        Some recorded \<Rightarrow> Some (Inr recorded, p)
      | None \<Rightarrow>
          map_option (\<lambda>name. record_branch w valid_branch (task_id contract) name p)
            (free_branch (change_type_of contract) (branch_slug (title contract)) taken))"

section \<open>Task ids\<close>

definition TASK_ID_PREFIX :: string where "TASK_ID_PREFIX = ''CTV''"

text \<open>The row of \<open>task_counters\<close>: no row is zero. The statement answers an \<open>i64\<close>, and one that no
  longer fits is rolled back.\<close>

datatype id_refusal = TaskIdsExhausted nat | CounterOverflow

definition next_task_id_above :: "nat \<Rightarrow> nat \<Rightarrow> (id_refusal, string) result \<times> nat" where
  "next_task_id_above taken counter =
     (if taken \<ge> 2 ^ 63 then (Inl (TaskIdsExhausted taken), counter)
      else let number = max counter taken + 1 in
      if number \<ge> 2 ^ 63 then (Inl CounterOverflow, counter)
      else let i = TASK_ID_PREFIX @ ''-'' @ decimal number in
      (if is_task_id i then Inr i else Inl (TaskIdsExhausted number), number))"

definition contract_number :: "string \<Rightarrow> nat option" where
  "contract_number i = Option.bind (strip_prefix ''CTV-'' i) parse_u64"

text \<open>\<open>list_contracts\<close>: the files whose stem is a task id, by its number and then by its text.\<close>

definition list_contracts :: "string list \<Rightarrow> string list" where
  "list_contracts stems =
     sort_key (\<lambda>i. case contract_number i of None \<Rightarrow> 0 | Some n \<Rightarrow> n + 1) (sort (filter is_task_id stems))"

definition number_taken :: "string list \<Rightarrow> string list \<Rightarrow> nat" where
  "number_taken stems branches =
     max (let ids = list_contracts stems in
          if ids = [] then 0 else case contract_number (last ids) of None \<Rightarrow> 0 | Some n \<Rightarrow> n)
         (foldl max 0 (filter_map task_number_of_branch branches))"

section \<open>A free branch is found\<close>

lemma after_slash:
  "\<forall>c \<in> set d. c \<noteq> CHR ''/'' \<Longrightarrow> takeWhile (\<lambda>c. c \<noteq> CHR ''/'') (d @ ''/'' @ t) = d"
  "\<forall>c \<in> set d. c \<noteq> CHR ''/'' \<Longrightarrow> takeWhile (\<lambda>c. c \<noteq> CHR ''/'') d = d"
  by (induction d) auto

definition holds_number :: "string \<Rightarrow> string \<Rightarrow> nat \<Rightarrow> bool" where
  "holds_number first entry n \<longleftrightarrow>
     entry = numbered_branch first n \<or> starts_with entry (numbered_branch first n @ ''/'')"

lemma holds_number_reads:
  assumes "holds_number first entry n"
  shows "takeWhile (\<lambda>c. c \<noteq> CHR ''/'') (drop (length first + 1) entry) = decimal n"
  using assms decimal_chars after_slash [of "decimal n"]
  by (auto simp: holds_number_def numbered_branch_def starts_with_iff)

interpretation branch_numbers: numbered_names "holds_number first" for first
proof unfold_locales
  fix e a b
  assume "holds_number first e a" and "holds_number first e b"
  then show "a = b" using holds_number_reads decimal_inject by metis
qed

lemma branch_held_numbered:
  "branch_held taken (numbered_branch first n) \<longleftrightarrow> (\<exists>e \<in> set taken. holds_number first e n)"
  by (auto simp: branch_held_def holds_number_def list_ex_iff)

lemma free_branch_returns:
  assumes "length taken + 2 < 2 ^ 32"
  obtains "free_branch k slug taken = Some (change_prefix k @ ''/'' @ slug)"
      "\<not> branch_held taken (change_prefix k @ ''/'' @ slug)"
    | n where "free_branch k slug taken = Some (numbered_branch (change_prefix k @ ''/'' @ slug) n)"
      "\<not> branch_held taken (numbered_branch (change_prefix k @ ''/'' @ slug) n)" "2 \<le> n" "n < 2 ^ 32"
proof (cases "branch_held taken (change_prefix k @ ''/'' @ slug)")
  case False
  then show ?thesis using that(1) by (simp add: free_branch_def)
next
  case True
  let ?first = "change_prefix k @ ''/'' @ slug"
  from branch_numbers.first_free_returns [of taken "2 :: u32" ?first] assms
  obtain m where m: "first_free (\<lambda>x :: u32. \<exists>e \<in> set taken. holds_number ?first e (unat x)) 2 = Some m"
      "\<forall>e \<in> set taken. \<not> holds_number ?first e (unat m)" "2 \<le> m"
    by auto
  show ?thesis
  proof (rule that(2) [of "unat m"])
    show "free_branch k slug taken = Some (numbered_branch ?first (unat m))"
      using True m(1) by (simp add: free_branch_def Let_def branch_held_numbered)
    show "\<not> branch_held taken (numbered_branch ?first (unat m))"
      using m(2) by (simp add: branch_held_numbered)
    show "2 \<le> unat m" using m(3) by (simp add: word_le_nat_alt)
    show "unat m < 2 ^ 32" using unsigned_less [of m] by simp
  qed
qed

lemma dashed_no_slash: "dashed s \<Longrightarrow> \<forall>c \<in> set s. c \<noteq> CHR ''/''"
  by (auto simp: dashed_def)

lemma prefix_no_slash: "\<forall>c \<in> set (change_prefix k). c \<noteq> CHR ''/''"
  by (cases k) auto

lemma slash_split_branch:
  "dashed slug \<Longrightarrow> slash_split (change_prefix k @ ''/'' @ slug) = [change_prefix k, slug]"
  unfolding slash_split_def
  using split_on_append_sep [of "change_prefix k" "\<lambda>c. c = CHR ''/''" "CHR ''/''" slug]
    split_on_single [of slug "\<lambda>c. c = CHR ''/''"] prefix_no_slash dashed_no_slash by auto

lemma valid_branch_intro:
  assumes "dashed slug" and "undashed slug" and "length slug \<le> 59"
  shows "valid_branch (change_prefix k @ ''/'' @ slug)"
proof -
  have "length (change_prefix k) \<le> 4" and "change_prefix k \<in> {''feat'', ''fix'', ''docs''}"
    by (cases k; simp)+
  then show ?thesis
    using assms slug_intro [OF assms(1,2)] unfolding valid_branch_def slash_split_branch [OF assms(1)]
    by auto
qed

lemma task_finds_a_free_name:
  assumes "length taken + 2 < 2 ^ 32"
  shows "\<exists>name. free_branch k (branch_slug words) taken = Some name
    \<and> \<not> branch_held taken name \<and> valid_branch name"
proof (rule free_branch_returns [OF assms, of k "branch_slug words"])
  assume "free_branch k (branch_slug words) taken = Some (change_prefix k @ ''/'' @ branch_slug words)"
    and "\<not> branch_held taken (change_prefix k @ ''/'' @ branch_slug words)"
  moreover have "valid_branch (change_prefix k @ ''/'' @ branch_slug words)"
    using branch_slug_shape [of words] by (intro valid_branch_intro) (auto simp: SLUG_MAX_def)
  ultimately show ?thesis by blast
next
  fix n
  assume n: "free_branch k (branch_slug words) taken
      = Some (numbered_branch (change_prefix k @ ''/'' @ branch_slug words) n)"
    "\<not> branch_held taken (numbered_branch (change_prefix k @ ''/'' @ branch_slug words) n)"
    "2 \<le> n" "n < 2 ^ 32"
  have "length (decimal n) \<le> 10" using n(3,4) by (intro decimal_length) simp_all
  then have "valid_branch (change_prefix k @ ''/'' @ branch_slug words @ ''-'' @ decimal n)"
    using branch_slug_shape [of words] dashed_number [of "branch_slug words" n]
    by (intro valid_branch_intro) (auto simp: SLUG_MAX_def)
  then show ?thesis using n by (auto simp: numbered_branch_def)
qed

text \<open>
  C37: A branch is always found for a task: while fewer than 2^32 - 2 names are taken, the loop of
  \<open>free_branch\<close> returns, its 32-bit counter never wrapping, with a name that no entry holds and that
  the schema lets the contract record, whatever the title is.
\<close>

theorem task_finds_a_branch:
  "length taken + 2 < 2 ^ 32 \<Longrightarrow> \<exists>name. free_branch k (branch_slug words) taken = Some name
    \<and> \<not> branch_held taken name \<and> valid_branch name"
  by (rule task_finds_a_free_name)

theorem task_finds_a_branch_witness:
  "free_branch FixChange (branch_slug ''The PARSER!'') [''main'', ''fix/the-parser'', ''fix/the-parser-2/x'']
     = Some ''fix/the-parser-3''
   \<and> valid_branch ''fix/the-parser-3''"
proof -
  have d: "decimal 2 = ''2''" "decimal 3 = ''3''" by (simp_all add: decimal.simps char_of_def bit_Suc_0_iff)
  have slug: "branch_slug ''The PARSER!'' = ''the-parser''" by code_simp
  have "free_branch FixChange (branch_slug ''The PARSER!'')
      [''main'', ''fix/the-parser'', ''fix/the-parser-2/x''] = Some ''fix/the-parser-3''"
    by (simp add: free_branch_def Let_def slug first_free.simps numbered_branch_def branch_held_def
        starts_with_def d)
  with task_finds_a_branch [of "[''main'', ''fix/the-parser'', ''fix/the-parser-2/x'']"
      FixChange "''The PARSER!''"]
  show ?thesis by auto
qed

section \<open>The branch of a start\<close>

text \<open>
  C35: A start that was undone makes the same branch again: the branch chosen for a task whose file
  records none is a free and valid one, the file records it with nothing else changed and no event
  is written, and whatever is taken by then, the next choice for the task is that branch again. When
  the file cannot be written, the choice fails and nothing is changed.
\<close>

theorem chosen_branch_is_kept:
  assumes "read_contract (files_of p) (task_id contract) = Inr contract"
    and "length taken + 2 < 2 ^ 32" and "branch contract = None"
  shows "\<exists>name. valid_branch name \<and> \<not> branch_held taken name
    \<and> (case write_refused w (ticks p) (contract\<lparr>branch := Some name\<rparr>) of
         Some e \<Rightarrow> chosen_branch w contract taken p = Some (Inl (FilesRefused e), p)
       | None \<Rightarrow> (\<exists>q. chosen_branch w contract taken p = Some (Inr name, q)
           \<and> q = p\<lparr>files_of := files_of q\<rparr>
           \<and> (\<forall>i. i \<noteq> task_id contract \<longrightarrow> read_contract (files_of q) i = read_contract (files_of p) i)
           \<and> read_contract (files_of q) (task_id contract) = Inr (contract\<lparr>branch := Some name\<rparr>)
           \<and> (\<forall>w' later. chosen_branch w' (contract\<lparr>branch := Some name\<rparr>) later q = Some (Inr name, q))
           \<and> task_branch (contract\<lparr>branch := Some name\<rparr>) = name))"
proof -
  from task_finds_a_free_name [OF assms(2), of "change_type_of contract" "title contract"]
  obtain name where name: "free_branch (change_type_of contract) (branch_slug (title contract)) taken = Some name"
      "\<not> branch_held taken name" "valid_branch name"
    by blast
  let ?q = "p\<lparr>files_of := write_contract (files_of p) (contract\<lparr>branch := Some name\<rparr>)\<rparr>"
  have "chosen_branch w contract taken p =
      (case write_refused w (ticks p) (contract\<lparr>branch := Some name\<rparr>) of
         Some e \<Rightarrow> Some (Inl (FilesRefused e), p) | None \<Rightarrow> Some (Inr name, ?q))"
    using assms name by (simp add: chosen_branch_def record_branch_def door_then_def reading_def
        write_file_def answer_def split: option.split)
  with name assms(1) show ?thesis
    by (intro exI [of _ name])
      (simp add: chosen_branch_def task_branch_def read_contract_def write_contract_def split: option.split)
qed

definition fresh_project :: "task_contract \<Rightarrow> project" where
  "fresh_project c =
     \<lparr>log_of = [], tables_of = empty_tables, files_of = (\<lambda>i. if i = task_id c then Some c else None), ticks = 0\<rparr>"

theorem chosen_branch_is_kept_witness:
  "\<forall>w. \<exists>name q. chosen_branch (w\<lparr>write_refused := (\<lambda>_ _. None)\<rparr>) sample_contract [''main'']
       (fresh_project sample_contract) = Some (Inr name, q)
     \<and> valid_branch name \<and> name \<noteq> ''main''"
proof
  fix w :: world
  have "read_contract (files_of (fresh_project sample_contract)) (task_id sample_contract) = Inr sample_contract"
    by (simp add: fresh_project_def read_contract_def)
  moreover have "branch sample_contract = None" by (simp add: sample_contract_def)
  ultimately show "\<exists>name q. chosen_branch (w\<lparr>write_refused := (\<lambda>_ _. None)\<rparr>) sample_contract [''main'']
       (fresh_project sample_contract) = Some (Inr name, q) \<and> valid_branch name \<and> name \<noteq> ''main''"
    using chosen_branch_is_kept [of "fresh_project sample_contract" sample_contract "[''main'']"
        "w\<lparr>write_refused := (\<lambda>_ _. None)\<rparr>"]
    by (auto simp: branch_held_def)
qed

section \<open>The numbers of tasks\<close>

lemma task_id_chars: "is_task_id i \<Longrightarrow> CHR ''/'' \<notin> set i"
  using digit_not by (auto simp: is_task_id_def list_all_iff strip_prefix_Some_iff split: option.splits)

lemma slash_split_first:
  assumes "CHR ''/'' \<notin> set a"
  shows "slash_split (a @ ''/'' @ t) = a # slash_split t"
proof -
  have "\<forall>c \<in> set a. \<not> c = CHR ''/''" using assms by auto
  from split_on_append_sep [OF this] show ?thesis by (simp add: slash_split_def)
qed

lemma slash_split_only:
  assumes "CHR ''/'' \<notin> set a"
  shows "slash_split a = [a]"
proof -
  have "\<forall>c \<in> set a. \<not> c = CHR ''/''" using assms by auto
  from split_on_single [OF this] show ?thesis by (simp add: slash_split_def)
qed

lemma digits_value_bound: "list_all is_digit_ascii s \<Longrightarrow> digits_value s < 10 ^ length s"
proof (induction s rule: rev_induct)
  case (snoc c s)
  then have "code_point c \<le> 57" by (simp add: is_digit_ascii_def)
  then have "code_point c - 48 \<le> 9" by linarith
  with snoc show ?case by (simp add: digits_value_snoc)
qed (simp add: digits_value_def)

lemma task_id_number:
  assumes "is_task_id i"
  shows "\<exists>n. contract_number i = Some n \<and> n \<le> 999999"
proof -
  from assms obtain ds where ds: "i = ''CTV-'' @ ds" "ds \<noteq> []" "length ds \<le> 6" "list_all is_digit_ascii ds"
    by (auto simp: is_task_id_def strip_prefix_Some_iff split: option.splits)
  have "digits_value ds < 10 ^ length ds" using ds(4) by (rule digits_value_bound)
  also have "(10 :: nat) ^ length ds \<le> 10 ^ 6" using ds(3) by (intro power_increasing) simp_all
  finally have "digits_value ds < 1000000" by simp
  then show ?thesis
    unfolding contract_number_def ds(1) strip_prefix_append using ds(2,4) by (simp add: parse_u64_def no_plus)
qed

lemma old_task_branch_kinds:
  obtains kind where "old_task_branch contract = kind @ ''/'' @ task_id contract"
    "kind \<in> {''feature'', ''fix'', ''docs''}" "CHR ''/'' \<notin> set kind"
  by (cases "changes_code (assignee_role contract)"; cases "contract_change contract = Some Fix")
    (auto simp: old_task_branch_def split: option.splits change.splits
       intro: that [of "''docs''"] that [of "''fix''"] that [of "''feature''"])

lemma valid_branch_has_no_number:
  assumes "valid_branch name"
  shows "task_number_of_branch name = None"
proof -
  from assms obtain kind slug where s: "slash_split name = [kind, slug]" "is_slug slug"
    by (auto simp: valid_branch_def split: list.splits)
  have "\<not> is_task_id slug"
  proof
    assume "is_task_id slug"
    then obtain ds where "slug = ''CTV-'' @ ds"
      by (auto simp: is_task_id_def strip_prefix_Some_iff split: option.splits)
    then have "''CTV'' \<in> set (split_on (\<lambda>c. c = CHR ''-'') slug)"
      by (simp add: split_on.simps)
    with s(2) show False
      by (auto simp: is_slug_def list_all_iff is_lower_ascii_def is_digit_ascii_def code_point_def)
  qed
  with s show ?thesis by (simp add: task_number_of_branch_def)
qed

text \<open>
  C38: The number of a task is read back from the branch the old rule named after it, with a remote's
  name before it or none, and never from a branch that is chosen now: those numbers a new task is
  put past, and these say nothing of numbers.
\<close>

theorem branch_number_round_trip:
  assumes "is_task_id (task_id contract)" and "CHR ''/'' \<notin> set remote"
  shows "task_number_of_branch (old_task_branch contract) = contract_number (task_id contract)
    \<and> task_number_of_branch (remote @ ''/'' @ old_task_branch contract) = contract_number (task_id contract)
    \<and> contract_number (task_id contract) \<noteq> None
    \<and> (\<forall>name. valid_branch name \<longrightarrow> task_number_of_branch name = None)"
proof -
  obtain kind where kind: "old_task_branch contract = kind @ ''/'' @ task_id contract"
      "kind \<in> {''feature'', ''fix'', ''docs''}" "CHR ''/'' \<notin> set kind"
    by (rule old_task_branch_kinds)
  have two: "slash_split (old_task_branch contract) = [kind, task_id contract]"
    using kind slash_split_first slash_split_only [OF task_id_chars [OF assms(1)]] by metis
  then have three: "slash_split (remote @ ''/'' @ old_task_branch contract) = [remote, kind, task_id contract]"
    using slash_split_first [OF assms(2)] by metis
  have "task_number_of_branch (old_task_branch contract) = contract_number (task_id contract)"
    unfolding task_number_of_branch_def two contract_number_def using kind(2) assms(1) by auto
  moreover have "task_number_of_branch (remote @ ''/'' @ old_task_branch contract)
      = contract_number (task_id contract)"
    unfolding task_number_of_branch_def three contract_number_def using kind(2) assms(1) by auto
  ultimately show ?thesis
    using valid_branch_has_no_number task_id_number [OF assms(1)] by blast
qed

theorem branch_number_round_trip_witness:
  "task_number_of_branch (''origin/'' @ old_task_branch (sample_contract\<lparr>task_id := ''CTV-17''\<rparr>)) = Some 17"
proof -
  have "contract_number ''CTV-17'' = Some 17"
    by (simp add: contract_number_def strip_prefix_def starts_with_def parse_u64_def is_digit_ascii_def
        digits_value_def code_point_def)
  moreover have "is_task_id ''CTV-17''" by code_simp
  ultimately show ?thesis
    using branch_number_round_trip [of "sample_contract\<lparr>task_id := ''CTV-17''\<rparr>" "''origin''"] by simp
qed

lemma fresh_task_id:
  assumes "0 < n"
  shows "is_task_id (TASK_ID_PREFIX @ ''-'' @ decimal n) \<longleftrightarrow> n \<le> 999999"
proof -
  have "length (decimal n) \<le> 6 \<longleftrightarrow> n \<le> 999999"
  proof
    assume len: "length (decimal n) \<le> 6"
    have "n < 10 ^ length (decimal n)" using digits_value_bound [OF decimal_digits [of n]] by simp
    also have "(10 :: nat) ^ length (decimal n) \<le> 10 ^ 6" using len by (intro power_increasing) simp_all
    finally show "n \<le> 999999" by simp
  qed (use decimal_length [OF assms, of 6] in simp)
  moreover have "strip_prefix ''CTV-'' (TASK_ID_PREFIX @ ''-'' @ decimal n) = Some (decimal n)"
    by (simp add: TASK_ID_PREFIX_def strip_prefix_Some_iff)
  ultimately show ?thesis using decimal_digits by (simp add: is_task_id_def)
qed

lemma next_task_id_counted:
  assumes "taken < 2 ^ 63" and "max counter taken + 1 = n" and "n < 2 ^ 63"
  shows "next_task_id_above taken counter =
    (if n \<le> 999999 then Inr (TASK_ID_PREFIX @ ''-'' @ decimal n) else Inl (TaskIdsExhausted n), n)"
  unfolding next_task_id_above_def Let_def assms(2) using assms(1,3) fresh_task_id [of n] assms(2) by auto

lemma fresh_task_number: "n \<le> 999999 \<Longrightarrow> contract_number (TASK_ID_PREFIX @ ''-'' @ decimal n) = Some n"
  using strip_prefix_append [of "''CTV-''" "decimal n"]
  by (simp add: TASK_ID_PREFIX_def contract_number_def parse_u64_decimal)

lemma foldl_max_ge: "(x :: nat) \<in> set xs \<or> x \<le> a \<Longrightarrow> x \<le> foldl max a xs"
proof (induction xs arbitrary: a)
  case (Cons y ys)
  from Cons.prems have "x \<in> set ys \<or> x \<le> max a y" by auto
  from Cons.IH [OF this] show ?case by simp
qed simp

lemma foldl_max_le: "a \<le> m \<Longrightarrow> (\<And>x. x \<in> set xs \<Longrightarrow> x \<le> m) \<Longrightarrow> foldl max a xs \<le> (m :: nat)"
  by (induction xs arbitrary: a) auto

lemma branch_number_taken:
  "b \<in> set branches \<Longrightarrow> task_number_of_branch b = Some n \<Longrightarrow> n \<le> number_taken stems branches"
  unfolding number_taken_def by (intro max.coboundedI2 foldl_max_ge) (auto simp: set_filter_map)

lemma last_is_largest: "sorted (map f xs) \<Longrightarrow> x \<in> set xs \<Longrightarrow> f x \<le> f (last xs)"
  by (induction xs rule: rev_induct) (auto simp: sorted_append)

lemma stem_number_taken:
  assumes "j \<in> set stems" and "is_task_id j" and "contract_number j = Some n"
  shows "n \<le> number_taken stems branches"
proof -
  let ?key = "\<lambda>i. case contract_number i of None \<Rightarrow> 0 | Some n \<Rightarrow> n + 1"
  let ?ids = "list_contracts stems"
  have j: "j \<in> set ?ids" using assms by (simp add: list_contracts_def)
  have "sorted (map ?key ?ids)" by (simp add: list_contracts_def)
  then have "?key j \<le> ?key (last ?ids)" using j by (rule last_is_largest)
  moreover have "?ids \<noteq> []" using j by auto
  ultimately show ?thesis using assms(3) by (auto simp: number_taken_def Let_def split: option.splits)
qed

lemma number_of_branch_small: "task_number_of_branch b = Some n \<Longrightarrow> n \<le> 999999"
  using task_id_number
  by (force simp: task_number_of_branch_def Let_def contract_number_def split: list.splits if_splits)

lemma number_taken_bound: "number_taken stems branches \<le> 999999"
proof -
  have "is_task_id i" if "i \<in> set (list_contracts stems)" for i
    using that by (simp add: list_contracts_def)
  then have "list_contracts stems = [] \<or> is_task_id (last (list_contracts stems))"
    using last_in_set by blast
  then have "(let ids = list_contracts stems in
      if ids = [] then 0 else case contract_number (last ids) of None \<Rightarrow> 0 | Some n \<Rightarrow> n) \<le> 999999"
    using task_id_number [of "last (list_contracts stems)"] by (auto simp: Let_def)
  moreover have "foldl max 0 (filter_map task_number_of_branch branches) \<le> 999999"
    by (rule foldl_max_le) (auto simp: set_filter_map dest: number_of_branch_small)
  ultimately show ?thesis unfolding number_taken_def by (rule max.boundedI)
qed

text \<open>
  C36: A new task's number is past everything that has one: the id \<open>next_task_id_above\<close> answers is no
  contract's file, its number is past the counter and past every number a branch holds, and the
  counter is at that number afterwards; the counter never goes back, and an id is refused only past
  999999.
\<close>

theorem new_task_id_is_past_all:
  assumes "next_task_id_above (number_taken stems branches) counter = (answered, counter')"
  shows "counter \<le> counter'
    \<and> (\<forall>i. answered = Inr i \<longrightarrow>
          i \<notin> set stems \<and> is_task_id i \<and> contract_number i = Some counter' \<and> counter < counter'
          \<and> (\<forall>b \<in> set branches. \<forall>n. task_number_of_branch b = Some n \<longrightarrow> n < counter')
          \<and> (\<forall>j \<in> set stems. \<forall>n. is_task_id j \<longrightarrow> contract_number j = Some n \<longrightarrow> n < counter'))
    \<and> ((\<exists>e. answered = Inl e) \<longleftrightarrow> 999999 \<le> max counter (number_taken stems branches))"
proof -
  let ?taken = "number_taken stems branches"
  have small: "?taken \<le> 999999" by (rule number_taken_bound)
  have id_iff: "is_task_id (TASK_ID_PREFIX @ ''-'' @ decimal n) \<longleftrightarrow> n \<le> 999999" if "0 < n" for n
    using that by (rule fresh_task_id)
  have number: "contract_number (TASK_ID_PREFIX @ ''-'' @ decimal n) = Some n" if "n \<le> 999999" for n
    using that by (rule fresh_task_number)
  obtain n where n: "max counter ?taken + 1 = n" by blast
  then have past: "counter < n" "?taken < n" "n = counter + 1 \<or> n = ?taken + 1" by auto
  consider (far) "2 ^ 63 \<le> n" "answered = Inl CounterOverflow" "counter' = counter"
    | (full) "999999 < n" "answered = Inl (TaskIdsExhausted n)" "counter' = n"
    | (fresh) "n \<le> 999999" "answered = Inr (TASK_ID_PREFIX @ ''-'' @ decimal n)" "counter' = n"
  proof (cases "2 ^ 63 \<le> n")
    case True
    moreover have "\<not> 2 ^ 63 \<le> ?taken" using small by simp
    ultimately have "(answered, counter') = (Inl CounterOverflow, counter)"
      using assms unfolding next_task_id_above_def Let_def n by simp
    then show ?thesis using far True by simp
  next
    case False
    then have "(answered, counter') =
        (if n \<le> 999999 then Inr (TASK_ID_PREFIX @ ''-'' @ decimal n) else Inl (TaskIdsExhausted n), n)"
      unfolding assms [symmetric] using small n by (intro next_task_id_counted) simp_all
    then show ?thesis using full fresh by (cases "n \<le> 999999") simp_all
  qed
  then show ?thesis
  proof cases
    case fresh
    have "m < n" if "b \<in> set branches" and "task_number_of_branch b = Some m" for b m
      using branch_number_taken [OF that, of stems] past(2) by linarith
    moreover have stem: "m < n" if "j \<in> set stems" "is_task_id j" "contract_number j = Some m" for j m
      using stem_number_taken [OF that, of branches] past(2) by linarith
    moreover have "TASK_ID_PREFIX @ ''-'' @ decimal n \<notin> set stems"
      using stem [of _ n] number [OF fresh(1)] id_iff [of n] fresh(1) past(1) by (metis less_irrefl not_gr_zero not_less0)
    ultimately show ?thesis using fresh id_iff [of n] number [of n] past by auto
  qed (use past small in auto)
qed

theorem new_task_id_is_past_all_witness:
  "next_task_id_above (number_taken [''CTV-10'', ''notes''] [''main'', ''origin/fix/CTV-12'']) 3 = (Inr ''CTV-13'', 13)
   \<and> ''CTV-13'' \<notin> set [''CTV-10'', ''notes''] \<and> contract_number ''CTV-13'' = Some 13"
proof -
  have ids: "is_task_id ''CTV-10''" "\<not> is_task_id ''notes''" "is_task_id ''CTV-12''" by code_simp+
  have n: "contract_number ''CTV-10'' = Some 10" "Option.bind (strip_prefix ''CTV-'' ''CTV-12'') parse_u64 = Some 12"
    by (simp_all add: contract_number_def strip_prefix_def starts_with_def parse_u64_def is_digit_ascii_def
        digits_value_def code_point_def)
  have split: "slash_split ''main'' = [''main'']" "slash_split ''origin/fix/CTV-12'' = [''origin'', ''fix'', ''CTV-12'']"
    by code_simp+
  have taken: "number_taken [''CTV-10'', ''notes''] [''main'', ''origin/fix/CTV-12''] = 12"
    by (simp add: number_taken_def list_contracts_def ids n task_number_of_branch_def split)
  have "decimal 13 = ''13''" by code_simp
  then have next_id: "next_task_id_above (number_taken [''CTV-10'', ''notes''] [''main'', ''origin/fix/CTV-12'']) 3
      = (Inr ''CTV-13'', 13)"
    unfolding taken by (subst next_task_id_counted [of _ _ 13]) (simp_all add: TASK_ID_PREFIX_def)
  from new_task_id_is_past_all [OF next_id] next_id show ?thesis by blast
qed

end
