(* ===== verification/Call_Rates.thy ===== *)
theory Call_Rates
  imports Escalation
begin

text \<open>
  The hourly rate of paid connector calls under autopilot (crates/core/src/autopilot.rs,
  \<open>rate_limit\<close>): three calls of the same input, a third of the figure of one tool, the figure of all.
  The lemmas say when a call is let through, that \<open>frees_at\<close> is the first moment the limit that
  refused no longer holds, and that an agent held to the rate never has more than the figure in any
  hour, by induction on its calls.
\<close>

section \<open>The limits\<close>

definition SAME_INPUT_CALLS_PER_HOUR :: u32 where "SAME_INPUT_CALLS_PER_HOUR = 3"
definition RATE_LIMITED_PER_SESSION :: u32 where "RATE_LIMITED_PER_SESSION = 3"

record recent_call =
  call_server :: string
  call_tool :: string
  call_input :: string
  call_time :: date_time

datatype rate_limit_kind = SameInput | ThisTool | AllTools

record rate_limited =
  limit_hit :: rate_limit_kind
  limit_calls :: u32
  frees_at :: date_time

definition HOUR :: int where "HOUR = int (nanos_of_hours 1)"

definition per_tool_calls_per_hour :: "u32 \<Rightarrow> u32" where
  "per_tool_calls_per_hour per_hour = (let third = per_hour div 3 in if third = 0 then 1 else third)"

text \<open>\<open>held\<close> reads \<open>times[times.len() - at]\<close>, which panics for a figure of zero: that is
  \<open>OutOfBounds\<close>. A figure above the hour's calls lets them through.\<close>

datatype rate_answer = WithinRate | OverRate rate_limited | OutOfBounds

definition held :: "rate_limit_kind \<Rightarrow> u32 \<Rightarrow> date_time list \<Rightarrow> rate_answer" where
  "held limit figure ts =
     (let n = unat figure in
      if length ts < n then WithinRate
      else if n = 0 then OutOfBounds
      else OverRate \<lparr>limit_hit = limit, limit_calls = figure,
                     frees_at = ts ! (length ts - n) + HOUR\<rparr>)"

definition or_held :: "rate_answer \<Rightarrow> rate_answer \<Rightarrow> rate_answer" where
  "or_held a b = (if a = WithinRate then b else a)"

text \<open>The calls of the past hour, in the order of their times.\<close>

definition in_the_hour :: "recent_call list \<Rightarrow> date_time \<Rightarrow> recent_call list" where
  "in_the_hour recent now = sort_key call_time (filter (\<lambda>c. now - HOUR < call_time c) recent)"

definition of_tool :: "string \<Rightarrow> string \<Rightarrow> recent_call \<Rightarrow> bool" where
  "of_tool server tool c \<longleftrightarrow> call_server c = server \<and> call_tool c = tool"

definition of_input :: "string \<Rightarrow> string \<Rightarrow> string \<Rightarrow> recent_call \<Rightarrow> bool" where
  "of_input server tool sha c \<longleftrightarrow> of_tool server tool c \<and> call_input c = sha"

definition rate_limit ::
  "recent_call list \<Rightarrow> string \<Rightarrow> string \<Rightarrow> string \<Rightarrow> u32 \<Rightarrow> date_time \<Rightarrow> rate_answer" where
  "rate_limit recent server tool sha per_hour now =
     (let inside = in_the_hour recent now in
      or_held (held SameInput SAME_INPUT_CALLS_PER_HOUR
                 (map call_time (filter (of_input server tool sha) inside)))
     (or_held (held ThisTool (per_tool_calls_per_hour per_hour)
                 (map call_time (filter (of_tool server tool) inside)))
              (held AllTools per_hour (map call_time inside))))"

section \<open>When a call is let through\<close>

text \<open>What each limit counts, and its figure.\<close>

fun counted :: "rate_limit_kind \<Rightarrow> string \<Rightarrow> string \<Rightarrow> string \<Rightarrow> recent_call \<Rightarrow> bool" where
  "counted SameInput server tool sha = of_input server tool sha"
| "counted ThisTool server tool sha = of_tool server tool"
| "counted AllTools server tool sha = (\<lambda>_. True)"

fun figure_of :: "rate_limit_kind \<Rightarrow> u32 \<Rightarrow> u32" where
  "figure_of SameInput per_hour = SAME_INPUT_CALLS_PER_HOUR"
| "figure_of ThisTool per_hour = per_tool_calls_per_hour per_hour"
| "figure_of AllTools per_hour = per_hour"

text \<open>How many of the calls are counted in the hour before a moment, that hour open at its start.\<close>

definition count_in :: "(recent_call \<Rightarrow> bool) \<Rightarrow> recent_call list \<Rightarrow> date_time \<Rightarrow> nat" where
  "count_in P calls now = length (filter (\<lambda>c. P c \<and> now - HOUR < call_time c) calls)"

lemma held_cases:
  "held k f ts = WithinRate \<longleftrightarrow> length ts < unat f"
  "held k f ts = OutOfBounds \<longleftrightarrow> f = 0"
  "held k f ts = OverRate r \<longleftrightarrow> 0 < unat f \<and> unat f \<le> length ts
     \<and> r = \<lparr>limit_hit = k, limit_calls = f, frees_at = ts ! (length ts - unat f) + HOUR\<rparr>"
  by (auto simp: held_def Let_def not_less unat_eq_0 unat_gt_0)

lemma or_held_cases:
  "or_held a b = WithinRate \<longleftrightarrow> a = WithinRate \<and> b = WithinRate"
  "or_held a b = OutOfBounds \<longleftrightarrow> a = OutOfBounds \<or> a = WithinRate \<and> b = OutOfBounds"
  "or_held a b = OverRate r \<longleftrightarrow> a = OverRate r \<or> a = WithinRate \<and> b = OverRate r"
  by (auto simp: or_held_def)

lemma figure_positive: "0 < per_hour \<Longrightarrow> 0 < figure_of k per_hour"
proof (cases k)
  case ThisTool
  then show ?thesis by (simp add: per_tool_calls_per_hour_def Let_def word_gt_0)
qed (simp_all add: SAME_INPUT_CALLS_PER_HOUR_def)

lemma length_in_the_hour: "length (filter P (in_the_hour calls now)) = count_in P calls now"
  by (simp add: in_the_hour_def count_in_def filter_sort filter_filter conj_commute)

text \<open>Each of the three limits in its place, in the order they are read.\<close>

definition limit_answer ::
  "rate_limit_kind \<Rightarrow> recent_call list \<Rightarrow> string \<Rightarrow> string \<Rightarrow> string \<Rightarrow> u32 \<Rightarrow> date_time \<Rightarrow> rate_answer" where
  "limit_answer k recent server tool sha per_hour now =
     held k (figure_of k per_hour)
       (map call_time (filter (counted k server tool sha) (in_the_hour recent now)))"

lemma rate_limit_reads:
  "rate_limit recent s t h n now =
     or_held (limit_answer SameInput recent s t h n now)
       (or_held (limit_answer ThisTool recent s t h n now) (limit_answer AllTools recent s t h n now))"
  by (simp add: rate_limit_def limit_answer_def Let_def)

lemma limit_answer_cases:
  "limit_answer k recent s t h n now = WithinRate
     \<longleftrightarrow> count_in (counted k s t h) recent now < unat (figure_of k n)"
  "limit_answer k recent s t h n now = OutOfBounds \<longleftrightarrow> figure_of k n = 0"
  by (simp_all add: limit_answer_def held_cases length_in_the_hour)

lemma rate_limit_WithinRate:
  "rate_limit recent s t h n now = WithinRate
     \<longleftrightarrow> (\<forall>k. count_in (counted k s t h) recent now < unat (figure_of k n))"
proof -
  have "(\<forall>k. P k) \<longleftrightarrow> P SameInput \<and> P ThisTool \<and> P AllTools" for P :: "rate_limit_kind \<Rightarrow> bool"
    by (metis rate_limit_kind.exhaust)
  then show ?thesis by (simp add: rate_limit_reads or_held_cases limit_answer_cases)
qed

lemma rate_limit_in_bounds: "0 < n \<Longrightarrow> rate_limit recent s t h n now \<noteq> OutOfBounds"
  using figure_positive [of n SameInput] figure_positive [of n ThisTool]
  by (auto simp: rate_limit_reads or_held_cases limit_answer_cases)

lemma rate_limit_OverRate:
  "rate_limit recent s t h n now = OverRate r \<Longrightarrow> limit_answer (limit_hit r) recent s t h n now = OverRate r"
  by (auto simp: rate_limit_reads or_held_cases limit_answer_def held_cases)

section \<open>When the hour frees a place\<close>

lemma sorted_count_after:
  fixes ts :: "int list"
  assumes "sorted ts" and "0 < n" and "n \<le> length ts"
  shows "length (filter (\<lambda>t. x < t) ts) < n \<longleftrightarrow> ts ! (length ts - n) \<le> x"
proof -
  let ?i = "length ts - n" and ?S = "{j. j < length ts \<and> x < ts ! j}"
  have card: "length (filter (\<lambda>t. x < t) ts) = card ?S" by (simp add: length_filter_conv_card)
  show ?thesis
  proof (cases "ts ! ?i \<le> x")
    case True
    have "?S \<subseteq> {?i + 1..<length ts}"
    proof
      fix j
      assume j: "j \<in> ?S"
      then have "\<not> j \<le> ?i" using True sorted_nth_mono [OF assms(1), of j ?i] assms(2,3) by force
      then show "j \<in> {?i + 1..<length ts}" using j by simp
    qed
    then have "card ?S \<le> length ts - (?i + 1)" using card_mono [of "{?i + 1..<length ts}" ?S] by simp
    then show ?thesis using card True assms(2,3) by linarith
  next
    case False
    have "{?i..<length ts} \<subseteq> ?S" using False sorted_nth_mono [OF assms(1), of ?i] by force
    then have "length ts - ?i \<le> card ?S" using card_mono [of ?S "{?i..<length ts}"] by simp
    then show ?thesis using card False assms(2,3) by linarith
  qed
qed

lemma limit_answer_frees:
  assumes "limit_answer k recent s t h n now = OverRate r" and "now \<le> later"
  shows "count_in (counted k s t h) recent later < unat (figure_of k n) \<longleftrightarrow> frees_at r \<le> later"
proof -
  let ?P = "counted k s t h" and ?f = "unat (figure_of k n)"
  let ?ts = "map call_time (filter ?P (in_the_hour recent now))"
  have r: "0 < ?f" "?f \<le> length ?ts" "frees_at r = ?ts ! (length ?ts - ?f) + HOUR"
    using assms(1) by (auto simp: limit_answer_def held_cases)
  have "sorted ?ts" by (simp add: in_the_hour_def sorted_filter)
  moreover have "length (filter (\<lambda>t. later - HOUR < t) ?ts) = count_in ?P recent later"
  proof -
    have "?P c \<and> now - HOUR < call_time c \<and> later - HOUR < call_time c
        \<longleftrightarrow> ?P c \<and> later - HOUR < call_time c" for c
      using assms(2) by auto
    then show ?thesis
      by (simp add: count_in_def in_the_hour_def filter_sort filter_map filter_filter comp_def
          conj_commute conj_left_commute)
  qed
  ultimately show ?thesis using sorted_count_after [of ?ts ?f "later - HOUR"] r by auto
qed

text \<open>
  C26: A call is let through exactly when each of the three limits, of this input, of this tool and of
  all paid tools, has a place left in the hour. The moment of a refusal is exact: the limit it names
  holds at every moment from now until \<open>frees_at\<close>, which is later than now, and no longer
  holds from then on. The call panics, by an index out of bounds, only for a figure of zero, which
  the schema of the team file does not allow.
\<close>

theorem refused_call_is_freed_exactly:
  "(rate_limit recent s t h n now = WithinRate
      \<longleftrightarrow> (\<forall>k. count_in (counted k s t h) recent now < unat (figure_of k n)))
   \<and> (\<forall>r. rate_limit recent s t h n now = OverRate r \<longrightarrow>
        now < frees_at r \<and> limit_calls r = figure_of (limit_hit r) n
        \<and> (\<forall>later. now \<le> later \<longrightarrow>
             (count_in (counted (limit_hit r) s t h) recent later < unat (limit_calls r)
                \<longleftrightarrow> frees_at r \<le> later)))
   \<and> (rate_limit recent s t h n now = OutOfBounds \<longrightarrow> n = 0)"
proof (intro conjI allI impI)
  fix r
  assume over: "rate_limit recent s t h n now = OverRate r"
  note hit = rate_limit_OverRate [OF over]
  show figure: "limit_calls r = figure_of (limit_hit r) n"
    using hit unfolding limit_answer_def held_cases by (metis rate_limited.select_convs(2))
  show "now < frees_at r"
    using limit_answer_frees [OF hit, of now] hit limit_answer_cases(1) [of "limit_hit r" recent s t h n now]
    by (auto simp: not_less)
  fix later
  assume "now \<le> later"
  then show "count_in (counted (limit_hit r) s t h) recent later < unat (limit_calls r)
      \<longleftrightarrow> frees_at r \<le> later"
    using figure limit_answer_frees [OF hit] by simp
next
  assume "rate_limit recent s t h n now = OutOfBounds"
  then show "n = 0" using rate_limit_in_bounds word_gt_0 by blast
qed (rule rate_limit_WithinRate)

theorem refused_call_is_freed_exactly_witness:
  "let c = \<lparr>call_server = ''pay'', call_tool = ''buy'', call_input = ''one'', call_time = 0\<rparr>;
       r = \<lparr>limit_hit = SameInput, limit_calls = 3, frees_at = HOUR\<rparr> in
     rate_limit [c, c, c] ''pay'' ''buy'' ''one'' 30 5 = OverRate r \<and> 5 < frees_at r
     \<and> count_in (of_input ''pay'' ''buy'' ''one'') [c, c, c] (HOUR - 1) = 3
     \<and> count_in (of_input ''pay'' ''buy'' ''one'') [c, c, c] HOUR < 3
     \<and> rate_limit [c, c, c] ''pay'' ''buy'' ''two'' 30 5 \<noteq> OutOfBounds"
proof -
  define c where "c = \<lparr>call_server = ''pay'', call_tool = ''buy'', call_input = ''one'', call_time = 0\<rparr>"
  define r where "r = \<lparr>limit_hit = SameInput, limit_calls = 3, frees_at = HOUR\<rparr>"
  have over: "rate_limit [c, c, c] ''pay'' ''buy'' ''one'' 30 5 = OverRate r"
    by (simp add: rate_limit_def c_def r_def in_the_hour_def of_input_def of_tool_def held_def or_held_def
        SAME_INPUT_CALLS_PER_HOUR_def HOUR_def nanos_of_hours_def)
  moreover have "count_in (of_input ''pay'' ''buy'' ''one'') [c, c, c] (HOUR - 1) = 3"
    by (simp add: count_in_def c_def of_input_def of_tool_def)
  moreover have "5 < frees_at r
    \<and> count_in (of_input ''pay'' ''buy'' ''one'') [c, c, c] (frees_at r) < unat (limit_calls r)"
    using refused_call_is_freed_exactly [of "[c, c, c]" "''pay''" "''buy''" "''one''" 30 5] over
    by (auto simp: r_def SAME_INPUT_CALLS_PER_HOUR_def)
  moreover have "rate_limit [c, c, c] ''pay'' ''buy'' ''two'' 30 5 \<noteq> OutOfBounds"
    using refused_call_is_freed_exactly [of "[c, c, c]" "''pay''" "''buy''" "''two''" 30 5] by auto
  ultimately show ?thesis by (simp add: c_def r_def Let_def)
qed

section \<open>An agent held to the rate\<close>

text \<open>Calls made one after the other, each let through by the rate over the ones before it.\<close>

inductive paced :: "u32 \<Rightarrow> recent_call list \<Rightarrow> bool" for n where
  no_call: "paced n []"
| one_more: "paced n calls \<Longrightarrow> list_all (\<lambda>d. call_time d \<le> call_time c) calls \<Longrightarrow>
     rate_limit calls (call_server c) (call_tool c) (call_input c) n (call_time c) = WithinRate \<Longrightarrow>
     paced n (calls @ [c])"

lemma count_in_snoc:
  "count_in P (calls @ [c]) now = count_in P calls now + (if P c \<and> now - HOUR < call_time c then 1 else 0)"
  by (simp add: count_in_def)

lemma count_in_later: "count_in P calls later \<le> count_in P calls now" if "now \<le> later"
proof (induction calls rule: rev_induct)
  case (snoc c calls)
  then show ?case using that by (auto simp: count_in_snoc)
qed (simp add: count_in_def)

lemma paced_bound:
  assumes "paced n calls"
  shows "length (filter (\<lambda>c. counted k s t h c \<and> now - HOUR < call_time c \<and> call_time c \<le> now) calls)
    \<le> unat (figure_of k n)"
  using assms
proof (induction rule: paced.induct)
  case (one_more calls c)
  let ?in = "\<lambda>now c. counted k s t h c \<and> now - HOUR < call_time c \<and> call_time c \<le> now"
  show ?case
  proof (cases "?in now c")
    case True
    have same: "counted k s t h = counted k (call_server c) (call_tool c) (call_input c)"
      using True by (cases k) (auto simp: fun_eq_iff of_input_def of_tool_def)
    have "length (filter (?in now) calls) \<le> count_in (counted k s t h) calls now"
      unfolding count_in_def by (induction calls) auto
    also have "\<dots> \<le> count_in (counted k s t h) calls (call_time c)"
      using True count_in_later by blast
    also have "\<dots> < unat (figure_of k n)" unfolding same using one_more(3) by (simp add: rate_limit_WithinRate)
    finally show ?thesis using True by simp
  next
    case False
    then show ?thesis using one_more.IH by auto
  qed
qed simp

end
