(* ===== verification/Folder_Docs.thy ===== *)
theory Folder_Docs
  imports Events Numbers
begin

text \<open>
  The documents agents propose in their folders and the changes that carry them, folded from the log
  (crates/store/src/folder\_docs.rs). The lemmas say that the owner's first decision about a proposal
  settles it for good, that no event an agent or a session records settles a proposal, integrates a
  change or escalates one, and that the numbers of changes are distinct.
\<close>

section \<open>The fold\<close>

datatype proposal_state = ProposalPending | ProposalSuperseded | ProposalApproved | ProposalReturned

record doc_proposal =
  proposal_number :: nat
  proposal_doc :: doc_proposed
  proposal_time :: date_time
  proposal_state :: proposal_state

record doc_decision =
  decision_seq :: nat
  decision_approved :: bool
  decision_proposals :: "nat list"
  decision_words :: string

record folder_change =
  change_number :: nat
  change_branch :: string
  change_paths :: "string list"
  change_approved :: bool
  change_proposals :: "nat list"
  change_writer :: "string option"
  change_integrated :: bool
  change_escalated :: bool
  change_edited :: bool
  change_storage :: "bool option"

record folder_docs =
  doc_proposals :: "doc_proposal list"
  doc_decisions :: "doc_decision list"
  doc_changes :: "folder_change list"

definition no_docs :: folder_docs where
  "no_docs = \<lparr>doc_proposals = [], doc_decisions = [], doc_changes = []\<rparr>"

definition is_unattended :: "event \<Rightarrow> bool" where
  "is_unattended e \<longleftrightarrow> by_agent (ids e) = None \<and> in_session (ids e) = None"

definition is_open_proposal :: "doc_proposal \<Rightarrow> bool" where
  "is_open_proposal r \<longleftrightarrow> proposal_state r \<in> {ProposalPending, ProposalSuperseded}"

definition settle :: "nat list \<Rightarrow> proposal_state \<Rightarrow> folder_docs \<Rightarrow> folder_docs" where
  "settle numbers st docs =
     docs\<lparr>doc_proposals := map (\<lambda>r. if proposal_number r \<in> set numbers \<and> is_open_proposal r
                                  then r\<lparr>proposal_state := st\<rparr> else r) (doc_proposals docs)\<rparr>"

definition branch_or_default :: "nat \<Rightarrow> string option \<Rightarrow> string" where
  "branch_or_default n b = (case b of Some s \<Rightarrow> s | None \<Rightarrow> ''docs/folder-'' @ decimal n)"

definition new_change :: "nat \<Rightarrow> string option \<Rightarrow> string list \<Rightarrow> folder_change" where
  "new_change n b paths =
     \<lparr>change_number = n, change_branch = branch_or_default n b, change_paths = paths, change_approved = False,
      change_proposals = [], change_writer = None, change_integrated = False, change_escalated = False,
      change_edited = False, change_storage = None\<rparr>"

definition push_change :: "folder_change \<Rightarrow> folder_docs \<Rightarrow> folder_docs" where
  "push_change c docs =
     (if change_number c \<in> change_number ` set (doc_changes docs) then docs
      else docs\<lparr>doc_changes := doc_changes docs @ [c]\<rparr>)"

text \<open>\<open>add_change\<close>: of an approval, with the proposals it carries, or of the agent that wrote it.\<close>

definition add_change ::
  "nat \<Rightarrow> string option \<Rightarrow> string list \<Rightarrow> (string, nat list) result \<Rightarrow> folder_docs \<Rightarrow> folder_docs" where
  "add_change n b paths by =
     push_change ((new_change n b paths)\<lparr>
       change_approved := is_ok by,
       change_proposals := (case by of Inl _ \<Rightarrow> [] | Inr numbers \<Rightarrow> numbers),
       change_writer := (case by of Inl who \<Rightarrow> Some who | Inr _ \<Rightarrow> None)\<rparr>)"

fun first_change :: "nat \<Rightarrow> (folder_change \<Rightarrow> folder_change) \<Rightarrow> folder_change list \<Rightarrow> folder_change list" where
  "first_change n f [] = []"
| "first_change n f (c # cs) = (if change_number c = n then f c # cs else c # first_change n f cs)"

definition change_of :: "nat \<Rightarrow> (folder_change \<Rightarrow> folder_change) \<Rightarrow> folder_docs \<Rightarrow> folder_docs" where
  "change_of n f docs = docs\<lparr>doc_changes := first_change n f (doc_changes docs)\<rparr>"

definition approved_paths :: "nat list \<Rightarrow> folder_docs \<Rightarrow> string list" where
  "approved_paths numbers docs =
     each_once (concat (map (\<lambda>r. proposed_path (proposal_doc r)
           # (case agent_twin (proposed_path (proposal_doc r)) of None \<Rightarrow> [] | Some t \<Rightarrow> [t]))
         (filter (\<lambda>r. proposal_number r \<in> set numbers) (doc_proposals docs))))"

definition decide_docs :: "nat \<Rightarrow> bool \<Rightarrow> nat list \<Rightarrow> string \<Rightarrow> folder_docs \<Rightarrow> folder_docs" where
  "decide_docs n ok numbers words docs =
     docs\<lparr>doc_decisions := doc_decisions docs @
       [\<lparr>decision_seq = n, decision_approved = ok, decision_proposals = numbers, decision_words = words\<rparr>]\<rparr>"

definition propose_doc :: "event \<Rightarrow> doc_proposed \<Rightarrow> folder_docs \<Rightarrow> folder_docs" where
  "propose_doc e d docs =
     docs\<lparr>doc_proposals :=
       map (\<lambda>r. if proposed_path (proposal_doc r) = proposed_path d \<and> proposal_state r = ProposalPending
                then r\<lparr>proposal_state := ProposalSuperseded\<rparr> else r) (doc_proposals docs)
       @ [\<lparr>proposal_number = seq e, proposal_doc = d, proposal_time = recorded_at e,
           proposal_state = ProposalPending\<rparr>]\<rparr>"

fun take_folder_event :: "event \<Rightarrow> folder_event \<Rightarrow> folder_docs \<Rightarrow> folder_docs" where
  "take_folder_event e (FolderDocProposed d) docs = propose_doc e d docs"
| "take_folder_event e (FolderDocWritten path who n b) docs = add_change n b [path] (Inl who) docs"
| "take_folder_event e (FolderDocEdited path n b) docs =
     (if is_unattended e then push_change ((new_change n b [path])\<lparr>change_edited := True\<rparr>) docs else docs)"
| "take_folder_event e (DocumentStorageChanged local None b) docs = docs"
| "take_folder_event e (DocumentStorageChanged local (Some n) b) docs =
     (if is_unattended e then push_change ((new_change n b [])\<lparr>change_storage := Some local\<rparr>) docs else docs)"
| "take_folder_event e (FolderDocApproved numbers note n b) docs =
     (if is_unattended e
      then let decided = decide_docs (seq e) True numbers (case note of None \<Rightarrow> [] | Some s \<Rightarrow> s) docs in
           settle numbers ProposalApproved
             (case n of None \<Rightarrow> decided
              | Some c \<Rightarrow> add_change c b (approved_paths numbers decided) (Inr numbers) decided)
      else docs)"
| "take_folder_event e (FolderDocReturned numbers reason) docs =
     (if is_unattended e
      then settle numbers ProposalReturned (decide_docs (seq e) False numbers reason docs) else docs)"
| "take_folder_event e (FolderChangeIntegrated n) docs =
     (if is_unattended e then change_of n (\<lambda>c. c\<lparr>change_integrated := True\<rparr>) docs else docs)"
| "take_folder_event e (FolderChangeEscalated n) docs =
     (if is_unattended e then change_of n (\<lambda>c. c\<lparr>change_escalated := True\<rparr>) docs else docs)"
| "take_folder_event e (FolderChangeOpened n) docs = docs"

definition take_doc :: "folder_docs \<Rightarrow> event \<Rightarrow> folder_docs" where
  "take_doc docs e =
     (case body e of
        FolderEvent f \<Rightarrow> take_folder_event e f docs
      | TeamDecided d \<Rightarrow>
          (case decided_change d of
             Some n \<Rightarrow> if decided_choice d = RetryFolderChange
                       then change_of n (\<lambda>c. c\<lparr>change_escalated := False\<rparr>) docs else docs
           | None \<Rightarrow> docs)
      | _ \<Rightarrow> docs)"

definition folder_docs_of :: "log \<Rightarrow> folder_docs" where
  "folder_docs_of l = foldl take_doc no_docs l"

record switch_state =
  switched_local :: bool
  switch_waiting :: bool

definition switch_state_of :: "folder_docs \<Rightarrow> log \<Rightarrow> switch_state option" where
  "switch_state_of docs l =
     (case find_map (\<lambda>e. case body e of FolderEvent (DocumentStorageChanged local n _) \<Rightarrow>
               if is_unattended e then Some (local, n) else None | _ \<Rightarrow> None) (rev l) of
        None \<Rightarrow> None
      | Some (local, n) \<Rightarrow>
          Some \<lparr>switched_local = local,
                switch_waiting = (case n of None \<Rightarrow> False
                  | Some c \<Rightarrow> list_ex (\<lambda>h. change_number h = c \<and> \<not> change_integrated h
                                           \<and> \<not> change_escalated h) (doc_changes docs))\<rparr>)"

section \<open>What an event may change\<close>

text \<open>The numbers of the proposals, in order, and the changes in order: a fold only adds to them.\<close>

lemma settle_simps [simp]:
  "doc_changes (settle ns st docs) = doc_changes docs" "doc_decisions (settle ns st docs) = doc_decisions docs"
  "map proposal_number (doc_proposals (settle ns st docs)) = map proposal_number (doc_proposals docs)"
  by (simp_all add: settle_def)

lemma push_change_simps [simp]:
  "doc_proposals (push_change c docs) = doc_proposals docs"
  "doc_decisions (push_change c docs) = doc_decisions docs"
  by (simp_all add: push_change_def)

lemma add_change_simps [simp]:
  "doc_proposals (add_change n b ps by docs) = doc_proposals docs"
  "doc_decisions (add_change n b ps by docs) = doc_decisions docs"
  by (simp_all add: add_change_def)

lemma change_of_simps [simp]:
  "doc_proposals (change_of n f docs) = doc_proposals docs"
  "doc_decisions (change_of n f docs) = doc_decisions docs"
  by (simp_all add: change_of_def)

lemma decide_docs_simps [simp]:
  "doc_proposals (decide_docs n ok ns ws docs) = doc_proposals docs"
  "doc_changes (decide_docs n ok ns ws docs) = doc_changes docs"
  by (simp_all add: decide_docs_def)

text \<open>The owner's decisions about a proposal, as the abstract specification reads them from the log:
  the first unattended approval or return that names it, once it was proposed.\<close>

definition owner_decides :: "nat \<Rightarrow> event \<Rightarrow> bool option" where
  "owner_decides n e =
     (case body e of
        FolderEvent (FolderDocApproved ns _ _ _) \<Rightarrow> if is_unattended e \<and> n \<in> set ns then Some True else None
      | FolderEvent (FolderDocReturned ns _) \<Rightarrow> if is_unattended e \<and> n \<in> set ns then Some False else None
      | _ \<Rightarrow> None)"

definition settled_as :: "bool \<Rightarrow> proposal_state" where
  "settled_as ok = (if ok then ProposalApproved else ProposalReturned)"

definition state_after :: "nat \<Rightarrow> event \<Rightarrow> doc_proposal \<Rightarrow> doc_proposal" where
  "state_after n e r =
     (if is_open_proposal r
      then case owner_decides n e of
             Some ok \<Rightarrow> r\<lparr>proposal_state := settled_as ok\<rparr>
           | None \<Rightarrow> (case body e of FolderEvent (FolderDocProposed d) \<Rightarrow>
               if proposed_path (proposal_doc r) = proposed_path d then r\<lparr>proposal_state := ProposalSuperseded\<rparr> else r
             | _ \<Rightarrow> r)
      else r)"

definition proposal_in :: "event \<Rightarrow> doc_proposed option" where
  "proposal_in e = (case body e of FolderEvent (FolderDocProposed d) \<Rightarrow> Some d | _ \<Rightarrow> None)"

lemma take_doc_proposals:
  "doc_proposals (take_doc docs e) =
     map (\<lambda>r. state_after (proposal_number r) e r) (doc_proposals docs)
     @ (case proposal_in e of None \<Rightarrow> [] | Some d \<Rightarrow>
          [\<lparr>proposal_number = seq e, proposal_doc = d, proposal_time = recorded_at e,
            proposal_state = ProposalPending\<rparr>])"
proof (cases "\<exists>f. body e = FolderEvent f")
  case True
  then obtain f where f: "body e = FolderEvent f" ..
  have unchanged: "map (\<lambda>r. state_after (proposal_number r) e r) rs = rs"
    if "\<And>n. owner_decides n e = None" "proposal_in e = None" for rs
  proof (intro map_idI)
    fix r :: doc_proposal
    have "(case body e of FolderEvent (FolderDocProposed d) \<Rightarrow> f d | _ \<Rightarrow> r)
        = (case proposal_in e of None \<Rightarrow> r | Some d \<Rightarrow> f d)" for f
      by (simp add: proposal_in_def split: event_body.split folder_event.split)
    then show "state_after (proposal_number r) e r = r" using that by (simp add: state_after_def)
  qed
  show ?thesis
  proof (cases f)
    case (FolderDocProposed d)
    then show ?thesis using f
      by (auto simp: take_doc_def proposal_in_def propose_doc_def state_after_def owner_decides_def
          is_open_proposal_def)
  next
    case (FolderDocApproved ns words n b)
    then show ?thesis using f unchanged
      by (auto simp: take_doc_def proposal_in_def settle_def state_after_def owner_decides_def settled_as_def
          Let_def split: option.split)
  next
    case (FolderDocReturned ns why)
    then show ?thesis using f unchanged
      by (auto simp: take_doc_def proposal_in_def settle_def state_after_def owner_decides_def settled_as_def)
  next
    case (DocumentStorageChanged local n b)
    then show ?thesis using f unchanged
      by (cases n) (simp_all add: take_doc_def proposal_in_def owner_decides_def)
  qed (insert f unchanged, simp_all add: take_doc_def proposal_in_def owner_decides_def)
next
  case False
  then have "doc_proposals (take_doc docs e) = doc_proposals docs" "proposal_in e = None"
    "state_after n e r = r" for n r
    by (cases "body e"; auto simp: take_doc_def proposal_in_def state_after_def owner_decides_def split: option.split)+
  then show ?thesis by simp
qed

lemma state_after_number [simp]:
  "proposal_number (state_after n e r) = proposal_number r" "proposal_doc (state_after n e r) = proposal_doc r"
  by (simp_all add: state_after_def split: option.split event_body.split folder_event.split)

lemma folder_docs_snoc: "folder_docs_of (l @ [e]) = take_doc (folder_docs_of l) e"
  by (simp add: folder_docs_of_def)

lemma find_map_snoc:
  "find_map f (xs @ [y]) = (case find_map f xs of None \<Rightarrow> f y | Some v \<Rightarrow> Some v)"
  by (induction xs) (auto split: option.splits)

section \<open>What a proposal's state means\<close>

text \<open>The specification: the owner's first decision about it, once proposed, and, while there is
  none, whether a newer proposal of its path came after it.\<close>

definition proposal_state_in :: "log \<Rightarrow> nat \<Rightarrow> string \<Rightarrow> proposal_state" where
  "proposal_state_in l n path =
     (case find_map (owner_decides n) (drop n l) of
        Some ok \<Rightarrow> settled_as ok
      | None \<Rightarrow> if list_ex (\<lambda>e. map_option proposed_path (proposal_in e) = Some path) (drop n l)
                then ProposalSuperseded else ProposalPending)"

lemma proposal_state_snoc:
  assumes "n \<le> length l" and "proposal_state r = proposal_state_in l n (proposed_path (proposal_doc r))"
  shows "proposal_state (state_after n e r) = proposal_state_in (l @ [e]) n (proposed_path (proposal_doc r))"
proof (cases "find_map (owner_decides n) (drop n l)")
  case (Some ok)
  then show ?thesis using assms
    by (cases ok) (simp_all add: proposal_state_in_def find_map_snoc state_after_def is_open_proposal_def settled_as_def)
next
  case None
  then have "is_open_proposal r" using assms(2) by (simp add: proposal_state_in_def is_open_proposal_def)
  then show ?thesis using assms None
    by (auto simp: proposal_state_in_def find_map_snoc state_after_def proposal_in_def settled_as_def
        split: option.splits event_body.splits folder_event.splits)
qed

text \<open>
  C23: Where a proposal stands is the owner's alone to settle: in the fold of any log, each proposal is
  the one its number's event made, and its state is what the owner's first decision about it said, or,
  while there is none, whether a newer proposal of the same document replaced it.
\<close>

theorem proposals_are_the_owners:
  assumes "well_numbered l" and "r \<in> set (doc_proposals (folder_docs_of l))"
  shows "0 < proposal_number r \<and> proposal_number r \<le> length l
    \<and> proposal_in (l ! (proposal_number r - 1)) = Some (proposal_doc r)
    \<and> proposal_state r = proposal_state_in l (proposal_number r) (proposed_path (proposal_doc r))"
  using assms
proof (induction l arbitrary: r rule: rev_induct)
  case Nil
  then show ?case by (simp add: folder_docs_of_def no_docs_def)
next
  case (snoc e l)
  have l: "well_numbered l" "seq e = length l + 1" using snoc.prems(1) by (simp_all add: well_numbered_snoc)
  from snoc.prems(2) consider
      (old) q where "q \<in> set (doc_proposals (folder_docs_of l))" "r = state_after (proposal_number q) e q"
    | (new) d where "proposal_in e = Some d" "proposal_number r = seq e" "proposal_doc r = d"
        "proposal_state r = ProposalPending"
    unfolding folder_docs_snoc take_doc_proposals by (cases "proposal_in e") auto
  then show ?case
  proof cases
    case old
    from snoc.IH [OF l(1) old(1)] show ?thesis using old(2) proposal_state_snoc by (auto simp: nth_append)
  next
    case new
    then show ?thesis using l by (simp add: proposal_state_in_def nth_append)
  qed
qed

theorem proposals_are_the_owners_witness:
  "let doc = (\<lambda>s. \<lparr>proposed_path = ''docs/catervas/a.md'', proposed_text = s, proposed_agent_text = s,
        proposed_summary = s, proposed_sprint = ''s1'', proposed_by = ''ada''\<rparr>);
       ev = (\<lambda>n who b. \<lparr>seq = n, recorded_at = 0, ids = \<lparr>about_task = None, by_agent = who, in_session = None\<rparr>,
        body = FolderEvent b\<rparr>);
       l = [ev 1 (Some ''ada'') (FolderDocProposed (doc ''one'')), ev 2 (Some ''ada'') (FolderDocApproved [1] None None None),
            ev 3 (Some ''ada'') (FolderDocProposed (doc ''two'')), ev 4 None (FolderDocReturned [1, 3] ''no''),
            ev 5 None (FolderDocApproved [3] None None None)] in
     map proposal_state (doc_proposals (folder_docs_of l)) = [ProposalReturned, ProposalReturned]
     \<and> proposal_state_in l 1 ''docs/catervas/a.md'' = ProposalReturned"
proof -
  define doc where "doc = (\<lambda>s. \<lparr>proposed_path = ''docs/catervas/a.md'', proposed_text = s, proposed_agent_text = s,
        proposed_summary = s, proposed_sprint = ''s1'', proposed_by = ''ada''\<rparr>)"
  define ev where "ev = (\<lambda>n who b. \<lparr>seq = n, recorded_at = 0, ids = \<lparr>about_task = None, by_agent = who, in_session = None\<rparr>,
        body = FolderEvent b\<rparr>)"
  define l where "l = [ev 1 (Some ''ada'') (FolderDocProposed (doc ''one'')), ev 2 (Some ''ada'') (FolderDocApproved [1] None None None),
            ev 3 (Some ''ada'') (FolderDocProposed (doc ''two'')), ev 4 None (FolderDocReturned [1, 3] ''no''),
            ev 5 None (FolderDocApproved [3] None None None)]"
  have l: "well_numbered l" by (simp add: well_numbered_def l_def ev_def SEQ_MAX_def upt_rec)
  let ?r = "\<lambda>n s. \<lparr>proposal_number = n, proposal_doc = doc s, proposal_time = 0, proposal_state = ProposalReturned\<rparr>"
  have folds: "doc_proposals (folder_docs_of l) = [?r 1 ''one'', ?r 3 ''two'']"
    by (simp add: folder_docs_of_def l_def ev_def take_doc_def no_docs_def propose_doc_def doc_def is_unattended_def
        settle_def is_open_proposal_def decide_docs_def)
  then have "?r 1 ''one'' \<in> set (doc_proposals (folder_docs_of l))" by simp
  from proposals_are_the_owners [OF l this]
  have "proposal_state_in l 1 ''docs/catervas/a.md'' = ProposalReturned" by (simp add: doc_def)
  then show ?thesis using folds unfolding l_def doc_def ev_def by (simp add: Let_def)
qed

section \<open>What an agent cannot do\<close>

text \<open>The flags of a change that no agent sets.\<close>

definition change_flags :: "folder_change \<Rightarrow> nat \<times> bool \<times> bool \<times> bool" where
  "change_flags c = (change_number c, change_approved c, change_integrated c, change_escalated c)"

lemma first_change_in:
  "c \<in> set (first_change n f cs) \<Longrightarrow> c \<in> set cs \<or> (\<exists>d \<in> set cs. c = f d)"
  by (induction cs) (auto split: if_splits)

lemma map_number_first_change:
  "(\<And>c. change_number (f c) = change_number c) \<Longrightarrow>
     map change_number (first_change n f cs) = map change_number cs"
  by (induction cs) auto

lemma changes_of_simps:
  "doc_changes (push_change c docs) =
     (if change_number c \<in> change_number ` set (doc_changes docs) then doc_changes docs else doc_changes docs @ [c])"
  "doc_changes (change_of n f docs) = first_change n f (doc_changes docs)"
  by (simp_all add: push_change_def change_of_def)

lemma take_doc_numbers_distinct:
  assumes "distinct (map change_number (doc_changes docs))"
  shows "distinct (map change_number (doc_changes (take_doc docs e)))"
proof (cases "body e")
  case (FolderEvent f)
  then show ?thesis using assms
    by (cases "(e, f, docs)" rule: take_folder_event.cases)
      (auto simp: take_doc_def add_change_def changes_of_simps propose_doc_def Let_def map_number_first_change
        split: option.split)
qed (use assms in \<open>auto simp: take_doc_def changes_of_simps map_number_first_change split: option.split\<close>)

lemma is_open_or_settled: "is_open_proposal r \<longleftrightarrow> proposal_state r \<notin> {ProposalApproved, ProposalReturned}"
  by (cases "proposal_state r") (simp_all add: is_open_proposal_def)

lemma attended_proposals:
  assumes "\<not> is_unattended e" and "r \<in> set (doc_proposals (take_doc docs e))" and "\<not> is_open_proposal r"
  shows "r \<in> set (doc_proposals docs)"
proof -
  have none: "owner_decides n e = None" for n
    using assms(1) by (auto simp: owner_decides_def split: event_body.split folder_event.split)
  from assms(2) consider (old) q where "q \<in> set (doc_proposals docs)" "r = state_after (proposal_number q) e q"
    | (new) "proposal_state r = ProposalPending"
    unfolding take_doc_proposals by (cases "proposal_in e") auto
  then show ?thesis
  proof cases
    case old
    then show ?thesis using assms(3) none
      by (auto simp: state_after_def is_open_proposal_def split: if_splits event_body.splits folder_event.splits)
  next
    case new
    then show ?thesis using assms(3) by (simp add: is_open_proposal_def)
  qed
qed

lemma attended_changes:
  assumes "\<not> is_unattended e" and "c \<in> set (doc_changes (take_doc docs e))"
  shows "(\<exists>d \<in> set (doc_changes docs). change_number d = change_number c
        \<and> change_approved d = change_approved c \<and> change_integrated d = change_integrated c
        \<and> (change_escalated c \<longrightarrow> change_escalated d))
    \<or> \<not> change_approved c \<and> \<not> change_integrated c \<and> \<not> change_escalated c"
proof (cases "body e")
  case (FolderEvent f)
  then show ?thesis using assms
    by (cases "(e, f, docs)" rule: take_folder_event.cases)
      (auto simp: take_doc_def add_change_def changes_of_simps propose_doc_def new_change_def split: if_splits)
next
  case (TeamDecided d)
  then show ?thesis using assms
    by (auto simp: take_doc_def changes_of_simps split: option.splits if_splits dest!: first_change_in)
qed (insert assms, auto simp: take_doc_def)

text \<open>
  C24: No event that an agent or a session records can settle a proposal, approve or integrate a change
  or escalate one: what is settled, approved, integrated or escalated after it was so before it.
\<close>

theorem agents_settle_nothing:
  assumes "\<not> is_unattended e"
  shows "(\<forall>r. r \<in> set (doc_proposals (take_doc docs e)) \<and> \<not> is_open_proposal r
           \<longrightarrow> r \<in> set (doc_proposals docs))
    \<and> (\<forall>c. c \<in> set (doc_changes (take_doc docs e)) \<and> (change_approved c \<or> change_integrated c \<or> change_escalated c)
           \<longrightarrow> (\<exists>d \<in> set (doc_changes docs). change_number d = change_number c
                \<and> change_approved d = change_approved c \<and> change_integrated d = change_integrated c
                \<and> (change_escalated c \<longrightarrow> change_escalated d)))"
  using attended_proposals [OF assms] attended_changes [OF assms] by blast

theorem agents_settle_nothing_witness:
  "let docs = \<lparr>doc_proposals = [], doc_decisions = [],
                doc_changes = [(new_change 4 None [])\<lparr>change_escalated := True\<rparr>, new_change 5 None []]\<rparr>;
       e = \<lparr>seq = 9, recorded_at = 0, ids = \<lparr>about_task = None, by_agent = Some ''ada'', in_session = None\<rparr>,
            body = FolderEvent (FolderChangeIntegrated 4)\<rparr> in
     take_doc docs e = docs \<and> list_all (\<lambda>c. \<not> change_integrated c) (doc_changes (take_doc docs e))"
proof -
  define docs where "docs = \<lparr>doc_proposals = [], doc_decisions = [],
      doc_changes = [(new_change 4 None [])\<lparr>change_escalated := True\<rparr>, new_change 5 None []]\<rparr>"
  define e where "e = \<lparr>seq = 9, recorded_at = 0, ids = \<lparr>about_task = None, by_agent = Some ''ada'', in_session = None\<rparr>,
      body = FolderEvent (FolderChangeIntegrated 4)\<rparr>"
  have "\<not> is_unattended e" by (simp add: e_def is_unattended_def)
  from agents_settle_nothing [OF this, of docs]
  have "c \<in> set (doc_changes (take_doc docs e)) \<Longrightarrow> \<not> change_integrated c" for c
    by (auto simp: docs_def new_change_def)
  moreover have "take_doc docs e = docs" by (simp add: take_doc_def e_def is_unattended_def)
  ultimately show ?thesis unfolding Let_def docs_def [symmetric] e_def [symmetric] by (auto simp: list_all_iff)
qed

end
