(* ===== verification/Team_Log.thy ===== *)
theory Team_Log
  imports Folder_Docs Roster
begin

text \<open>
  What the log says about autopilot (crates/store/src/autopilot.rs): what the team flagged and has not
  been moved since, the questions it asked itself, and how much of its limits it spent. The lemmas
  give each as what its last event says.
\<close>

section \<open>Whether the team decides\<close>

definition team_decides :: "log \<Rightarrow> team \<Rightarrow> bool" where
  "team_decides l t \<longleftrightarrow> (has_active ProductManager t \<or> is_solo t) \<and> autopilot_in l"

section \<open>Flags\<close>

record team_flag =
  flagged_task :: "string option"
  flagged_change :: "nat option"
  flag_needs :: string
  flag_by :: string
  flag_time :: date_time

text \<open>The two maps of \<open>flags\<close>, each flag with the number of its event. The maps keep their entries by
  key and the answer is sorted by those numbers, so a list serves for each.\<close>

type_synonym flag_maps = "(string \<times> nat \<times> team_flag) list \<times> (nat \<times> nat \<times> team_flag) list"

definition map_removed :: "'k \<Rightarrow> ('k \<times> 'v) list \<Rightarrow> ('k \<times> 'v) list" where
  "map_removed k m = filter (\<lambda>x. fst x \<noteq> k) m"

definition map_inserted :: "'k \<Rightarrow> 'v \<Rightarrow> ('k \<times> 'v) list \<Rightarrow> ('k \<times> 'v) list" where
  "map_inserted k v m = map_removed k m @ [(k, v)]"

definition unflag_task :: "event \<Rightarrow> flag_maps \<Rightarrow> flag_maps" where
  "unflag_task e m = (case about_task (ids e) of None \<Rightarrow> m | Some i \<Rightarrow> (map_removed i (fst m), snd m))"

definition change_flag :: "event \<Rightarrow> nat \<Rightarrow> team_decided \<Rightarrow> team_flag" where
  "change_flag e n d =
     \<lparr>flagged_task = None, flagged_change = Some n,
      flag_needs = (case decided_needs d of None \<Rightarrow> decided_reason d | Some s \<Rightarrow> s),
      flag_by = decided_by d, flag_time = recorded_at e\<rparr>"

definition take_decision :: "event \<Rightarrow> team_decided \<Rightarrow> flag_maps \<Rightarrow> flag_maps" where
  "take_decision e d m =
     (case decided_change d of
        Some n \<Rightarrow>
          if decided_choice d = Flag then (fst m, map_inserted n (seq e, change_flag e n d) (snd m))
          else if decided_choice d = RetryFolderChange then (fst m, map_removed n (snd m)) else m
      | None \<Rightarrow> if decided_choice d = Flag then m else unflag_task e m)"

definition take_flag :: "flag_maps \<Rightarrow> event \<Rightarrow> flag_maps" where
  "take_flag m e =
     (case body e of
        TaskFlagged needs by \<Rightarrow>
          (case about_task (ids e) of
             None \<Rightarrow> m
           | Some i \<Rightarrow> (map_inserted i (seq e, \<lparr>flagged_task = Some i, flagged_change = None, flag_needs = needs,
                         flag_by = by, flag_time = recorded_at e\<rparr>) (fst m), snd m))
      | TaskTransitioned _ \<Rightarrow> unflag_task e m
      | EscalationResolved _ _ _ _ \<Rightarrow> unflag_task e m
      | TaskIntegrated \<Rightarrow> unflag_task e m
      | HumanAccepted _ _ \<Rightarrow> unflag_task e m
      | TeamDecided d \<Rightarrow> take_decision e d m
      | FolderEvent (FolderChangeOpened n) \<Rightarrow> (fst m, map_removed n (snd m))
      | FolderEvent (FolderChangeIntegrated n) \<Rightarrow> (fst m, map_removed n (snd m))
      | _ \<Rightarrow> m)"

definition flag_maps_of :: "log \<Rightarrow> flag_maps" where
  "flag_maps_of l = foldl take_flag ([], []) l"

definition flags_of :: "log \<Rightarrow> team_flag list" where
  "flags_of l =
     (let m = flag_maps_of l in map snd (sort_key fst (map snd (fst m) @ map snd (snd m))))"

section \<open>Questions and limits\<close>

record team_question =
  question_seq :: nat
  question_task :: "string option"
  question_words :: string
  question_by :: string
  question_for :: question_about
  question_time :: date_time

definition answers_question :: "event \<Rightarrow> nat option" where
  "answers_question e =
     (case body e of
        WaitingEvent (TeamQuestionAnswered n _ _) \<Rightarrow> Some n
      | WaitingEvent (QuestionAnswered n) \<Rightarrow> Some n
      | _ \<Rightarrow> None)"

definition open_team_questions :: "log \<Rightarrow> team_question list" where
  "open_team_questions l =
     filter_map (\<lambda>e. case body e of
         WaitingEvent (TeamQuestionAsked who words about) \<Rightarrow>
           if seq e \<in> set (filter_map answers_question l) then None
           else Some \<lparr>question_seq = seq e, question_task = about_task (ids e), question_words = words,
                      question_by = who, question_for = about, question_time = recorded_at e\<rparr>
       | _ \<Rightarrow> None) l"

definition spend_choice :: "team_spent \<Rightarrow> decide_choice \<Rightarrow> team_spent" where
  "spend_choice s c =
     (if c \<in> {MoreTries, MoreRoom} then s\<lparr>spent_grants := spent_grants s + 1\<rparr>
      else if c = ReopenIntegration then s\<lparr>spent_reopens := spent_reopens s + 1\<rparr> else s)"

definition decided_in :: "event \<Rightarrow> team_decided option" where
  "decided_in e = (case body e of TeamDecided d \<Rightarrow> Some d | _ \<Rightarrow> None)"

definition team_spent_on :: "log \<Rightarrow> string \<Rightarrow> team_spent" where
  "team_spent_on l i =
     foldl (\<lambda>s e. case decided_in e of None \<Rightarrow> s | Some d \<Rightarrow> spend_choice s (decided_choice d))
       \<lparr>spent_grants = 0, spent_reopens = 0\<rparr> (history_of l i)"

definition retries_of :: "nat \<Rightarrow> event \<Rightarrow> bool" where
  "retries_of n e =
     (case decided_in e of None \<Rightarrow> False
      | Some d \<Rightarrow> decided_choice d = RetryFolderChange \<and> decided_change d = Some n)"

definition folder_change_spent :: "log \<Rightarrow> nat \<Rightarrow> team_spent" where
  "folder_change_spent l n =
     \<lparr>spent_grants = 0, spent_reopens = u32_of (length (filter (retries_of n) l))\<rparr>"

section \<open>Reading them\<close>

text \<open>What one event does to a task's flag: it raises it, it ends it, or nothing.\<close>

definition flag_change :: "string \<Rightarrow> event \<Rightarrow> bool option" where
  "flag_change i e =
     (if about_task (ids e) \<noteq> Some i then None
      else case body e of
        TaskFlagged _ _ \<Rightarrow> Some True
      | TaskTransitioned _ \<Rightarrow> Some False
      | EscalationResolved _ _ _ _ \<Rightarrow> Some False
      | TaskIntegrated \<Rightarrow> Some False
      | HumanAccepted _ _ \<Rightarrow> Some False
      | TeamDecided d \<Rightarrow> if decided_change d = None \<and> decided_choice d \<noteq> Flag then Some False else None
      | _ \<Rightarrow> None)"

lemma map_removed_keys [simp]: "fst ` set (map_removed k m) = fst ` set m - {k}"
  by (auto simp: map_removed_def)

lemma map_inserted_keys [simp]: "fst ` set (map_inserted k v m) = insert k (fst ` set m)"
  by (auto simp: map_inserted_def)

lemma take_flag_task:
  "i \<in> fst ` set (fst (take_flag m e)) \<longleftrightarrow>
     (case flag_change i e of None \<Rightarrow> i \<in> fst ` set (fst m) | Some raised \<Rightarrow> raised)"
proof (cases "body e")
  case (FolderEvent f)
  then show ?thesis by (cases f) (simp_all add: take_flag_def flag_change_def)
next
  case (TeamDecided d)
  then show ?thesis
    by (auto simp: take_flag_def flag_change_def take_decision_def unflag_task_def split: option.split)
qed (auto simp: take_flag_def flag_change_def unflag_task_def split: option.split)

lemma flag_maps_snoc: "flag_maps_of (l @ [e]) = take_flag (flag_maps_of l) e"
  by (simp add: flag_maps_of_def)

definition keyed_flags :: "flag_maps \<Rightarrow> bool" where
  "keyed_flags m \<longleftrightarrow>
     (\<forall>x \<in> set (fst m). flagged_task (snd (snd x)) = Some (fst x) \<and> flagged_change (snd (snd x)) = None)
     \<and> (\<forall>x \<in> set (snd m). flagged_task (snd (snd x)) = None \<and> flagged_change (snd (snd x)) = Some (fst x))"

lemma keyed_removed:
  assumes "keyed_flags m"
  shows "keyed_flags (map_removed i (fst m), snd m)" "keyed_flags (fst m, map_removed n (snd m))"
  using assms by (auto simp: keyed_flags_def map_removed_def)

lemma keyed_take_flag:
  assumes "keyed_flags m"
  shows "keyed_flags (take_flag m e)"
proof -
  have un: "keyed_flags (unflag_task e m)"
    using assms keyed_removed(1) by (auto simp: unflag_task_def split: option.split)
  show ?thesis
  proof (cases "body e")
    case (FolderEvent f)
    then show ?thesis using assms keyed_removed(2) by (cases f) (simp_all add: take_flag_def)
  next
    case (TeamDecided d)
    have "keyed_flags (fst m, map_inserted n (seq e, change_flag e n d) (snd m))" for n
      using assms by (auto simp: keyed_flags_def map_inserted_def map_removed_def change_flag_def)
    then show ?thesis using assms TeamDecided un keyed_removed(2)
      by (auto simp: take_flag_def take_decision_def split: option.split)
  next
    case (TaskFlagged needs who)
    then show ?thesis using assms
      by (auto simp: take_flag_def keyed_flags_def map_inserted_def map_removed_def split: option.split)
  qed (use assms un in \<open>simp_all add: take_flag_def\<close>)
qed

lemma keyed_flag_maps: "keyed_flags (flag_maps_of l)"
proof (induction l rule: rev_induct)
  case Nil
  then show ?case by (simp add: flag_maps_of_def keyed_flags_def)
qed (simp add: flag_maps_snoc keyed_take_flag)

lemma set_flags_of:
  "set (flags_of l) = (snd \<circ> snd) ` (set (fst (flag_maps_of l))) \<union> (snd \<circ> snd) ` (set (snd (flag_maps_of l)))"
  by (simp add: flags_of_def Let_def image_Un image_image comp_def)

definition is_flagged :: "log \<Rightarrow> string \<Rightarrow> bool" where
  "is_flagged l i = list_ex (\<lambda>f. flagged_task f = Some i) (flags_of l)"

lemma is_flagged_keys: "is_flagged l i \<longleftrightarrow> i \<in> fst ` set (fst (flag_maps_of l))"
proof
  assume "is_flagged l i"
  then obtain f where f: "f \<in> set (flags_of l)" "flagged_task f = Some i" by (auto simp: is_flagged_def list_ex_iff)
  from f(1) consider (task) x where "x \<in> set (fst (flag_maps_of l))" "f = snd (snd x)"
    | (change) y where "y \<in> set (snd (flag_maps_of l))" "f = snd (snd y)"
    unfolding set_flags_of by auto
  then show "i \<in> fst ` set (fst (flag_maps_of l))"
  proof cases
    case task
    then have "fst x = i" using f(2) keyed_flag_maps [of l] by (simp add: keyed_flags_def)
    then show ?thesis using task(1) by blast
  next
    case change
    then show ?thesis using f(2) keyed_flag_maps [of l] by (simp add: keyed_flags_def)
  qed
next
  assume "i \<in> fst ` set (fst (flag_maps_of l))"
  then obtain n f where x: "(i, n, f) \<in> set (fst (flag_maps_of l))" by auto
  then have "flagged_task f = Some i" using keyed_flag_maps [of l] by (force simp: keyed_flags_def)
  moreover have "f \<in> set (flags_of l)" using x by (force simp: set_flags_of)
  ultimately show "is_flagged l i" by (auto simp: is_flagged_def list_ex_iff)
qed

lemma is_flagged_snoc:
  "is_flagged (l @ [e]) i \<longleftrightarrow> (case flag_change i e of None \<Rightarrow> is_flagged l i | Some raised \<Rightarrow> raised)"
  unfolding is_flagged_keys flag_maps_snoc take_flag_task ..

text \<open>
  C25: A task's flag stands exactly while the last event about it that says anything of flags raised it:
  a later move, resolution, integration, acceptance or decision other than \<open>flag\<close> ends it.
\<close>

theorem flag_stands_until_it_ends:
  "is_flagged l i \<longleftrightarrow> find_map (flag_change i) (rev l) = Some True"
proof (induction l rule: rev_induct)
  case Nil
  then show ?case by (simp add: is_flagged_keys flag_maps_of_def)
qed (auto simp: is_flagged_snoc split: option.split)

end
