(* ===== verification/Deciding.thy ===== *)
theory Deciding
  imports Team_Log Assigning Branches
begin

text \<open>
  The team decides in the owner's place while autopilot is on: what a task waits for
  (crates/runtime/src/ceremonies.rs, crates/runtime/src/choices.rs), who decides
  (crates/runtime/src/goals.rs, \<open>planner\<close>), and the tools of a decide session
  (crates/runtime/src/tools/decide.rs). A tool's refusal is a value beside the errors of the door, and
  what was recorded before a refusal stays recorded.
\<close>

section \<open>What a task waits for\<close>

fun reason_wire :: "escalation_reason \<Rightarrow> string" where
  "reason_wire BudgetReason = ''budget''"
| "reason_wire SessionsReason = ''sessions''"
| "reason_wire IterationsReason = ''iterations''"
| "reason_wire BlockerAge = ''blocker_age''"
| "reason_wire PermissionReason = ''permission''"
| "reason_wire RiskGate = ''risk_gate''"
| "reason_wire Approval = ''approval''"
| "reason_wire ReadinessFailures = ''readiness_failures''"
| "reason_wire Integration = ''integration''"
| "reason_wire ExplicitRequest = ''explicit_request''"
| "reason_wire PreviewReason = ''preview''"

record open_escalation =
  open_task :: string
  open_title :: string
  open_reason :: string
  open_detail :: string
  open_seq :: nat
  open_time :: date_time

text \<open>The last event that \<open>P\<close> holds of, and the events after it.\<close>

definition last_where :: "(event \<Rightarrow> bool) \<Rightarrow> log \<Rightarrow> (event \<times> log) option" where
  "last_where P l =
     (case dropWhile (\<lambda>e. \<not> P e) (rev l) of
        [] \<Rightarrow> None | e # _ \<Rightarrow> Some (e, rev (takeWhile (\<lambda>e. \<not> P e) (rev l))))"

definition escalation_counts :: "task_status \<Rightarrow> event \<Rightarrow> bool" where
  "escalation_counts st e =
     (case body e of
        WaitingEvent (EscalationRaised reason _) \<Rightarrow> st = Escalated \<or> reason = Integration
      | _ \<Rightarrow> False)"

definition reopens_integration :: "event \<Rightarrow> bool" where
  "reopens_integration e =
     (case decided_in e of None \<Rightarrow> False | Some d \<Rightarrow> decided_choice d = ReopenIntegration)"

definition open_escalation_of :: "log \<Rightarrow> board_row \<Rightarrow> open_escalation option" where
  "open_escalation_of l own =
     (if b_status own \<notin> {Escalated, Accepted} then None
      else
        let history = history_of l (b_task own);
            since = (if b_status own = Accepted
                     then (case last_where (is_move_into Accepted) history of
                             None \<Rightarrow> history | Some (_, later) \<Rightarrow> later)
                     else history) in
        (case last_where (escalation_counts (b_status own)) since of
           None \<Rightarrow> None
         | Some (e, later) \<Rightarrow>
             if b_status own = Accepted
                \<and> (list_ex (\<lambda>x. body x = TaskIntegrated) later \<or> list_ex reopens_integration later)
             then None
             else (case body e of
                     WaitingEvent (EscalationRaised reason detail) \<Rightarrow>
                       Some \<lparr>open_task = b_task own, open_title = b_title own, open_reason = reason_wire reason,
                             open_detail = detail, open_seq = seq e, open_time = recorded_at e\<rparr>
                   | _ \<Rightarrow> None)))"

definition open_escalations :: "log \<Rightarrow> board_row list \<Rightarrow> open_escalation list" where
  "open_escalations l rows = sort_key open_seq (filter_map (open_escalation_of l) rows)"

definition BLOCKED :: string where "BLOCKED = ''blocked''"

record task_waits =
  wait_reason :: string
  wait_before :: "task_status option"
  wait_blocked_from :: "task_status option"

definition from_of_last_move :: "log \<Rightarrow> task_status \<Rightarrow> task_status option" where
  "from_of_last_move history st =
     (case last_move_into history st of None \<Rightarrow> None | Some e \<Rightarrow> move_from_body (body e))"

definition row_of_task :: "world \<Rightarrow> project \<Rightarrow> string \<Rightarrow> (door_error, board_row option) result" where
  "row_of_task w p i = stored (task_on (sum_usd_of w) (tables_of p) i)"

definition waits_of :: "world \<Rightarrow> project \<Rightarrow> string \<Rightarrow> (door_error, task_waits option) result" where
  "waits_of w p i =
     and_then (row_of_task w p i) (\<lambda>row.
     and_then (board_of w p) (\<lambda>rows.
     let is_blocked = (case row of None \<Rightarrow> False | Some r \<Rightarrow> b_status r = Blocked);
         reason = (case List.find (\<lambda>x. open_task x = i) (open_escalations (log_of p) rows) of
             Some x \<Rightarrow> Some (open_reason x)
           | None \<Rightarrow> if is_blocked then Some BLOCKED else None);
         history = history_of (log_of p) i;
         before = from_of_last_move history Escalated in
     Inr (map_option (\<lambda>why. \<lparr>wait_reason = why, wait_before = before,
         wait_blocked_from = (if is_blocked \<or> before = Some Blocked
                              then from_of_last_move history Blocked else None)\<rparr>) reason)))"

text \<open>\<open>awaits_acceptance\<close> (crates/store/src/waiting.rs): a result that waits on the owner.\<close>

definition awaits_acceptance :: "project \<Rightarrow> board_row \<Rightarrow> (door_error, bool) result" where
  "awaits_acceptance p own =
     (if b_status own \<noteq> Verifying then Inr False
      else and_then (read_contract (files_of p) (b_task own)) (\<lambda>file.
        let contract = file\<lparr>status := b_status own\<rparr> in
        Inr (result_awaits_human contract
             \<and> (kind_of contract = Epic \<or> review_passed_in (history_of (log_of p) (b_task own))))))"

definition planner :: "team \<Rightarrow> agent option" where
  "planner t =
     (if is_solo t then (case active_members t of [] \<Rightarrow> None | a # _ \<Rightarrow> Some a)
      else List.find (\<lambda>a. agent_role a = ProductManager) (active_members t))"

section \<open>The tools\<close>

datatype decide_refusal =
    AutopilotOff | NotYoursToDecide | ReasonRequired | NameOne | NotWaitingOnTheTeam
  | ChoiceNotOffered string "decide_choice list" | AnswerRequired | NeedsRequired
  | NotATaskId string | NoSuchTask string | UnfitWords
  | NotAwaitingApproval task_status | NotWaitingForTheHuman task_status | AlreadyAccepted
  | CriteriaNotRun "string list" | CriterionFailed "string list"
  | GovernorRefused transition_refusal
  | NotATeamQuestion nat | AlreadyAnswered nat | PutTo role

type_synonym 'a tool = "(decide_refusal, 'a) result door"

definition tool_answer :: "'a \<Rightarrow> 'a tool" where
  "tool_answer a = answer (Inr a)"

definition refuse_tool :: "decide_refusal \<Rightarrow> 'a tool" where
  "refuse_tool no = answer (Inl no)"

definition tool_then :: "'a tool \<Rightarrow> ('a \<Rightarrow> 'b tool) \<Rightarrow> 'b tool" where
  "tool_then m f = door_then m (\<lambda>r. case r of Inl no \<Rightarrow> refuse_tool no | Inr a \<Rightarrow> f a)"

definition unless_then :: "bool \<Rightarrow> decide_refusal \<Rightarrow> 'a tool \<Rightarrow> 'a tool" where
  "unless_then ok no m = (if ok then m else refuse_tool no)"

record tool_call =
  caller :: string
  caller_role :: role
  caller_session :: string
  caller_team :: team

text \<open>\<open>Call::append\<close>: the event is stamped with the agent, its session and the task.\<close>

definition call_append :: "world \<Rightarrow> tool_call \<Rightarrow> string \<Rightarrow> event_body \<Rightarrow> unit tool" where
  "call_append w k i b =
     door_then (append_about w i (Some (caller k)) (Some (caller_session k)) b) tool_answer"

definition append_untasked :: "world \<Rightarrow> string option \<Rightarrow> string option \<Rightarrow> event_body \<Rightarrow> unit door" where
  "append_untasked w who sess b =
     door_then (read_clock w) (\<lambda>now.
     door_then (log_event w now \<lparr>about_task = None, by_agent = who, in_session = sess\<rparr> b) (project_event w))"

definition call_append_untasked :: "world \<Rightarrow> tool_call \<Rightarrow> event_body \<Rightarrow> unit tool" where
  "call_append_untasked w k b =
     door_then (append_untasked w (Some (caller k)) (Some (caller_session k)) b) tool_answer"

definition ask_of_the_planner :: "tool_call \<Rightarrow> string \<Rightarrow> task_status \<Rightarrow> transition_request" where
  "ask_of_the_planner k i to =
     \<lparr>asked_task = i, asked_to = to, asked_actor = ProductManagerActor, asked_agent = Some (caller k)\<rparr>"

definition ask_governor ::
  "world \<Rightarrow> tool_call \<Rightarrow> string \<Rightarrow> task_status \<Rightarrow> transition_ask \<Rightarrow> task_status tool" where
  "ask_governor w k i to ask =
     door_then (request w (ask_of_the_planner k i to) (ask\<lparr>ask_session := Some (caller_session k)\<rparr>)
                  (caller_team k))
       (\<lambda>out. case out of MovedTo d \<Rightarrow> tool_answer (decided_to d) | RefusedFor no \<Rightarrow> refuse_tool (GovernorRefused no))"

text \<open>\<open>move_the_task\<close>: the room first, then the governor's move, then the resolution.\<close>

definition grant_room :: "world \<Rightarrow> tool_call \<Rightarrow> string \<Rightarrow> bool \<Rightarrow> unit tool" where
  "grant_room w k i room =
     (if room
      then door_then (reading (\<lambda>p. read_contract (files_of p) i)) (\<lambda>contract.
             call_append w k i (TaskRoomGranted (unat (max_sessions (contract_budget contract)))
                                  (max_cost_usd (contract_budget contract))))
      else tool_answer ())"

definition move_the_task ::
  "world \<Rightarrow> tool_call \<Rightarrow> string \<Rightarrow> task_status \<Rightarrow> nat option \<Rightarrow> bool \<Rightarrow> transition_ask \<Rightarrow> string \<Rightarrow> unit tool" where
  "move_the_task w k i st extra room ask message =
     tool_then (grant_room w k i room) (\<lambda>_.
     tool_then (ask_governor w k i st ask) (\<lambda>_.
     call_append w k i (EscalationResolved st message (caller k)
       (case extra of None \<Rightarrow> None | Some n \<Rightarrow> if n = 0 then None else Some n))))"

text \<open>The schema's bounds on a decision's words, which \<open>from_value\<close> checks.\<close>

definition fits :: "nat \<Rightarrow> string option \<Rightarrow> bool" where
  "fits most s = (case s of None \<Rightarrow> True | Some x \<Rightarrow> x \<noteq> [] \<and> length x \<le> most)"

definition decision_fits :: "team_decided \<Rightarrow> bool" where
  "decision_fits d \<longleftrightarrow> fits 600 (Some (decided_reason d)) \<and> fits 4000 (decided_answer d) \<and> fits 300 (decided_needs d)"

definition record_decision ::
  "world \<Rightarrow> tool_call \<Rightarrow> string \<Rightarrow> decide_choice \<Rightarrow> string \<Rightarrow> string option \<Rightarrow> string option \<Rightarrow> unit tool" where
  "record_decision w k i c reason ans needs =
     (let d = \<lparr>decided_choice = c, decided_reason = reason, decided_by = caller k, decided_answer = ans,
               decided_needs = needs, decided_change = None\<rparr> in
      unless_then (decision_fits d) UnfitWords
        (tool_then (call_append w k i (TeamDecided d)) (\<lambda>_.
         case needs of
           None \<Rightarrow> tool_answer ()
         | Some what \<Rightarrow> unless_then (fits 300 (Some what)) UnfitWords
             (call_append w k i (TaskFlagged what (caller k))))))"

definition approve_plan :: "world \<Rightarrow> tool_call \<Rightarrow> string \<Rightarrow> board_row \<Rightarrow> string \<Rightarrow> unit tool" where
  "approve_plan w k i own reason =
     unless_then (b_awaiting_approval own) (NotAwaitingApproval (b_status own))
       (tool_then (call_append w k i (HumanAccepted AcceptedContract (Some reason))) (\<lambda>_.
        tool_then (ask_governor w k i Ready no_ask) (\<lambda>_. tool_answer ())))"

text \<open>Catervas's own results of an epic's criteria since it last entered \<open>verifying\<close>
  (crates/runtime/src/orchestrator/verify.rs), and whether every mechanical one passed.\<close>

definition is_mechanical :: "exit_criterion \<Rightarrow> bool" where
  "is_mechanical c \<longleftrightarrow> criterion_method c \<in> {Some ''command'', Some ''test'', Some ''artifact''}"

definition take_governor_result :: "criterion_result list \<Rightarrow> event \<Rightarrow> criterion_result list" where
  "take_governor_result rs e =
     (case body e of
        CriterionRecorded cid ok said by who \<Rightarrow>
          if who = ''governor''
          then filter (\<lambda>r. result_criterion_id r \<noteq> cid) rs
               @ [\<lparr>result_criterion_id = cid, passed = ok, evidence_text = said, result_run_by = ByReviewer\<rparr>]
          else rs
      | _ \<Rightarrow> rs)"

definition governor_results :: "log \<Rightarrow> nat \<Rightarrow> criterion_result list" where
  "governor_results history since =
     foldl take_governor_result [] (filter (\<lambda>e. since < seq e \<and> by_agent (ids e) = None) history)"

definition mechanical_criteria_passed :: "task_contract \<Rightarrow> log \<Rightarrow> (decide_refusal, unit) result" where
  "mechanical_criteria_passed contract history =
     (let rs = governor_results history (seq_of_last_move history Verifying);
          mechanical = map criterion_id (filter is_mechanical (exit_criteria contract));
          not_run = filter (\<lambda>i. \<not> list_ex (\<lambda>r. result_criterion_id r = i) rs) mechanical;
          failed = map result_criterion_id
            (filter (\<lambda>r. result_criterion_id r \<in> set mechanical \<and> \<not> passed r) rs) in
      if not_run \<noteq> [] then Inl (CriteriaNotRun not_run)
      else if failed \<noteq> [] then Inl (CriterionFailed failed) else Inr ())"

text \<open>The checks of \<open>accept_result\<close>, over the contract as the board shows it.\<close>

definition may_accept :: "task_contract \<Rightarrow> log \<Rightarrow> (decide_refusal, unit) result" where
  "may_accept contract history =
     (if result_accepted history \<noteq> None then Inl AlreadyAccepted
      else if kind_of contract = Epic then mechanical_criteria_passed contract history
      else if \<not> result_awaits_human contract then Inl (NotWaitingForTheHuman (status contract))
      else Inr ())"

definition accept_result :: "world \<Rightarrow> tool_call \<Rightarrow> string \<Rightarrow> board_row \<Rightarrow> string \<Rightarrow> unit tool" where
  "accept_result w k i own reason =
     unless_then (b_status own = Verifying) (NotWaitingForTheHuman (b_status own))
       (door_then (reading (\<lambda>p. read_contract (files_of p) i)) (\<lambda>file.
        door_then (reading (\<lambda>p. Inr (history_of (log_of p) i))) (\<lambda>history.
        tool_then (answer (may_accept (file\<lparr>status := b_status own\<rparr>) history)) (\<lambda>_.
        call_append w k i (HumanAccepted AcceptedResult (Some reason))))))"

section \<open>A decision\<close>

record decide_input =
  in_task :: "string option"
  in_change :: "nat option"
  in_choice :: string
  in_reason :: string
  in_answer :: "string option"
  in_needs :: "string option"

datatype decide_answer = DecidedTask decide_choice string | DecidedChange decide_choice nat

definition written_words :: "string option \<Rightarrow> nat \<Rightarrow> string option" where
  "written_words said most =
     (case map_option trim said of
        None \<Rightarrow> None | Some s \<Rightarrow> if s \<noteq> [] \<and> length s \<le> most then Some s else None)"

text \<open>A text only one choice takes, refused when that choice is made without it.\<close>

definition with_words ::
  "bool \<Rightarrow> string option \<Rightarrow> nat \<Rightarrow> decide_refusal \<Rightarrow> (string option \<Rightarrow> 'a tool) \<Rightarrow> 'a tool" where
  "with_words wanted said most no f =
     (if wanted then (case written_words said most of None \<Rightarrow> refuse_tool no | Some s \<Rightarrow> f (Some s)) else f None)"

definition offered_choice :: "string \<Rightarrow> decide_choice list \<Rightarrow> decide_choice option" where
  "offered_choice said offered =
     (case choice_from_wire said of None \<Rightarrow> None | Some c \<Rightarrow> if c \<in> set offered then Some c else None)"

definition change_waits :: "log \<Rightarrow> nat \<Rightarrow> bool" where
  "change_waits l n \<longleftrightarrow>
     list_ex (\<lambda>h. change_number h = n \<and> change_escalated h \<and> \<not> change_integrated h) (doc_changes (folder_docs_of l))
     \<and> \<not> list_ex (\<lambda>f. flagged_change f = Some n) (flags_of l)"

definition decide_folder_change ::
  "world \<Rightarrow> tool_call \<Rightarrow> nat \<Rightarrow> decide_input \<Rightarrow> string \<Rightarrow> decide_answer tool" where
  "decide_folder_change w k n input reason =
     door_then (reading (\<lambda>p. Inr (log_of p))) (\<lambda>l.
     unless_then (change_waits l n) NotWaitingOnTheTeam
       (let offered = choices_for ''folder_change'' None None (folder_change_spent l n) in
        case offered_choice (in_choice input) offered of
          None \<Rightarrow> refuse_tool (ChoiceNotOffered (in_choice input) offered)
        | Some c \<Rightarrow>
            with_words (c = Flag) (in_needs input) 300 NeedsRequired (\<lambda>needs.
              let d = \<lparr>decided_choice = c, decided_reason = reason, decided_by = caller k,
                       decided_answer = None, decided_needs = needs, decided_change = Some n\<rparr> in
              unless_then (decision_fits d) UnfitWords
                (tool_then (call_append_untasked w k (TeamDecided d)) (\<lambda>_. tool_answer (DecidedChange c n))))))"

definition wait_of_task :: "world \<Rightarrow> project \<Rightarrow> string \<Rightarrow> board_row \<Rightarrow> (door_error, task_waits option) result" where
  "wait_of_task w p i own =
     (if is_flagged (log_of p) i then Inr None
      else and_then (waits_of w p i) (\<lambda>wait.
        case wait of
          Some x \<Rightarrow> Inr (Some x)
        | None \<Rightarrow> and_then (awaits_acceptance p own) (\<lambda>yes.
            Inr (if yes then Some \<lparr>wait_reason = ''acceptance'', wait_before = None, wait_blocked_from = None\<rparr>
                 else None))))"

text \<open>What a choice does, before it is recorded.\<close>

definition carry_out ::
  "world \<Rightarrow> tool_call \<Rightarrow> string \<Rightarrow> board_row \<Rightarrow> decide_refusal \<Rightarrow> decide_move option \<Rightarrow> string \<Rightarrow> string option \<Rightarrow> unit tool" where
  "carry_out w k i own no m reason ans =
     (case m of
        Some (MoveTo st extra room) \<Rightarrow>
          let said = (case ans of None \<Rightarrow> reason | Some a \<Rightarrow> a) in
          move_the_task w k i st extra room
            (no_ask\<lparr>ask_reason := Some said, ask_grants_tries := (extra \<noteq> None),
                    ask_resolution := (if b_status own = Blocked then Some said else None)\<rparr>) said
      | Some ReopenMove \<Rightarrow> tool_answer ()
      | Some FlagMove \<Rightarrow> tool_answer ()
      | Some ApprovePlanMove \<Rightarrow> approve_plan w k i own reason
      | Some AcceptResultMove \<Rightarrow> accept_result w k i own reason
      | Some RetryFolderChangeMove \<Rightarrow> refuse_tool no
      | None \<Rightarrow> refuse_tool no)"

text \<open>The part of \<open>decide_task\<close> after the choice is known to be offered.\<close>

definition make_choice ::
  "world \<Rightarrow> tool_call \<Rightarrow> string \<Rightarrow> decide_input \<Rightarrow> string \<Rightarrow> board_row \<Rightarrow> task_waits \<Rightarrow> decide_refusal \<Rightarrow> decide_choice
     \<Rightarrow> decide_answer tool" where
  "make_choice w k i input reason own x no c =
     with_words (c = AnswerBlock) (in_answer input) 4000 AnswerRequired (\<lambda>ans.
     with_words (c = Flag) (in_needs input) 300 NeedsRequired (\<lambda>needs.
     tool_then (carry_out w k i own no (move_of c (wait_before x) (wait_blocked_from x)) reason ans) (\<lambda>_.
     tool_then (record_decision w k i c reason ans needs) (\<lambda>_. tool_answer (DecidedTask c i)))))"

definition decide_task ::
  "world \<Rightarrow> tool_call \<Rightarrow> string \<Rightarrow> decide_input \<Rightarrow> string \<Rightarrow> decide_answer tool" where
  "decide_task w k i input reason =
     unless_then (is_task_id i) (NotATaskId i)
       (door_then (reading (\<lambda>p. row_of_task w p i)) (\<lambda>r. case r of None \<Rightarrow> refuse_tool (NoSuchTask i) | Some own \<Rightarrow>
        door_then (reading (\<lambda>p. wait_of_task w p i own)) (\<lambda>wait. case wait of
            None \<Rightarrow> refuse_tool NotWaitingOnTheTeam
          | Some x \<Rightarrow>
        door_then (reading (\<lambda>p. Inr (team_spent_on (log_of p) i))) (\<lambda>spent.
        let offered = choices_for (wait_reason x) (wait_before x) (wait_blocked_from x) spent;
            no = ChoiceNotOffered (in_choice input) offered in
        case offered_choice (in_choice input) offered of
          None \<Rightarrow> refuse_tool no
        | Some c \<Rightarrow> make_choice w k i input reason own x no c))))"

definition decide_tool :: "world \<Rightarrow> tool_call \<Rightarrow> decide_input \<Rightarrow> decide_answer tool" where
  "decide_tool w k input =
     door_then (reading (\<lambda>p. Inr (team_decides (log_of p) (caller_team k)))) (\<lambda>on.
     unless_then on AutopilotOff
     (unless_then (map_option agent_id (planner (caller_team k)) = Some (caller k)) NotYoursToDecide
     (let reason = trim (in_reason input) in
      unless_then (reason \<noteq> [] \<and> length reason \<le> 600) ReasonRequired
      (case (in_task input, in_change input) of
         (Some i, None) \<Rightarrow> decide_task w k i input reason
       | (None, Some n) \<Rightarrow> decide_folder_change w k n input reason
       | _ \<Rightarrow> refuse_tool NameOne))))"

definition asked_in :: "event \<Rightarrow> (string \<times> question_about) option" where
  "asked_in e = (case body e of WaitingEvent (TeamQuestionAsked who _ about) \<Rightarrow> Some (who, about) | _ \<Rightarrow> None)"

definition answer_question :: "world \<Rightarrow> tool_call \<Rightarrow> nat \<Rightarrow> string \<Rightarrow> nat tool" where
  "answer_question w k n said =
     door_then (reading (\<lambda>p. Inr (log_of p))) (\<lambda>l.
     case List.find (\<lambda>e. asked_in e \<noteq> None \<and> seq e = n) l of
       None \<Rightarrow> refuse_tool (NotATeamQuestion n)
     | Some e \<Rightarrow>
         (case asked_in e of
            None \<Rightarrow> refuse_tool (NotATeamQuestion n)
          | Some (who, about) \<Rightarrow>
              unless_then (n \<notin> set (filter_map answers_question l)) (AlreadyAnswered n)
              (let asker = (case agent_named (caller_team k) who of None \<Rightarrow> SoftwareDeveloper | Some a \<Rightarrow> agent_role a);
                   r = answerer about asker (has_active Architect (caller_team k)) in
               unless_then (caller_role k = r) (PutTo r)
               (unless_then (fits 4000 (Some said)) UnfitWords
                 (let b = WaitingEvent (TeamQuestionAnswered n said (caller k)) in
                  tool_then (case about_task (ids e) of
                      None \<Rightarrow> call_append_untasked w k b | Some i \<Rightarrow> call_append w k i b)
                    (\<lambda>_. tool_answer n))))))"

section \<open>The flags of Catervas\<close>

text \<open>What Catervas flags in its own name, when the team's sessions decided nothing
  (crates/runtime/src/orchestrator/autopilot.rs): a task, by a flag, or a folder change, by a decision.\<close>

definition flag_by_catervas :: "world \<Rightarrow> string \<Rightarrow> string \<Rightarrow> unit door" where
  "flag_by_catervas w i needs = append_about w i None None (TaskFlagged needs ''catervas'')"

definition change_flagged_by_catervas :: "nat \<Rightarrow> team_decided" where
  "change_flagged_by_catervas n =
     \<lparr>decided_choice = Flag, decided_reason = ''The team could not decide it in three sessions.'',
      decided_by = ''catervas'', decided_answer = None,
      decided_needs = Some ''a decision the team could not make'', decided_change = Some n\<rparr>"

definition flag_folder_change_by_catervas :: "world \<Rightarrow> nat \<Rightarrow> unit door" where
  "flag_folder_change_by_catervas w n =
     append_untasked w None None (TeamDecided (change_flagged_by_catervas n))"

end
