(* ===== verification/Team_Decisions.thy ===== *)
theory Team_Decisions
  imports Deciding
begin

text \<open>
  What a decision records. Whatever a decide session answers, it leaves the project current and adds
  events about one task, or one event about a folder change; a decision that is answered was offered
  within the team's limits. Over any run of the door and of decide sessions no task is given more than
  three grants by the team.
\<close>

section \<open>What an operation records\<close>

text \<open>\<open>records i P m\<close>: whatever \<open>m\<close> answers, the tables left behind apart, the project stays current and gains events about the task
  \<open>i\<close> only, each with a body of \<open>P\<close>. Unlike \<open>logging\<close> it may change the contract files.\<close>

definition records :: "string \<Rightarrow> (event_body \<Rightarrow> bool) \<Rightarrow> 'a door \<Rightarrow> bool" where
  "records i P m \<longleftrightarrow>
     (\<forall>p r q. current p \<longrightarrow> m p = (r, q) \<longrightarrow> \<not> left_behind r \<longrightarrow> (\<exists>bs. recorded p i bs q \<and> list_all P bs))"

named_theorems recording

lemma recordsD: "records i P m \<Longrightarrow> current p \<Longrightarrow> m p = (r, q) \<Longrightarrow> \<not> left_behind r \<Longrightarrow> \<exists>bs. recorded p i bs q \<and> list_all P bs"
  by (simp add: records_def)

lemma logging_records: "logging i P m \<Longrightarrow> records i P m"
  by (auto simp: logging_def records_def)

lemma records_answer [recording]: "records i P (answer a)" "records i P (reading g)"
  by (simp_all add: logging_records logging_answer logging_reading)

lemma records_then [recording]:
  assumes "records i P m" and "\<And>a. records i P (f a)"
  shows "records i P (door_then m f)"
  unfolding records_def
proof (intro allI impI)
  fix p r q
  assume p: "current p" and run: "door_then m f p = (r, q)" and kept: "\<not> left_behind r"
  from run show "\<exists>bs. recorded p i bs q \<and> list_all P bs"
  proof (cases rule: door_then_cases)
    case (failed e)
    then have "\<not> left_behind (Inl e :: (door_error, 'a) result)" using kept by (simp add: left_behind_iff)
    then show ?thesis using recordsD [OF assms(1) p failed(1)] by blast
  next
    case (went a u)
    obtain bs where bs: "recorded p i bs u" "list_all P bs" using recordsD [OF assms(1) p went(1)] by auto
    obtain cs where cs: "recorded u i cs q" "list_all P cs"
      using recordsD [OF assms(2) recorded_current [OF bs(1)] went(2) kept] by blast
    show ?thesis using recorded_trans [OF bs(1) cs(1)] bs(2) cs(2) by (intro exI [of _ "bs @ cs"] conjI) auto
  qed
qed

lemma records_tool_answer [recording]: "records i P (tool_answer a)" "records i P (refuse_tool no)"
  by (simp_all add: tool_answer_def refuse_tool_def recording)

lemma records_tool_then [recording]:
  "records i P m \<Longrightarrow> (\<And>a. records i P (f a)) \<Longrightarrow> records i P (tool_then m f)"
  by (auto simp: tool_then_def intro!: recording split: sum.split)

lemma records_unless [recording]: "records i P m \<Longrightarrow> records i P (unless_then ok no m)"
  by (simp add: unless_then_def recording)

lemma records_with_words [recording]:
  "(\<And>s. records i P (f s)) \<Longrightarrow> records i P (with_words asked said most no f)"
  by (auto simp: with_words_def intro!: recording split: option.split)

lemma records_call_append [recording]: "P b \<Longrightarrow> records i P (call_append w k i b)"
  unfolding call_append_def by (intro recording logging_records logging_append_about)

definition undecided :: "event_body \<Rightarrow> bool" where
  "undecided b \<longleftrightarrow> (\<forall>d. b \<noteq> TeamDecided d)"

lemma door_note_undecided: "list_all door_note bs \<Longrightarrow> list_all undecided bs"
  by (auto simp: list_all_iff undecided_def)

lemma records_request [recording]: "asked_task rq = i \<Longrightarrow> records i undecided (request w rq ask t)"
  unfolding records_def
proof (intro allI impI)
  fix p r q
  assume i: "asked_task rq = i" and p: "current p" and run: "request w rq ask t p = (r, q)" and "\<not> left_behind r"
  from p run show "\<exists>bs. recorded p i bs q \<and> list_all undecided bs"
  proof (cases rule: request_cases)
    case noted
    then show ?thesis using i door_note_undecided by (auto simp: only_noted_def)
  next
    case (cut d x e)
    then show ?thesis using i door_note_undecided by (auto simp: only_noted_def)
  next
    case (moved d x)
    then obtain before after m where
      "recorded p i (before @ TaskTransitioned m # after) q" "list_all door_note (before @ after)"
      using i by (auto simp: move_recorded_def)
    then show ?thesis using door_note_undecided by (fastforce simp: undecided_def)
  qed (use \<open>\<not> left_behind r\<close> in simp)
qed

lemma records_ask_governor [recording]: "records i undecided (ask_governor w k i st ask)"
  unfolding ask_governor_def
  by (intro recording) (auto simp: ask_of_the_planner_def intro: recording split: transition_outcome.split)

lemma records_carry_out: "records i undecided (carry_out w k i own no m reason ans)"
  unfolding carry_out_def move_the_task_def grant_room_def approve_plan_def accept_result_def Let_def
  by (auto intro!: recording simp: undecided_def split: option.split decide_move.split)

section \<open>The outcomes of a decision\<close>

lemma tool_then_cases:
  assumes "tool_then m f p = (r, q)"
  obtains (failed) e where "m p = (Inl e, q)" "r = Inl e"
    | (refused) no where "m p = (Inr (Inl no), q)" "r = Inr (Inl no)"
    | (went) a u where "m p = (Inr (Inr a), u)" "f a u = (r, q)"
  using assms unfolding tool_then_def
proof (cases rule: door_then_cases)
  case (went a u)
  then show ?thesis using that(2,3) by (cases a) (auto simp: refuse_tool_def)
qed (use that(1) in blast)

lemma call_append_cases:
  assumes "current p" and "call_append w k i b p = (r, q)"
  obtains (appended) "recorded p i [b] q" "r = Inr (Inr ())" | (full) e where "recorded p i [] q" "r = Inl (StoreRefused e)"
    | (behind) "left_behind r"
  using assms(2) unfolding call_append_def
proof (cases rule: door_then_cases)
  case (failed e)
  then show ?thesis using append_about_records [OF assms(1) failed(1)] that(2,3) by (auto simp: left_behind_iff)
next
  case (went a u)
  then show ?thesis using append_about_records [OF assms(1) went(1)] that(1) by (auto simp: tool_answer_def)
qed

definition decision_of ::
  "tool_call \<Rightarrow> decide_choice \<Rightarrow> string \<Rightarrow> string option \<Rightarrow> string option \<Rightarrow> team_decided" where
  "decision_of k c reason ans needs =
     \<lparr>decided_choice = c, decided_reason = reason, decided_by = caller k, decided_answer = ans,
      decided_needs = needs, decided_change = None\<rparr>"

definition flagged_after :: "tool_call \<Rightarrow> string option \<Rightarrow> event_body list" where
  "flagged_after k needs = (case needs of None \<Rightarrow> [] | Some s \<Rightarrow> [TaskFlagged s (caller k)])"

lemma record_decision_cases:
  assumes "current p" and "record_decision w k i c reason ans needs p = (r, q)"
  obtains (stopped) "recorded p i [] q" "r \<noteq> Inr (Inr ())"
    | (cut) "recorded p i [TeamDecided (decision_of k c reason ans needs)] q" "r \<noteq> Inr (Inr ())"
    | (whole) "recorded p i (TeamDecided (decision_of k c reason ans needs) # flagged_after k needs) q" "r = Inr (Inr ())"
    | (behind) "left_behind r"
proof (cases "decision_fits (decision_of k c reason ans needs)")
  case False
  then have "q = p" "r = Inr (Inl UnfitWords)"
    using assms(2) by (simp_all add: record_decision_def Let_def decision_of_def unless_then_def refuse_tool_def)
  then show ?thesis using that(1) assms(1) by simp
next
  case True
  then have run: "tool_then (call_append w k i (TeamDecided (decision_of k c reason ans needs))) (\<lambda>_.
      case needs of None \<Rightarrow> tool_answer () | Some what \<Rightarrow> unless_then (fits 300 (Some what)) UnfitWords
        (call_append w k i (TaskFlagged what (caller k)))) p = (r, q)"
    using assms(2) by (simp add: record_decision_def Let_def decision_of_def unless_then_def)
  then show ?thesis
  proof (cases rule: tool_then_cases)
    case (failed e)
    from assms(1) failed(1) show ?thesis using that(1,4) failed(2)
      by (cases rule: call_append_cases) (auto simp: left_behind_iff)
  next
    case (refused no)
    from assms(1) refused(1) show ?thesis by (cases rule: call_append_cases) auto
  next
    case (went a u)
    from assms(1) went(1) have u: "recorded p i [TeamDecided (decision_of k c reason ans needs)] u"
      by (cases rule: call_append_cases) auto
    show ?thesis
    proof (cases needs)
      case None
      then show ?thesis using went(2) u that(3) by (auto simp: tool_answer_def flagged_after_def)
    next
      case (Some what)
      then have run: "call_append w k i (TaskFlagged what (caller k)) u = (r, q)"
        using went(2) True by (simp add: unless_then_def decision_fits_def decision_of_def)
      from recorded_current [OF u] run show ?thesis
        using that(2,3,4) recorded_trans [OF u] Some
        by (cases rule: call_append_cases) (fastforce simp: flagged_after_def)+
    qed
  qed
qed

text \<open>A decision about a task: what it read and what it was offered, then what carrying it out
  recorded, then the decision itself.\<close>

definition offers ::
  "world \<Rightarrow> project \<Rightarrow> string \<Rightarrow> board_row \<Rightarrow> task_waits \<Rightarrow> decide_choice \<Rightarrow> bool" where
  "offers w p i own x c \<longleftrightarrow>
     row_of_task w p i = Inr (Some own) \<and> wait_of_task w p i own = Inr (Some x)
     \<and> c \<in> set (choices_for (wait_reason x) (wait_before x) (wait_blocked_from x) (team_spent_on (log_of p) i))"

lemma offered_choice_in: "offered_choice said offered = Some c \<Longrightarrow> c \<in> set offered \<and> said = choice_wire c"
  by (auto simp: offered_choice_def choice_round_trip split: option.splits if_splits)

lemma written_words_fit: "written_words said most = Some s \<Longrightarrow> fits most (Some s)"
  by (auto simp: written_words_def fits_def split: option.splits if_splits)

lemma with_words_cases:
  assumes "with_words asked said most no f p = (r, q)"
  obtains (refused) "q = p" "r = Inr (Inl no)"
    | (taken) s where "f s p = (r, q)" "s \<noteq> None \<longleftrightarrow> asked" "fits most s"
proof (cases "asked \<and> written_words said most = None")
  case True
  then show ?thesis using assms that(1) by (simp add: with_words_def refuse_tool_def)
next
  case False
  define s where "s = (if asked then written_words said most else None)"
  have "f s p = (r, q)" using assms False by (auto simp: with_words_def s_def)
  moreover have "fits most s"
    using written_words_fit by (cases "written_words said most") (auto simp: s_def fits_def)
  ultimately show ?thesis using that(2) False by (simp add: s_def split: if_splits)
qed

lemma make_choice_cases:
  assumes p: "current p" and run: "make_choice w k i input reason own x no c p = (r, q)"
  obtains (stopped) bs where "recorded p i bs q" "list_all undecided bs" "\<And>a. r \<noteq> Inr (Inr a)"
    | (made) ans needs bs u tail where
        "carry_out w k i own no (move_of c (wait_before x) (wait_blocked_from x)) reason ans p = (Inr (Inr ()), u)"
        "recorded p i bs u" "list_all undecided bs"
        "recorded u i (TeamDecided (decision_of k c reason ans needs) # tail) q" "list_all undecided tail"
        "r = Inr (Inr (DecidedTask c i)) \<Longrightarrow> tail = flagged_after k needs"
        "needs \<noteq> None \<longleftrightarrow> c = Flag" "\<And>a. r = Inr (Inr a) \<Longrightarrow> a = DecidedTask c i"
    | (behind) "left_behind r"
proof (cases "left_behind r")
  case True
  then show ?thesis by (rule that(3))
next
  case no_lag: False
  have kept_back: "\<not> left_behind (Inl e :: (door_error, (decide_refusal, unit) result) result)" if "r = Inl e" for e
    using no_lag that by (simp add: left_behind_iff)
  note stop = that(1) and made = that(2)
  have idle: thesis if "q = p" "\<forall>a. r \<noteq> Inr (Inr a)"
  proof -
    have "recorded p i [] q" "list_all undecided []" using that(1) p by simp_all
    then show thesis using stop that(2) by blast
  qed
  from run [unfolded make_choice_def] show ?thesis
  proof (cases rule: with_words_cases)
    case refused
    then show ?thesis using idle by simp
  next
    case (taken ans)
    from taken(1) show ?thesis
    proof (cases rule: with_words_cases)
      case refused
      then show ?thesis using idle by simp
    next
      case needs: (taken needs)
      note carried = recordsD [OF records_carry_out p]
      from needs(1) show ?thesis
      proof (cases rule: tool_then_cases)
        case (failed e)
        then show ?thesis using carried [OF failed(1)] kept_back stop by blast
      next
        case (refused n)
        then show ?thesis using carried [OF refused(1) left_behind_Inr] stop by blast
      next
        case (went a u)
        obtain bs where u: "recorded p i bs u" "list_all undecided bs" using carried [OF went(1) left_behind_Inr] by blast
        note recorded_current [OF u(1)]
        have went_on: "carry_out w k i own no (move_of c (wait_before x) (wait_blocked_from x)) reason ans p
            = (Inr (Inr ()), u)"
          using went(1) by simp
        have kept: ?thesis if "recorded u i [] q" "\<And>a. r \<noteq> Inr (Inr a)"
          using stop [of bs] recorded_trans [OF u(1) that(1)] u(2) that(2) by simp
        from went(2) show ?thesis
        proof (cases rule: tool_then_cases)
          case (failed e)
          from \<open>current u\<close> failed(1) show ?thesis
            using kept failed(2) made [OF went_on u, of needs "[]"] needs(2) kept_back
            by (cases rule: record_decision_cases) auto
        next
          case (refused n)
          from \<open>current u\<close> refused(1) show ?thesis
            using kept refused(2) made [OF went_on u, of needs "[]"] needs(2)
            by (cases rule: record_decision_cases) auto
        next
          case ended: (went b v)
          then have r: "r = Inr (Inr (DecidedTask c i))" "v = q" by (simp_all add: tool_answer_def)
          have tail: "list_all undecided (flagged_after k needs)"
            by (simp add: flagged_after_def undecided_def split: option.split)
          from \<open>current u\<close> ended(1) show ?thesis
          proof (cases rule: record_decision_cases)
            case whole
            have "recorded u i (TeamDecided (decision_of k c reason ans needs) # flagged_after k needs) q"
              using whole(1) r(2) by simp
            then show ?thesis
              by (rule made [OF went_on u _ tail]) (use r(1) needs(2) in blast)+
          qed simp_all
        qed
      qed
    qed
  qed
qed

lemma decide_task_cases:
  assumes p: "current p" and run: "decide_task w k i input reason p = (r, q)"
  obtains (stopped) "q = p" "\<And>a. r \<noteq> Inr (Inr a)" "\<And>no. r \<noteq> Inr (Inl (GovernorRefused no))"
    | (chosen) own x c no where "offers w p i own x c" "in_choice input = choice_wire c"
        "make_choice w k i input reason own x no c p = (r, q)"
proof (cases "\<exists>own x. is_task_id i \<and> row_of_task w p i = Inr (Some own) \<and> wait_of_task w p i own = Inr (Some x)")
  case False
  then show ?thesis using run that(1)
    by (auto simp: decide_task_def unless_then_def refuse_tool_def door_then_reading
        split: sum.splits option.splits if_splits)
next
  case True
  then obtain own x where own: "is_task_id i" "row_of_task w p i = Inr (Some own)"
    "wait_of_task w p i own = Inr (Some x)" by blast
  define offered where "offered = choices_for (wait_reason x) (wait_before x) (wait_blocked_from x) (team_spent_on (log_of p) i)"
  have run: "(case offered_choice (in_choice input) offered of
        None \<Rightarrow> refuse_tool (ChoiceNotOffered (in_choice input) offered)
      | Some c \<Rightarrow> make_choice w k i input reason own x (ChoiceNotOffered (in_choice input) offered) c) p = (r, q)"
    using run own
    unfolding offered_def by (simp add: decide_task_def unless_then_def door_then_reading Let_def)
  show ?thesis
  proof (cases "offered_choice (in_choice input) offered")
    case None
    then have "q = p" "\<And>a. r \<noteq> Inr (Inr a)" "\<And>no. r \<noteq> Inr (Inl (GovernorRefused no))"
      using run by (auto simp: refuse_tool_def)
    then show ?thesis using that(1) by blast
  next
    case (Some c)
    then show ?thesis using run own offered_choice_in [OF Some] that(2) [of own x c]
      by (simp add: offers_def offered_def)
  qed
qed

section \<open>The team's limits\<close>

text \<open>Every decision of the log, with the task it is about.\<close>

definition decisions_in :: "log \<Rightarrow> (string option \<times> team_decided) list" where
  "decisions_in l = filter_map (\<lambda>e. map_option (Pair (about_task (ids e))) (decided_in e)) l"

definition decided_body :: "event_body \<Rightarrow> team_decided option" where
  "decided_body b = (case b of TeamDecided d \<Rightarrow> Some d | _ \<Rightarrow> None)"

lemma decided_in_body: "decided_in e = decided_body (body e)"
  by (simp add: decided_in_def decided_body_def)

lemma decisions_append [simp]: "decisions_in (l @ m) = decisions_in l @ decisions_in m"
  by (simp add: decisions_in_def)

lemma decisions_recorded:
  assumes "recorded p i bs q"
  shows "decisions_in (log_of q) = decisions_in (log_of p) @ map (Pair (Some i)) (filter_map decided_body bs)"
proof -
  obtain es where es: "log_of q = log_of p @ es" "map body es = bs" "\<forall>e \<in> set es. about_task (ids e) = Some i"
    using assms by (auto simp: recorded_def)
  have "decisions_in es = map (Pair (Some i)) (filter_map decided_body (map body es))"
    using es(3) by (induction es) (auto simp: decisions_in_def decided_in_body split: option.split)
  then show ?thesis using es by simp
qed

lemma undecided_none: "list_all undecided bs \<Longrightarrow> filter_map decided_body bs = []"
  by (auto simp: filter_map_Nil_iff list_all_iff undecided_def decided_body_def split: event_body.split)

definition grants_on :: "log \<Rightarrow> string \<Rightarrow> nat" where
  "grants_on l i = length (filter (\<lambda>(a, d). a = Some i \<and> decided_choice d \<in> {MoreTries, MoreRoom}) (decisions_in l))"

definition reopens_on :: "log \<Rightarrow> string \<Rightarrow> nat" where
  "reopens_on l i = length (filter (\<lambda>(a, d). a = Some i \<and> decided_choice d = ReopenIntegration) (decisions_in l))"

definition retries_on :: "log \<Rightarrow> nat \<Rightarrow> nat" where
  "retries_on l n =
     length (filter (\<lambda>(a, d). decided_choice d = RetryFolderChange \<and> decided_change d = Some n) (decisions_in l))"

definition within_team_limits :: "log \<Rightarrow> bool" where
  "within_team_limits l \<longleftrightarrow> (\<forall>i. grants_on l i \<le> 3 \<and> reopens_on l i \<le> 3) \<and> (\<forall>n. retries_on l n \<le> 3)"

lemma team_spent_snoc:
  "team_spent_on (l @ [e]) i =
     (case decided_in e of
        Some d \<Rightarrow> if about_task (ids e) = Some i then spend_choice (team_spent_on l i) (decided_choice d) else team_spent_on l i
      | None \<Rightarrow> team_spent_on l i)"
  by (simp add: team_spent_on_def history_of_def split: option.split)

lemma team_spent_counts:
  "team_spent_on l i = \<lparr>spent_grants = of_nat (grants_on l i), spent_reopens = of_nat (reopens_on l i)\<rparr>"
proof (induction l rule: rev_induct)
  case Nil
  then show ?case by (simp add: team_spent_on_def history_of_def grants_on_def reopens_on_def decisions_in_def)
next
  case (snoc e l)
  then show ?case
    by (simp add: team_spent_snoc grants_on_def reopens_on_def decisions_in_def spend_choice_def add.commute
        split: option.split)
qed

lemma folder_change_counts: "folder_change_spent l n = \<lparr>spent_grants = 0, spent_reopens = u32_of (retries_on l n)\<rparr>"
proof -
  have "length (filter (retries_of n) l) = retries_on l n"
    by (induction l) (auto simp: retries_on_def decisions_in_def retries_of_def split: option.split)
  then show ?thesis by (simp add: folder_change_spent_def)
qed

lemma small_count_less: "n \<le> 3 \<Longrightarrow> (of_nat n :: u32) < 3 \<Longrightarrow> n < 3"
proof -
  assume "n \<le> 3" and less: "(of_nat n :: u32) < 3"
  moreover have "n \<noteq> 3" using less by auto
  ultimately show ?thesis by simp
qed

section \<open>A decide session's effect on the decisions\<close>

lemma append_untasked_cases:
  assumes p: "current p" and run: "append_untasked w who sess b p = (r, q)"
  obtains (appended) e where "log_of q = log_of p @ [e]" "body e = b" "about_task (ids e) = None" "r = Inr ()"
      "current q" "files_of q = files_of p"
    | (full) e where "log_of q = log_of p" "r = Inl (StoreRefused e)" "current q" "files_of q = files_of p"
    | (behind) "left_behind r"
proof -
  let ?ids = "\<lparr>about_task = None, by_agent = who, in_session = sess\<rparr>"
  let ?now = "clock_at w (ticks p)" and ?stop = "append_refused w (Suc (ticks p)) \<lparr>about_task = None, by_agent = who, in_session = sess\<rparr> b"
  have l: "well_numbered (log_of p)" using p by (simp add: current_def)
  from append_refused_or_next [OF l, of ?stop ?now ?ids b] show ?thesis
  proof
    assume "\<exists>e. append ?stop (log_of p) ?now ?ids b = Inl e"
    then show ?thesis using run p that(2) by (auto simp: append_untasked_def door_then_log)
  next
    assume "\<exists>e. append ?stop (log_of p) ?now ?ids b = Inr e \<and> well_numbered (log_of p @ [e])
      \<and> seq e = length (log_of p) + 1 \<and> body e = b \<and> about_task (ids e) = about_task ?ids"
    then obtain e where e: "append ?stop (log_of p) ?now ?ids b = Inr e" "well_numbered (log_of p @ [e])"
      "body e = b" "about_task (ids e) = None" by auto
    obtain t where t: "apply_event (log_of p @ [e]) e (tables_of p) = Inr t"
      "is_replay (log_of p @ [e]) t" "replay (log_of p @ [e]) = Inr t"
      using apply_event_shows_all [OF p e(2)] by blast
    have "left_behind r \<or> r = Inr () \<and> q = p\<lparr>log_of := log_of p @ [e], tables_of := t, ticks := ticks p + 1\<rparr>"
      using run e(1) t(1) by (auto simp: append_untasked_def door_then_log project_event_def split: option.splits)
    then show ?thesis using e t that(1,3) by (auto simp: current_def)
  qed
qed

lemma untasked_append_cases:
  assumes p: "current p" and run: "call_append_untasked w k b p = (r, q)"
  obtains (appended) e where "log_of q = log_of p @ [e]" "body e = b" "about_task (ids e) = None" "r = Inr (Inr ())"
      "current q" "files_of q = files_of p"
    | (full) e where "log_of q = log_of p" "r = Inl (StoreRefused e)" "current q" "files_of q = files_of p"
    | (behind) "left_behind r"
proof -
  obtain r' u where u: "append_untasked w (Some (caller k)) (Some (caller_session k)) b p = (r', u)" by fastforce
  then have "q = u" "r = (case r' of Inl e \<Rightarrow> Inl e | Inr _ \<Rightarrow> Inr (Inr ()))"
    using run by (auto simp: call_append_untasked_def door_then_def tool_answer_def answer_def split: sum.splits)
  with p u show thesis using that by (cases rule: append_untasked_cases) (auto simp: left_behind_iff)
qed

definition offers_change :: "log \<Rightarrow> nat \<Rightarrow> decide_choice \<Rightarrow> bool" where
  "offers_change l n c \<longleftrightarrow> c \<in> set (choices_for ''folder_change'' None None (folder_change_spent l n))"

lemma decide_folder_change_cases:
  assumes p: "current p" and run: "decide_folder_change w k n input reason p = (r, q)"
  obtains (kept) "log_of q = log_of p" "current q" "files_of q = files_of p" "\<And>a. r \<noteq> Inr (Inr a)"
    | (decided) c e d where "change_waits (log_of p) n" "offers_change (log_of p) n c" "in_choice input = choice_wire c"
        "log_of q = log_of p @ [e]" "body e = TeamDecided d" "about_task (ids e) = None" "decided_choice d = c"
        "decided_change d = Some n" "decided_by d = caller k" "current q" "files_of q = files_of p"
        "r = Inr (Inr (DecidedChange c n))"
    | (behind) "left_behind r"
proof -
  let ?offered = "choices_for ''folder_change'' None None (folder_change_spent (log_of p) n)"
  define act where "act = (\<lambda>c needs. let d = \<lparr>decided_choice = c, decided_reason = reason, decided_by = caller k,
      decided_answer = None, decided_needs = needs, decided_change = Some n\<rparr> in
      unless_then (decision_fits d) UnfitWords
        (tool_then (call_append_untasked w k (TeamDecided d)) (\<lambda>_. tool_answer (DecidedChange c n))))"
  have keep: thesis if "q = p" "\<And>a. r \<noteq> Inr (Inr a)" using kept p that by simp
  show thesis
  proof (cases "\<exists>c. change_waits (log_of p) n \<and> offered_choice (in_choice input) ?offered = Some c")
    case False
    then have "q = p \<and> (\<forall>a. r \<noteq> Inr (Inr a))"
      using run by (auto simp: decide_folder_change_def door_then_reading unless_then_def refuse_tool_def Let_def
          split: if_splits option.splits)
    then show ?thesis using keep by blast
  next
    case True
    then obtain c where c: "change_waits (log_of p) n" "offered_choice (in_choice input) ?offered = Some c" by blast
    have "with_words (c = Flag) (in_needs input) 300 NeedsRequired (act c) p = (r, q)"
      using run c by (simp add: decide_folder_change_def door_then_reading unless_then_def Let_def act_def)
    then show ?thesis
    proof (cases rule: with_words_cases)
      case refused
      then show ?thesis using keep by blast
    next
      case (taken needs)
      define d where "d = \<lparr>decided_choice = c, decided_reason = reason, decided_by = caller k,
        decided_answer = None, decided_needs = needs, decided_change = Some n\<rparr>"
      show ?thesis
      proof (cases "decision_fits d")
        case False
        then have "q = p" "\<And>a. r \<noteq> Inr (Inr a)"
          using taken(1) by (auto simp: act_def d_def unless_then_def refuse_tool_def)
        then show ?thesis using keep by blast
      next
        case True
        then have "tool_then (call_append_untasked w k (TeamDecided d)) (\<lambda>_. tool_answer (DecidedChange c n)) p = (r, q)"
          using taken(1) by (simp add: act_def d_def unless_then_def)
        then show ?thesis
        proof (cases rule: tool_then_cases)
          case (failed e)
          from p failed(1) show ?thesis using kept behind failed(2)
            by (cases rule: untasked_append_cases) (auto simp: left_behind_iff)
        next
          case (refused no)
          from p refused(1) show ?thesis by (cases rule: untasked_append_cases) auto
        next
          case (went a u)
          have d: "decided_choice d = c" "decided_change d = Some n" "decided_by d = caller k"
            by (simp_all add: d_def)
          have c': "offers_change (log_of p) n c" "in_choice input = choice_wire c"
            using offered_choice_in [OF c(2)] by (simp_all add: offers_change_def)
          have "u = q" "r = Inr (Inr (DecidedChange c n))" using went(2) by (simp_all add: tool_answer_def)
          with p went(1) show ?thesis
            using decided [OF c(1) c' _ _ _ d] by (cases rule: untasked_append_cases) auto
        qed
      qed
    qed
  qed
qed

lemma decide_tool_cases:
  assumes "decide_tool w k input p = (r, q)"
  obtains (refused) "q = p" "\<And>a. r \<noteq> Inr (Inr a)" "\<And>no. r \<noteq> Inr (Inl (GovernorRefused no))"
    | (tasked) i where "in_task input = Some i" "in_change input = None"
        "team_decides (log_of p) (caller_team k)" "map_option agent_id (planner (caller_team k)) = Some (caller k)"
        "decide_task w k i input (trim (in_reason input)) p = (r, q)"
    | (changed) n where "in_change input = Some n" "in_task input = None" "team_decides (log_of p) (caller_team k)"
        "map_option agent_id (planner (caller_team k)) = Some (caller k)"
        "decide_folder_change w k n input (trim (in_reason input)) p = (r, q)"
  using assms
  by (auto simp: decide_tool_def door_then_reading unless_then_def refuse_tool_def Let_def
      split: if_splits option.splits)

text \<open>What a decide session adds to the decisions of the log: nothing, or one decision, offered.\<close>

lemma decide_tool_decides:
  assumes p: "current p" and run: "decide_tool w k input p = (r, q)" and no_lag: "\<not> left_behind r"
  shows "current q \<and> (decisions_in (log_of q) = decisions_in (log_of p)
    \<or> (\<exists>i d own x. decisions_in (log_of q) = decisions_in (log_of p) @ [(Some i, d)]
          \<and> decided_change d = None \<and> offers w p i own x (decided_choice d))
    \<or> (\<exists>n d. decisions_in (log_of q) = decisions_in (log_of p) @ [(None, d)]
          \<and> decided_change d = Some n \<and> offers_change (log_of p) n (decided_choice d)))"
  using run
proof (cases rule: decide_tool_cases)
  case refused
  then show ?thesis using p by simp
next
  case (tasked i)
  from p tasked(5) show ?thesis
  proof (cases rule: decide_task_cases)
    case stopped
    then show ?thesis using p by simp
  next
    case (chosen own x c no)
    from p chosen(3) show ?thesis
    proof (cases rule: make_choice_cases)
      case (stopped bs)
      then show ?thesis using decisions_recorded [OF stopped(1)] undecided_none recorded_current by auto
    next
      case (made ans needs bs u tail)
      let ?d = "decision_of k c (trim (in_reason input)) ans needs"
      have "decisions_in (log_of q) = decisions_in (log_of p) @ [(Some i, ?d)]"
        using decisions_recorded [OF made(2)] decisions_recorded [OF made(4)] undecided_none [OF made(3)]
          undecided_none [OF made(5)] by (simp add: decided_body_def)
      moreover have "decided_choice ?d = c" "decided_change ?d = None" by (simp_all add: decision_of_def)
      ultimately show ?thesis using recorded_current [OF made(4)] chosen(1) by metis
    qed (use no_lag in simp)
  qed
next
  case (changed n)
  from p changed(5) show ?thesis
  proof (cases rule: decide_folder_change_cases)
    case kept
    then show ?thesis by simp
  next
    case (decided c e d)
    then have "decisions_in (log_of q) = decisions_in (log_of p) @ [(None, d)]"
      by (simp add: decisions_in_def decided_in_def)
    then show ?thesis using decided by blast
  qed (use no_lag in simp)
qed

lemma limits_kept:
  assumes limits: "within_team_limits l" and run: "decisions_in m = decisions_in l
    \<or> (\<exists>i d own x. decisions_in m = decisions_in l @ [(Some i, d)]
          \<and> decided_change d = None \<and> log_of p = l \<and> offers w p i own x (decided_choice d))
    \<or> (\<exists>n d. decisions_in m = decisions_in l @ [(None, d)]
          \<and> decided_change d = Some n \<and> offers_change l n (decided_choice d))"
  shows "within_team_limits m"
  using run
proof (elim disjE exE conjE)
  assume "decisions_in m = decisions_in l"
  then show ?thesis using limits by (simp add: within_team_limits_def grants_on_def reopens_on_def retries_on_def)
next
  fix i d own x
  assume d: "decisions_in m = decisions_in l @ [(Some i, d)]" "decided_change d = None" "log_of p = l"
    "offers w p i own x (decided_choice d)"
  have few: "grants_on l i \<le> 3" "reopens_on l i \<le> 3" using limits by (simp_all add: within_team_limits_def)
  have c: "decided_choice d \<in> set (choices_for (wait_reason x) (wait_before x) (wait_blocked_from x) (team_spent_on l i))"
    using d(3,4) by (simp add: offers_def)
  have "decided_choice d \<in> {MoreTries, MoreRoom} \<Longrightarrow> grants_on l i < 3"
    using offered_within_limits(1) [OF c] small_count_less [OF few(1)]
    by (simp add: team_spent_counts TEAM_GRANTS_PER_TASK_def)
  moreover have "decided_choice d = ReopenIntegration \<Longrightarrow> reopens_on l i < 3"
    using offered_within_limits(2) [OF c] small_count_less [OF few(2)]
    by (simp add: team_spent_counts REOPENS_PER_TASK_def)
  ultimately have "grants_on l i + (if decided_choice d \<in> {MoreTries, MoreRoom} then 1 else 0) \<le> 3"
    "reopens_on l i + (if decided_choice d = ReopenIntegration then 1 else 0) \<le> 3" using few by auto
  then show ?thesis using limits d(1,2)
    by (auto simp: within_team_limits_def grants_on_def reopens_on_def retries_on_def)
next
  fix n d
  assume d: "decisions_in m = decisions_in l @ [(None, d)]" "decided_change d = Some n"
    "offers_change l n (decided_choice d)"
  have few: "retries_on l n \<le> 3" using limits by (simp add: within_team_limits_def)
  then have "u32_of (retries_on l n) = of_nat (retries_on l n)" by (simp add: u32_of_def)
  then have "decided_choice d = RetryFolderChange \<Longrightarrow> retries_on l n < 3"
    using offered_within_limits(2) [OF d(3) [unfolded offers_change_def]] small_count_less [OF few]
    by (simp add: folder_change_counts REOPENS_PER_TASK_def)
  then have "retries_on l n + (if decided_choice d = RetryFolderChange then 1 else 0) \<le> 3" using few by auto
  then show ?thesis using limits d(1,2)
    by (auto simp: within_team_limits_def grants_on_def reopens_on_def retries_on_def)
qed

section \<open>Runs of the door and of decide sessions\<close>

text \<open>A step of the program: an operation of the door, a note of another part that is no decision of the
  team, a tool of a decide session, or Catervas's own flag of a folder change. Nothing else appends a
  decision (crates/runtime/src/tools/decide.rs, crates/runtime/src/orchestrator/autopilot.rs). As at the door,
  a run does not go on past an event that the database did not take into the tables.\<close>

inductive team_step :: "project \<Rightarrow> project \<Rightarrow> bool" where
  by_request: "request w rq ask t p = (r, q) \<Longrightarrow> \<not> left_behind r \<Longrightarrow> team_step p q"
| by_hand_over: "reassign w i to t p = (r, q) \<Longrightarrow> \<not> left_behind r \<Longrightarrow> team_step p q"
| by_branch: "record_branch w valid i nm p = (r, q) \<Longrightarrow> team_step p q"
| by_note: "append_about w i who sess b p = (r, q) \<Longrightarrow> \<not> left_behind r \<Longrightarrow> undecided b \<Longrightarrow> team_step p q"
| by_decision: "decide_tool w k input p = (r, q) \<Longrightarrow> \<not> left_behind r \<Longrightarrow> team_step p q"
| by_flag: "flag_folder_change_by_catervas w n p = (r, q) \<Longrightarrow> \<not> left_behind r \<Longrightarrow> team_step p q"
| by_answer: "answer_question w k n said p = (r, q) \<Longrightarrow> \<not> left_behind r \<Longrightarrow> team_step p q"

inductive team_run :: "project \<Rightarrow> project \<Rightarrow> bool" where
  no_step: "team_run p p"
| then_step: "team_run p q \<Longrightarrow> team_step q r \<Longrightarrow> team_run p r"

definition decides_nothing :: "project \<Rightarrow> project \<Rightarrow> bool" where
  "decides_nothing p q \<longleftrightarrow> current q \<and> decisions_in (log_of q) = decisions_in (log_of p)"

lemma undecided_decides_nothing:
  "recorded p i bs q \<Longrightarrow> list_all undecided bs \<Longrightarrow> decides_nothing p q"
  using decisions_recorded undecided_none recorded_current by (simp add: decides_nothing_def)

lemma answer_question_step:
  assumes p: "current p" and run: "answer_question w k n said p = (r, q)" and no_lag: "\<not> left_behind r"
  shows "decides_nothing p q"
proof -
  let ?b = "WaitingEvent (TeamQuestionAnswered n said (caller k))"
  have "q = p \<or> (\<exists>m :: unit tool. (m = call_append_untasked w k ?b \<or> (\<exists>i. m = call_append w k i ?b))
      \<and> tool_then m (\<lambda>_. tool_answer n) p = (r, q))"
    using run by (auto simp: answer_question_def door_then_reading unless_then_def refuse_tool_def Let_def
        split: if_splits option.splits prod.splits)
  moreover have "decides_nothing p p" using p by (simp add: decides_nothing_def)
  moreover have "decides_nothing p q"
    if m: "m = call_append_untasked w k ?b \<or> (\<exists>i. m = call_append w k i ?b)"
      and t: "tool_then m (\<lambda>_. tool_answer n) p = (r, q)" for m :: "unit tool"
  proof -
    have "decides_nothing p u" if u: "m p = (v, u)" and v: "\<not> left_behind v" for v u
    proof (cases "m = call_append_untasked w k ?b")
      case True
      from p u [unfolded True] show ?thesis
        by (cases rule: untasked_append_cases)
          (use v in \<open>simp_all add: decides_nothing_def decisions_in_def decided_in_def\<close>)
    next
      case False
      then obtain i where "m = call_append w k i ?b" using m by blast
      then have "records i undecided m" by (simp add: recording undecided_def)
      then show ?thesis using recordsD p u v undecided_decides_nothing by blast
    qed
    note u = this
    from t show ?thesis
      by (cases rule: tool_then_cases) (use u no_lag in \<open>auto simp: tool_answer_def left_behind_iff\<close>)
  qed
  ultimately show ?thesis by blast
qed

lemma team_step_kept:
  assumes p: "current p" and "within_team_limits (log_of p)" and step: "team_step p q"
  shows "current q \<and> within_team_limits (log_of q)"
proof -
  have idle: ?thesis if "decides_nothing p q"
    using that limits_kept [OF assms(2)] by (auto simp: decides_nothing_def)
  from step show ?thesis
  proof (cases rule: team_step.cases)
    case (by_request w rq ask t r)
    then show ?thesis using idle recordsD [OF records_request [OF refl] p] undecided_decides_nothing by metis
  next
    case (by_hand_over w i to t r)
    from p by_hand_over(1) show ?thesis
    proof (cases rule: reassign_cases)
      case handed
      then show ?thesis using idle undecided_decides_nothing by (force simp: undecided_def)
    next
      case behind
      then show ?thesis using by_hand_over(2) by simp
    qed (use idle undecided_decides_nothing in force)+
  next
    case (by_branch w valid i nm r)
    from by_branch show ?thesis
      by (cases rule: record_branch_cases) (use p idle in \<open>auto simp: decides_nothing_def\<close>)
  next
    case (by_note w i who sess b r)
    have "records i undecided (append_about w i who sess b)"
      using by_note(3) by (simp add: logging_records logging_append_about)
    from recordsD [OF this p by_note(1,2)] show ?thesis using idle undecided_decides_nothing by blast
  next
    case (by_decision w k input r)
    note d = decide_tool_decides [OF p by_decision]
    then have "within_team_limits (log_of q)"
      by (intro limits_kept [OF assms(2), where p = p and w = w]) blast
    then show ?thesis using d by blast
  next
    case (by_flag w n r)
    from p by_flag(1) [unfolded flag_folder_change_by_catervas_def] show ?thesis
    proof (cases rule: append_untasked_cases)
      case (appended e)
      then have "decisions_in (log_of q) = decisions_in (log_of p) @ [(None, change_flagged_by_catervas n)]"
        by (simp add: decisions_in_def decided_in_def)
      then show ?thesis using assms(2) appended(5)
        by (simp add: within_team_limits_def grants_on_def reopens_on_def retries_on_def change_flagged_by_catervas_def)
    qed (use assms(2) by_flag(2) in simp_all)
  next
    case (by_answer w k n said r)
    then show ?thesis using idle answer_question_step [OF p] by blast
  qed
qed

text \<open>
  C10: The decisions the team records stay within its limits: over any run of requests, hand-overs, notes
  and decide sessions, by whatever agents and teams, the log holds at most three recorded decisions to
  give a task more tries or more room, at most three to reopen its integration, and at most three to
  retry a folder change. What is counted is \<open>team.decided\<close>: room granted ahead of a decision that the
  governor then refused is no recorded decision, and is not among them.
\<close>

theorem team_spends_within_its_limits:
  assumes "team_run p q" and "current p" and "within_team_limits (log_of p)"
  shows "current q \<and> (\<forall>i. grants_on (log_of q) i \<le> 3 \<and> reopens_on (log_of q) i \<le> 3)
    \<and> (\<forall>n. retries_on (log_of q) n \<le> 3)"
proof -
  have "current q \<and> within_team_limits (log_of q)"
    using assms
  proof (induction rule: team_run.induct)
    case (then_step p q r)
    then show ?case using team_step_kept by blast
  qed simp
  then show ?thesis by (simp add: within_team_limits_def)
qed

section \<open>What a decided task shows\<close>

lemma door_then_run:
  assumes "door_then m f p = (Inr b, q)"
  obtains a u where "m p = (Inr a, u)" "f a u = (Inr b, q)"
  using assms by (auto simp: door_then_Inr)

lemma ask_governor_moved:
  assumes p: "current p" and run: "ask_governor w k i st ask p = (Inr (Inr a), q)"
  obtains bs s where "recorded p i bs q" "list_all undecided bs"
    "\<exists>b. TaskTransitioned b \<in> set bs \<and> move_to b = st \<and> move_actor b = ProductManagerActor"
    "standing_in (log_of q) i = Some s" "stands s = st"
proof -
  let ?rq = "ask_of_the_planner k i st" and ?ask = "ask\<lparr>ask_session := Some (caller_session k)\<rparr>"
  have rq: "asked_task ?rq = i" "asked_to ?rq = st" "asked_actor ?rq = ProductManagerActor"
    by (simp_all add: ask_of_the_planner_def)
  obtain d where "request w ?rq ?ask (caller_team k) p = (Inr (MovedTo d), q)"
    using run unfolding ask_governor_def
    by (auto elim!: door_then_run simp: tool_answer_def refuse_tool_def split: transition_outcome.splits)
  with p show thesis
  proof (cases rule: request_cases)
    case (moved d' x)
    have to: "decided_to d' = st" using judged_decision [OF moved(1)] rq(2) by (metis decision_simps(2))
    define b where "b = move_body_of ?rq (tidied ?ask) (moved_contract (tidied ?ask) d' (ctx_contract x))
        (folder_of_work (ctx_work x)) d'"
    have b: "move_to b = st" "move_actor b = ProductManagerActor"
      using to rq(3) by (simp_all add: b_def move_body_of_def Let_def)
    obtain before after where rec: "list_all door_note (before @ after)"
      "recorded p i (before @ TaskTransitioned b # after) q"
      using moved(2) rq(1) by (auto simp: move_recorded_def b_def)
    obtain own held where "standing_in (log_of p) i = Some (row_standing own)"
      using judged_contract [OF p moved(1)] rq(1) by metis
    then obtain s where "standing_in (log_of q) i = Some s" "stands s = st"
      using move_recorded_standing [OF moved(2)] rq(1) to by auto
    moreover have "list_all undecided (before @ TaskTransitioned b # after)"
      using door_note_undecided [OF rec(1)] by (simp add: undecided_def)
    moreover have "\<exists>m. TaskTransitioned m \<in> set (before @ TaskTransitioned b # after) \<and> move_to m = st
        \<and> move_actor m = ProductManagerActor"
      using b by auto
    ultimately show thesis using that [OF rec(2)] by blast
  qed simp_all
qed

lemma notes_keep_standing:
  "recorded p i bs q \<Longrightarrow> list_all is_note bs \<Longrightarrow> standing_in (log_of q) = standing_in (log_of p)"
  using standing_grows notes_effect by (fastforce simp: fun_eq_iff)

text \<open>A choice that moves the task, once carried out: the room granted first if the choice gives it.\<close>

lemma grant_room_cases:
  assumes p: "current p" and run: "grant_room w k i room p = (r, q)"
  obtains (granted) c where "room" "read_contract (files_of p) i = Inr c"
      "recorded p i [TaskRoomGranted (unat (max_sessions (contract_budget c))) (max_cost_usd (contract_budget c))] q"
      "r = Inr (Inr ())"
    | (no_room) "\<not> room" "q = p" "r = Inr (Inr ())"
    | (failed) e where "recorded p i [] q" "r = Inl e"
    | (behind) "left_behind r"
proof (cases room)
  case False
  then show thesis using run that(2) by (simp add: grant_room_def tool_answer_def)
next
  case True
  show thesis
  proof (cases "read_contract (files_of p) i")
    case (Inl e)
    then have "recorded p i [] q" "r = Inl e" using True run p by (auto simp: grant_room_def door_then_reading)
    then show thesis using that(3) by blast
  next
    case (Inr c)
    then have "call_append w k i (TaskRoomGranted (unat (max_sessions (contract_budget c)))
        (max_cost_usd (contract_budget c))) p = (r, q)"
      using True run by (simp add: grant_room_def door_then_reading)
    with p show thesis
      using that(1) [OF True Inr] that(3,4) by (cases rule: call_append_cases) auto
  qed
qed

lemma move_the_task_moved:
  assumes p: "current p" and run: "move_the_task w k i st extra room ask message p = (Inr (Inr ()), q)"
  obtains bs s where "recorded p i bs q" "list_all undecided bs"
    "\<exists>b. TaskTransitioned b \<in> set bs \<and> move_to b = st \<and> move_actor b = ProductManagerActor"
    "standing_in (log_of q) i = Some s" "stands s = st"
proof -
  from run [unfolded move_the_task_def] obtain u where u: "grant_room w k i room p = (Inr (Inr ()), u)"
    and rest: "tool_then (ask_governor w k i st ask) (\<lambda>_. call_append w k i (EscalationResolved st message (caller k)
       (case extra of None \<Rightarrow> None | Some n \<Rightarrow> if n = 0 then None else Some n))) u = (Inr (Inr ()), q)"
    by (cases rule: tool_then_cases) auto
  have "records i undecided (grant_room w k i room)"
    by (auto simp: grant_room_def undecided_def intro!: recording)
  from recordsD [OF this p u left_behind_Inr] obtain gs where gs: "recorded p i gs u" "list_all undecided gs" by blast
  note cu = recorded_current [OF gs(1)]
  from rest obtain a v where v: "ask_governor w k i st ask u = (Inr (Inr a), v)"
    and last: "call_append w k i (EscalationResolved st message (caller k)
       (case extra of None \<Rightarrow> None | Some n \<Rightarrow> if n = 0 then None else Some n)) v = (Inr (Inr ()), q)"
    by (cases rule: tool_then_cases) auto
  obtain bs s where bs: "recorded u i bs v" "list_all undecided bs"
    "\<exists>b. TaskTransitioned b \<in> set bs \<and> move_to b = st \<and> move_actor b = ProductManagerActor"
    "standing_in (log_of v) i = Some s" "stands s = st"
    using ask_governor_moved [OF cu v] by metis
  from recorded_current [OF bs(1)] last
  obtain b where b: "recorded v i [b] q" "is_note b" "undecided b"
    by (cases rule: call_append_cases) (auto simp: undecided_def)
  have "standing_in (log_of q) i = Some s" using notes_keep_standing [OF b(1)] b(2) bs(4) by simp
  then show thesis
    using that [OF recorded_trans [OF gs(1) recorded_trans [OF bs(1) b(1)]]] gs(2) bs(2,3,5) b(3) by auto
qed

lemma recorded_unique: "recorded p i bs q \<Longrightarrow> recorded p i cs q \<Longrightarrow> bs = cs"
  by (auto simp: recorded_def)

lemma flagged_after_notes: "list_all is_note (flagged_after k needs)" "list_all undecided (flagged_after k needs)"
  by (simp_all add: flagged_after_def undecided_def split: option.split)

lemma planner_active:
  assumes "planner t = Some a"
  shows "a \<in> set (active_members t) \<and> (is_solo t \<or> agent_role a = ProductManager)"
  using assms by (auto simp: planner_def split: if_splits list.splits dest: find_Some_in)

lemma recorded_last:
  assumes "recorded p i (bs @ [b]) q"
  obtains l e where "log_of q = l @ [e]" "body e = b" "about_task (ids e) = Some i"
proof -
  obtain es where es: "log_of q = log_of p @ es" "map body es = bs @ [b]" "\<forall>e \<in> set es. about_task (ids e) = Some i"
    using assms by (auto simp: recorded_def)
  from es(2) obtain fs e where "es = fs @ [e]" "body e = b" by (cases es rule: rev_cases) auto
  then show thesis using that [of "log_of p @ fs" e] es by simp
qed

lemma recorded_flag:
  assumes "recorded p i (bs @ [b]) q"
  shows "b = TaskFlagged needs who \<Longrightarrow> is_flagged (log_of q) i"
    and "b = TeamDecided d \<Longrightarrow> decided_change d = None \<Longrightarrow> decided_choice d \<noteq> Flag \<Longrightarrow> \<not> is_flagged (log_of q) i"
proof -
  obtain l e where "log_of q = l @ [e]" "body e = b" "about_task (ids e) = Some i"
    by (rule recorded_last [OF assms])
  then show "b = TaskFlagged needs who \<Longrightarrow> is_flagged (log_of q) i"
    and "b = TeamDecided d \<Longrightarrow> decided_change d = None \<Longrightarrow> decided_choice d \<noteq> Flag \<Longrightarrow> \<not> is_flagged (log_of q) i"
    by (simp_all add: is_flagged_snoc flag_change_def)
qed

text \<open>What a decision leaves of its task: the task is flagged after it exactly when the choice was to flag it.\<close>

definition decided_for ::
  "tool_call \<Rightarrow> project \<Rightarrow> string \<Rightarrow> task_waits \<Rightarrow> decide_choice \<Rightarrow> string \<Rightarrow> string option \<Rightarrow> string option
     \<Rightarrow> event_body list \<Rightarrow> project \<Rightarrow> bool" where
  "decided_for k p i x c reason ans needs bs q \<longleftrightarrow>
     map body (history_of (log_of q) i) = map body (history_of (log_of p) i) @ bs
       @ TeamDecided (decision_of k c reason ans needs) # flagged_after k needs
     \<and> list_all undecided bs \<and> (needs \<noteq> None \<longleftrightarrow> c = Flag) \<and> (is_flagged (log_of q) i \<longleftrightarrow> c = Flag)
     \<and> (\<forall>st extra room. move_of c (wait_before x) (wait_blocked_from x) = Some (MoveTo st extra room) \<longrightarrow>
          (\<exists>b. TaskTransitioned b \<in> set bs \<and> move_to b = st \<and> move_actor b = ProductManagerActor)
          \<and> map_option stands (standing_at (tables_of q) i) = Some st)"

lemma carried_move:
  assumes p: "current p" and run: "carry_out w k i own no (Some (MoveTo st extra room)) reason ans p = (Inr (Inr ()), u)"
    and "recorded p i bs u" and "recorded u i cs q" and "list_all is_note cs"
  shows "(\<exists>b. TaskTransitioned b \<in> set bs \<and> move_to b = st \<and> move_actor b = ProductManagerActor)
    \<and> map_option stands (standing_in (log_of q) i) = Some st"
proof -
  obtain ask said where "move_the_task w k i st extra room ask said p = (Inr (Inr ()), u)"
    using run by (auto simp: carry_out_def Let_def)
  from move_the_task_moved [OF p this] obtain ds s where d: "recorded p i ds u"
    "\<exists>b. TaskTransitioned b \<in> set ds \<and> move_to b = st \<and> move_actor b = ProductManagerActor"
    "standing_in (log_of u) i = Some s" "stands s = st" by metis
  then show ?thesis
    using recorded_unique [OF d(1) assms(3)] notes_keep_standing [OF assms(4,5)] by simp
qed

text \<open>
  C11: What it takes for the team to decide a task, and what a decision leaves: autopilot is on, the
  decision is the planner's (the active Product Manager, or the one agent of a team of one), the task
  is not flagged and waits, the choice is one of those offered for its wait within the limits, and it is
  recorded last, a flag after it. A choice that moves the task moved it where it says, by the Product
  Manager's request; afterwards the task is flagged exactly when the choice was to flag it.
\<close>

theorem decision_is_the_planners:
  assumes p: "current p" and run: "decide_tool w k input p = (Inr (Inr (DecidedTask c i)), q)"
  shows "autopilot_in (log_of p)
    \<and> (\<exists>a \<in> set (active_members (caller_team k)). agent_id a = caller k
          \<and> (is_solo (caller_team k) \<or> agent_role a = ProductManager))
    \<and> \<not> is_flagged (log_of p) i
    \<and> (\<exists>own x bs ans needs. offers w p i own x c
          \<and> decided_for k p i x c (trim (in_reason input)) ans needs bs q)"
  using run
proof (cases rule: decide_tool_cases)
  case (tasked j)
  obtain a where a: "planner (caller_team k) = Some a" "agent_id a = caller k" using tasked(4) by auto
  from p tasked(5) show ?thesis
  proof (cases rule: decide_task_cases)
    case (chosen own x d no)
    from p chosen(3) show ?thesis
    proof (cases rule: make_choice_cases)
      case (made ans needs bs u tail)
      have cd: "c = d" "i = j" using made(8) [OF refl] by simp_all
      have tail: "tail = flagged_after k needs" using made(6) cd by simp
      have quiet: "list_all is_note (TeamDecided (decision_of k d (trim (in_reason input)) ans needs) # tail)"
        using tail flagged_after_notes by simp
      have whole: "recorded p j (bs @ TeamDecided (decision_of k d (trim (in_reason input)) ans needs) # tail) q"
        using recorded_trans [OF made(2,4)] by simp
      have flagged: "is_flagged (log_of q) j \<longleftrightarrow> d = Flag"
      proof (cases needs)
        case None
        then have "d \<noteq> Flag" using made(7) by simp
        moreover have "recorded p j (bs @ [TeamDecided (decision_of k d (trim (in_reason input)) ans needs)]) q"
          using whole tail None by (simp add: flagged_after_def)
        ultimately show ?thesis using recorded_flag(2) by (simp add: decision_of_def)
      next
        case (Some s)
        then have "recorded p j ((bs @ [TeamDecided (decision_of k d (trim (in_reason input)) ans needs)])
            @ [TaskFlagged s (caller k)]) q"
          using whole tail by (simp add: flagged_after_def)
        then show ?thesis using recorded_flag(1) made(7) Some by blast
      qed
      have moved: "(\<exists>b. TaskTransitioned b \<in> set bs \<and> move_to b = st \<and> move_actor b = ProductManagerActor)
          \<and> map_option stands (standing_at (tables_of q) j) = Some st"
        if "move_of d (wait_before x) (wait_blocked_from x) = Some (MoveTo st extra room)" for st extra room
        using carried_move [OF p made(1) [unfolded that] made(2,4) quiet]
          current_standing [OF recorded_current [OF made(4)]] by simp
      have "decided_for k p j x d (trim (in_reason input)) ans needs bs q"
        unfolding decided_for_def
        using recorded_history [OF whole, of j] tail made(3,7) flagged moved by auto
      moreover have "\<not> is_flagged (log_of p) j"
        using chosen(1) by (auto simp: offers_def wait_of_task_def split: if_splits)
      ultimately show ?thesis using tasked(3) planner_active [OF a(1)] a(2) chosen(1) cd
        unfolding team_decides_def by blast
    qed (blast, simp)
  qed blast
next
  case (changed n)
  from p changed(5) show ?thesis by (cases rule: decide_folder_change_cases) (blast, simp_all)
qed blast

section \<open>A refused decision\<close>

lemma append_never_refuses: "call_append w k i b p \<noteq> (Inr (Inl no), q)"
  by (auto simp: call_append_def door_then_def tool_answer_def split: prod.splits sum.splits)

lemma record_decision_refuses:
  assumes "record_decision w k i c reason ans needs p = (Inr (Inl no), q)"
  shows "no = UnfitWords"
  using assms append_never_refuses
  by (auto simp: record_decision_def Let_def unless_then_def refuse_tool_def tool_answer_def
      split: if_splits option.splits elim!: tool_then_cases)

lemma governor_refuses_choice:
  assumes "make_choice w k i input reason own x no c p = (Inr (Inl (GovernorRefused why)), q)"
  obtains ans where "carry_out w k i own no (move_of c (wait_before x) (wait_blocked_from x)) reason ans p
      = (Inr (Inl (GovernorRefused why)), q)"
proof -
  from assms [unfolded make_choice_def] show thesis
  proof (cases rule: with_words_cases)
    case (taken ans)
    from taken(1) show ?thesis
    proof (cases rule: with_words_cases)
      case (taken needs)
      from taken(1) show ?thesis
      proof (cases rule: tool_then_cases)
        case (refused n)
        then show ?thesis using that by simp
      next
        case (went a u)
        from went(2) show ?thesis
          by (cases rule: tool_then_cases) (auto simp: tool_answer_def dest: record_decision_refuses)
      qed simp
    qed simp
  qed simp
qed

text \<open>
  C27: A decision to give a task more room grants the room before it asks: when the governor refuses the
  move, the room stays granted, nothing is decided, and the team's count of what it gave the task does
  not know of it.
\<close>

theorem refused_room_stays_granted:
  assumes p: "current p" and run: "decide_tool w k input p = (Inr (Inl (GovernorRefused no)), q)"
    and "in_task input = Some i" and "in_choice input = ''more_room''"
  shows "\<exists>c bs. read_contract (files_of p) i = Inr c
    \<and> map body (history_of (log_of q) i) = map body (history_of (log_of p) i)
        @ TaskRoomGranted (unat (max_sessions (contract_budget c))) (max_cost_usd (contract_budget c)) # bs
    \<and> list_all undecided bs \<and> team_spent_on (log_of q) i = team_spent_on (log_of p) i"
  using run
proof (cases rule: decide_tool_cases)
  case (tasked j)
  then have j: "j = i" using assms(3) by simp
  from p tasked(5) show ?thesis
  proof (cases rule: decide_task_cases)
    case (chosen own x c n)
    have "choice_wire c = choice_wire MoreRoom" using chosen(2) assms(4) by simp
    then have c: "c = MoreRoom" by (simp only: choice_wire_inject)
    have "wait_before x \<noteq> None"
      using chosen(1) offered_within_limits(4) c by (fastforce simp: offers_def)
    then obtain st where st: "wait_before x = Some st" by blast
    obtain ans where "carry_out w k i own n (Some (MoveTo st None True)) (trim (in_reason input)) ans p
        = (Inr (Inl (GovernorRefused no)), q)"
      using governor_refuses_choice [OF chosen(3)] c st j by auto
    then obtain ask said where "move_the_task w k i st None True ask said p = (Inr (Inl (GovernorRefused no)), q)"
      by (auto simp: carry_out_def Let_def)
    from this [unfolded move_the_task_def] show ?thesis
    proof (cases rule: tool_then_cases)
      case (refused m)
      from p refused(1) show ?thesis by (cases rule: grant_room_cases) auto
    next
      case (went a u)
      from p went(1) show ?thesis
      proof (cases rule: grant_room_cases)
        case (granted ct)
        have "records i undecided (ask_governor w k i st ask)" by (rule records_ask_governor)
        moreover from went(2) have "ask_governor w k i st ask u = (Inr (Inl (GovernorRefused no)), q)"
          by (cases rule: tool_then_cases) (auto simp: append_never_refuses)
        ultimately obtain bs where bs: "recorded u i bs q" "list_all undecided bs"
          by (meson recordsD recorded_current [OF granted(3)] left_behind_Inr)
        note whole = recorded_trans [OF granted(3) bs(1)]
        have "decisions_in (log_of q) = decisions_in (log_of p)"
          using decisions_recorded [OF whole] undecided_none [OF bs(2)] by (simp add: decided_body_def)
        then have "team_spent_on (log_of q) i = team_spent_on (log_of p) i"
          by (simp add: team_spent_counts grants_on_def reopens_on_def)
        then show ?thesis using recorded_history [OF whole, of i] granted(2) bs(2) by auto
      qed simp_all
    qed simp
  qed blast
next
  case (changed n)
  then show ?thesis using assms(3) by simp
qed blast

end
