(* ===== verification/Lone_Agent.thy ===== *)
theory Lone_Agent
  imports Team_Decisions
begin

text \<open>
  A team of one agent, a Software Developer, under autopilot, whose one task escalated for want of room:
  the concrete input of the properties of a decide session. The agent may flag the task. It may not give
  it more room, since the door hears a move asked in the Product Manager's name only from the holder of
  that role.
\<close>

section \<open>The project\<close>

definition lone_team :: team where
  "lone_team = sample_team\<lparr>agents := [sample_agent ''agent-1'' SoftwareDeveloper Active],
     team_policy := sample_policy\<lparr>solo_field := Some True\<rparr>\<rparr>"

definition lone_move :: move_body where
  "lone_move = \<lparr>move_from = InProgress, move_to = Escalated, move_actor = GovernorActor,
     move_requested_by = ''governor'', move_gate = GovernorEscalation, move_effects = [RaiseEscalationItem],
     move_assignee = Some ''agent-1'', move_reviewer = None, move_iteration = 0, move_blocker = None,
     move_blocker_resolution = None, move_rejection = None, move_reason = None, move_changed = None\<rparr>"

definition lone_log :: log where
  "lone_log = [about_event 1 ''CTV-7'' (TaskCreated (summary_at InProgress) False None None),
     about_event 2 ''CTV-7'' (TaskTransitioned lone_move),
     about_event 3 ''CTV-7'' (WaitingEvent (EscalationRaised BudgetReason ''spent'')),
     (sample_event 4 (AutopilotChanged True))\<lparr>ids := \<lparr>about_task = None, by_agent = None, in_session = None\<rparr>\<rparr>]"

definition lone_granted :: event where
  "lone_granted = (about_event 5 ''CTV-7'' (TaskRoomGranted 4 (Finite 2)))
     \<lparr>ids := \<lparr>about_task = Some ''CTV-7'', by_agent = Some ''agent-1'', in_session = Some ''session-1''\<rparr>\<rparr>"

definition lone_row :: task_row where
  "lone_row = (new_row ''CTV-7'' (summary_at Escalated) 3)\<lparr>row_assignee := Some ''agent-1'', interventions := 1\<rparr>"

definition lone_project :: "log \<Rightarrow> nat \<Rightarrow> project" where
  "lone_project l n =
     \<lparr>log_of = l, tables_of = empty_tables\<lparr>task_rows := [lone_row], cursor := length l\<rparr>,
      files_of = [''CTV-7'' \<mapsto> sample_task Escalated], ticks = n\<rparr>"

lemmas lone_defs = lone_log_def lone_move_def lone_granted_def about_event_def sample_event_def summary_at_def

lemma lone_current: "current (lone_project lone_log n)" "current (lone_project (lone_log @ [lone_granted]) n)"
proof -
  have numbered: "well_numbered lone_log" "well_numbered (lone_log @ [lone_granted])"
    by (simp_all add: lone_defs well_numbered_def SEQ_MAX_def upt_rec)
  have "replay lone_log = Inr (tables_of (lone_project lone_log n))"
    "replay (lone_log @ [lone_granted]) = Inr (tables_of (lone_project (lone_log @ [lone_granted]) n))"
    by (simp_all add: lone_defs replay_def run_defs lone_project_def lone_row_def is_intervention_def)
  then show "current (lone_project lone_log n)" "current (lone_project (lone_log @ [lone_granted]) n)"
    using numbered is_replay_iff_whole by (auto simp: current_def lone_project_def)
qed

lemma lone_board:
  "\<exists>own. board_of sample_world (lone_project l n) = Inr [own] \<and> row_of_task sample_world (lone_project l n) ''CTV-7'' = Inr (Some own)
     \<and> b_task own = ''CTV-7'' \<and> b_parent own = None \<and> b_status own = Escalated"
  by (simp add: board_of_def board_def stored_def map_err_def lone_project_def projection_of_row_def row_of_task_def task_on_def
      u32_try_def new_row_def sample_summary_def lone_row_def summary_at_def row_in_def)

lemma lone_read: "read_contract (files_of (lone_project l n)) ''CTV-7'' = Inr (sample_task Escalated)"
  by (simp add: read_contract_def lone_project_def sample_task_def)

lemma lone_readable:
  assumes "asked_task rq = ''CTV-7''" and "new_project l = None"
  shows "\<exists>x. context_at sample_world (lone_project l n) now rq ask t = Inr x"
proof -
  obtain own where own: "board_of sample_world (lone_project l n) = Inr [own]" "b_task own = ''CTV-7''" "b_parent own = None"
    using lone_board by blast
  show ?thesis
    by (rule one_task_readable [OF own lone_read _ _ _ _ _ assms(1)])
      (use assms(2) in \<open>simp_all add: lone_project_def empty_tables_def sample_task_def sample_contract_def
        task_private_folder_def private_folder_def\<close>)
qed

lemma lone_waits: "row_of_task sample_world (lone_project lone_log n) ''CTV-7'' = Inr (Some own) \<Longrightarrow>
  wait_of_task sample_world (lone_project lone_log n) ''CTV-7'' own
   = Inr (Some \<lparr>wait_reason = ''budget'', wait_before = Some InProgress, wait_blocked_from = None\<rparr>)"
proof -
  assume row: "row_of_task sample_world (lone_project lone_log n) ''CTV-7'' = Inr (Some own)"
  then obtain "board_of sample_world (lone_project lone_log n) = Inr [own]" "b_task own = ''CTV-7''" "b_status own = Escalated"
    using lone_board [of lone_log n] by auto
  moreover have "\<not> is_flagged lone_log ''CTV-7''"
    by (simp add: is_flagged_keys flag_maps_of_def take_flag_def unflag_task_def lone_defs)
  moreover have "log_of (lone_project lone_log n) = lone_log" by (simp add: lone_project_def)
  ultimately show ?thesis using row
    by (simp add: wait_of_task_def waits_of_def Let_def open_escalations_def open_escalation_of_def
       history_of_def lone_defs last_where_def escalation_counts_def from_of_last_move_def last_move_into_def is_move_into_def)
qed


definition lone_call :: tool_call where
  "lone_call = \<lparr>caller = ''agent-1'', caller_role = SoftwareDeveloper, caller_session = ''session-1'', caller_team = lone_team\<rparr>"

definition lone_input :: "string \<Rightarrow> string option \<Rightarrow> decide_input" where
  "lone_input c needs = \<lparr>in_task = Some ''CTV-7'', in_change = None, in_choice = c, in_reason = ''spent'',
     in_answer = None, in_needs = needs\<rparr>"

section \<open>What it decides\<close>

lemma lone_trims: "trim ''spent'' = ''spent''" "trim ''agent-1'' = ''agent-1''" "trim ''a key'' = ''a key''"
    "trimmed (Some ''agent-1'') = Some ''agent-1''" "trimmed (Some ''session-1'') = Some ''session-1''"
  by code_simp+

lemma lone_decide_task:
  assumes "row_of_task sample_world (lone_project lone_log n) ''CTV-7'' = Inr (Some own)"
    and "c \<in> {MoreRoom, Cancel, Flag}"
  shows "\<exists>no. decide_tool sample_world lone_call (lone_input (choice_wire c) needs) (lone_project lone_log n)
    = make_choice sample_world lone_call ''CTV-7'' (lone_input (choice_wire c) needs) ''spent'' own
        \<lparr>wait_reason = ''budget'', wait_before = Some InProgress, wait_blocked_from = None\<rparr> no c (lone_project lone_log n)"
proof -
  have on: "team_decides lone_log lone_team"
    by (simp add: team_decides_def lone_defs autopilot_in_def is_solo_def lone_team_def)
  have planner: "map_option agent_id (planner lone_team) = Some ''agent-1''"
    by (simp add: planner_def is_solo_def lone_team_def active_members_def sample_agent_def)
  have spent: "team_spent_on lone_log ''CTV-7'' = \<lparr>spent_grants = 0, spent_reopens = 0\<rparr>"
    by (simp add: team_spent_on_def history_of_def lone_defs decided_in_def)
  have task: "is_task_id ''CTV-7''" by code_simp
  have offered: "offered_choice (choice_wire c) (choices_for ''budget'' (Some InProgress) None \<lparr>spent_grants = 0, spent_reopens = 0\<rparr>) = Some c"
    using assms(2) choice_round_trip [of "choice_wire c" c]
    by (auto simp: offered_choice_def choices_for_def wait_kind_of_def TEAM_GRANTS_PER_TASK_def)
  have l: "log_of (lone_project lone_log n) = lone_log" by (simp add: lone_project_def)
  show ?thesis
    using on planner spent task offered assms(1) lone_waits [OF assms(1)] lone_trims(1)
    by (simp add: decide_tool_def door_then_reading unless_then_def lone_call_def lone_input_def l decide_task_def Let_def)
       blast
qed

lemma lone_refused:
  assumes "context_at sample_world (lone_project l n) now (ask_of_the_planner lone_call ''CTV-7'' to) ask lone_team = Inr x"
  shows "\<exists>no. decide w (lone_project l n) (ask_of_the_planner lone_call ''CTV-7'' to) ask' lone_team x = Inl no"
proof -
  let ?rq = "ask_of_the_planner lone_call ''CTV-7'' to"
  obtain own where own: "board_of sample_world (lone_project l n) = Inr [own]" "b_task own = ''CTV-7''"
    "b_status own = Escalated"
    using lone_board by blast
  then have "known_row [own] (asked_task ?rq) = Inr own"
    by (simp add: ask_of_the_planner_def known_row_def row_of_def)
  with context_contract [OF assms] own(1) obtain held where "ctx_contract x = as_on_the_board own held"
    by (metis sum.inject(2))
  with own(3) have "\<not> the_given_agent (log_of (lone_project l n)) lone_team ?rq (ctx_contract x)"
    by (simp add: the_given_agent_def as_on_the_board_def)
  moreover have "\<not> holds_role lone_team ProductManager (asked_agent ?rq)"
    by (simp add: holds_role_def lone_team_def active_members_def sample_agent_def ask_of_the_planner_def)
  ultimately show ?thesis
    by (simp add: decide_def refused_before_the_governor_def ask_of_the_planner_def)
qed

lemma call_append_runs:
  assumes "current p" and "length (log_of p) < SEQ_MAX"
  shows "\<exists>q. call_append sample_world k i b p = (Inr (Inr ()), q) \<and> current q \<and> length (log_of q) = length (log_of p) + 1"
proof -
  obtain q where "append_about sample_world i (Some (caller k)) (Some (caller_session k)) b p = (Inr (), q)"
    using answersD [OF answers_append_about assms(1), of sample_world i "Some (caller k)" "Some (caller_session k)" b] assms(2)
    by auto
  then have q: "call_append sample_world k i b p = (Inr (Inr ()), q)" by (simp add: call_append_def door_then_def tool_answer_def)
  from assms(1) q show ?thesis
    by (cases rule: call_append_cases) (use q recorded_current recorded_length in force)+
qed

lemma lone_room: "length lone_log + 10 \<le> SEQ_MAX" "length lone_log + MOST_EVENTS + 1 \<le> SEQ_MAX"
  by (simp_all add: lone_log_def SEQ_MAX_def MOST_EVENTS_def TRANSITION_TABLE_def)

lemma lone_caller: "caller lone_call = ''agent-1''"
  by (simp add: lone_call_def)

lemma lone_flags:
  "\<exists>q. decide_tool sample_world lone_call (lone_input ''flag'' (Some ''a key'')) (lone_project lone_log 0)
    = (Inr (Inr (DecidedTask Flag ''CTV-7'')), q) \<and> length (log_of q) = length lone_log + 2"
proof -
  let ?p = "lone_project lone_log 0"
  obtain own where own: "row_of_task sample_world ?p ''CTV-7'' = Inr (Some own)" using lone_board by blast
  obtain no where run: "decide_tool sample_world lone_call (lone_input ''flag'' (Some ''a key'')) ?p
    = make_choice sample_world lone_call ''CTV-7'' (lone_input ''flag'' (Some ''a key'')) ''spent'' own
        \<lparr>wait_reason = ''budget'', wait_before = Some InProgress, wait_blocked_from = None\<rparr> no Flag ?p"
    using lone_decide_task [OF own, of Flag "Some ''a key''"] by auto
  let ?d = "decision_of lone_call Flag ''spent'' None (Some ''a key'')"
  have l: "log_of ?p = lone_log" by (simp add: lone_project_def)
  obtain u where u: "call_append sample_world lone_call ''CTV-7'' (TeamDecided ?d) ?p = (Inr (Inr ()), u)"
    "current u" "length (log_of u) = length lone_log + 1"
    using call_append_runs [OF lone_current(1) [of 0], of lone_call "''CTV-7''" "TeamDecided ?d"] lone_room(1)
    unfolding l by auto
  obtain q where q: "call_append sample_world lone_call ''CTV-7'' (TaskFlagged ''a key'' ''agent-1'') u = (Inr (Inr ()), q)"
    "length (log_of q) = length lone_log + 2"
    using call_append_runs [OF u(2), of lone_call "''CTV-7''" "TaskFlagged ''a key'' ''agent-1''"] lone_room(1) u(3) by auto
  have d: "?d = \<lparr>decided_choice = Flag, decided_reason = ''spent'', decided_by = ''agent-1'', decided_answer = None,
               decided_needs = Some ''a key'', decided_change = None\<rparr>"
    by (simp add: decision_of_def lone_call_def)
  have "make_choice sample_world lone_call ''CTV-7'' (lone_input ''flag'' (Some ''a key'')) ''spent'' own
        \<lparr>wait_reason = ''budget'', wait_before = Some InProgress, wait_blocked_from = None\<rparr> no Flag ?p
     = (Inr (Inr (DecidedTask Flag ''CTV-7'')), q)"
    using u(1) [unfolded d] q(1) lone_trims
    by (simp add: make_choice_def with_words_def carry_out_def written_words_def lone_input_def record_decision_def
        tool_then_def tool_answer_def door_then_def answer_def unless_then_def decision_fits_def fits_def lone_caller)
  then show ?thesis using run q(2) by auto
qed

lemma lone_room_refused:
  "\<exists>why q. decide_tool sample_world lone_call (lone_input ''more_room'' None) (lone_project lone_log 0)
    = (Inr (Inl (GovernorRefused why)), q)"
proof -
  let ?p = "lone_project lone_log 0" and ?u = "lone_project (lone_log @ [lone_granted]) 1"
  obtain own where own: "row_of_task sample_world ?p ''CTV-7'' = Inr (Some own)" "b_status own = Escalated" using lone_board by blast
  obtain no where run: "decide_tool sample_world lone_call (lone_input ''more_room'' None) ?p
    = make_choice sample_world lone_call ''CTV-7'' (lone_input ''more_room'' None) ''spent'' own
        \<lparr>wait_reason = ''budget'', wait_before = Some InProgress, wait_blocked_from = None\<rparr> no MoreRoom ?p"
    using lone_decide_task [OF own(1), of MoreRoom None] by auto
  have granted: "grant_room sample_world lone_call ''CTV-7'' True ?p = (Inr (Inr ()), ?u)"
  proof -
    have grant: "grant_room sample_world lone_call ''CTV-7'' True ?p
        = call_append sample_world lone_call ''CTV-7'' (TaskRoomGranted 4 (Finite 2)) ?p"
      by (simp add: grant_room_def door_then_reading lone_read sample_task_def sample_contract_def)
    let ?ids = "\<lparr>about_task = Some ''CTV-7'', by_agent = Some ''agent-1'', in_session = Some ''session-1''\<rparr>"
    have "append None lone_log 0 ?ids (TaskRoomGranted 4 (Finite 2)) = Inr lone_granted"
      by (simp add: append_def lone_defs last_seq_def SEQ_MAX_def lone_trims)
    moreover have "apply_event (lone_log @ [lone_granted]) lone_granted (tables_of ?p) = Inr (tables_of ?u)"
      by (simp add: lone_defs run_defs lone_project_def)
    moreover have "log_of ?p = lone_log" "?p\<lparr>ticks := Suc 0, log_of := lone_log @ [lone_granted], tables_of := tables_of ?u\<rparr> = ?u"
      "log_of ?u = lone_log @ [lone_granted]" "ticks ?p = 0" "clock_at sample_world 0 = 0"
      by (simp_all add: lone_project_def sample_world_def)
    ultimately show ?thesis unfolding grant
      by (simp add: call_append_def append_about_def log_event_def project_event_def door_then_def read_clock_def
          lone_call_def tool_answer_def answer_def)
  qed
  let ?ask = "no_ask\<lparr>ask_reason := Some ''spent'', ask_grants_tries := False, ask_resolution := None, ask_session := Some ''session-1''\<rparr>"
  let ?rq = "ask_of_the_planner lone_call ''CTV-7'' InProgress"
  have rq: "asked_task ?rq = ''CTV-7''" "asked_to ?rq = InProgress" by (simp_all add: ask_of_the_planner_def)
  have np: "new_project (lone_log @ [lone_granted]) = None" by (simp add: lone_defs new_project_def)
  obtain x where x: "context_at sample_world ?u (clock_at sample_world (ticks ?u)) ?rq (tidied ?ask) lone_team = Inr x"
    using lone_readable [OF rq(1) np] by blast
  have tidy: "tidy_first sample_world ?rq ?ask lone_team ?u = (Inr (), ?u)" using sample_untidied rq(2) by simp
  have room: "length (log_of ?u) + MOST_EVENTS \<le> SEQ_MAX" using lone_room by (simp add: lone_project_def)
  obtain q why where "request sample_world ?rq ?ask lone_team ?u = (Inr (RefusedFor why), q)"
    using answered_request [OF lone_current(2) tidy x room] lone_refused [OF x, of sample_world "tidied ?ask"] by auto
  then have "ask_governor sample_world lone_call ''CTV-7'' InProgress
      (no_ask\<lparr>ask_reason := Some ''spent'', ask_grants_tries := False, ask_resolution := None\<rparr>) ?u
      = (Inr (Inl (GovernorRefused why)), q)"
    by (simp add: ask_governor_def lone_call_def door_then_def refuse_tool_def answer_def)
  then have "make_choice sample_world lone_call ''CTV-7'' (lone_input ''more_room'' None) ''spent'' own
        \<lparr>wait_reason = ''budget'', wait_before = Some InProgress, wait_blocked_from = None\<rparr> no MoreRoom ?p
      = (Inr (Inl (GovernorRefused why)), q)"
    using granted own(2)
    by (simp add: make_choice_def with_words_def carry_out_def move_the_task_def tool_then_def door_then_def refuse_tool_def answer_def Let_def)
  then show ?thesis using run by auto
qed

lemma lone_within: "within_team_limits (log_of (lone_project lone_log n))"
  by (simp add: within_team_limits_def grants_on_def reopens_on_def retries_on_def decisions_in_def decided_in_def
      lone_project_def lone_defs)

section \<open>Witnesses\<close>

theorem decision_is_the_planners_witness:
  "\<exists>q. decide_tool sample_world lone_call (lone_input ''flag'' (Some ''a key'')) (lone_project lone_log 0)
      = (Inr (Inr (DecidedTask Flag ''CTV-7'')), q)
    \<and> is_flagged (log_of q) ''CTV-7'' \<and> is_solo lone_team"
proof -
  obtain q where run: "decide_tool sample_world lone_call (lone_input ''flag'' (Some ''a key'')) (lone_project lone_log 0)
      = (Inr (Inr (DecidedTask Flag ''CTV-7'')), q)"
    using lone_flags by blast
  from decision_is_the_planners [OF lone_current(1) run] have "is_flagged (log_of q) ''CTV-7''"
    by (auto simp: decided_for_def)
  then show ?thesis using run by (auto simp: is_solo_def lone_team_def)
qed

theorem team_spends_within_its_limits_witness:
  "\<exists>q. team_run (lone_project lone_log 0) q \<and> length (log_of q) = 6
     \<and> grants_on (log_of q) ''CTV-7'' \<le> 3 \<and> retries_on (log_of q) 1 \<le> 3"
proof -
  obtain q where q: "decide_tool sample_world lone_call (lone_input ''flag'' (Some ''a key'')) (lone_project lone_log 0)
      = (Inr (Inr (DecidedTask Flag ''CTV-7'')), q)" "length (log_of q) = 6"
    using lone_flags by (auto simp: lone_log_def)
  have run: "team_run (lone_project lone_log 0) q"
    using then_step [OF no_step by_decision [OF q(1) left_behind_Inr]] .
  show ?thesis using team_spends_within_its_limits [OF run lone_current(1) lone_within] run q(2) by blast
qed

theorem refused_room_stays_granted_witness:
  "\<exists>why q bs. decide_tool sample_world lone_call (lone_input ''more_room'' None) (lone_project lone_log 0)
      = (Inr (Inl (GovernorRefused why)), q)
    \<and> map body (history_of (log_of q) ''CTV-7'')
        = map body (history_of lone_log ''CTV-7'') @ TaskRoomGranted 4 (Finite 2) # bs
    \<and> spent_grants (team_spent_on (log_of q) ''CTV-7'') = 0"
proof -
  let ?p = "lone_project lone_log 0"
  obtain why q where run: "decide_tool sample_world lone_call (lone_input ''more_room'' None) ?p
      = (Inr (Inl (GovernorRefused why)), q)"
    using lone_room_refused by blast
  have l: "log_of ?p = lone_log" by (simp add: lone_project_def)
  have spent: "team_spent_on lone_log ''CTV-7'' = \<lparr>spent_grants = 0, spent_reopens = 0\<rparr>"
    by (simp add: team_spent_on_def history_of_def lone_defs decided_in_def)
  from refused_room_stays_granted [OF lone_current(1) run, of "''CTV-7''"]
  obtain bs where "map body (history_of (log_of q) ''CTV-7'')
        = map body (history_of lone_log ''CTV-7'') @ TaskRoomGranted 4 (Finite 2) # bs"
    "team_spent_on (log_of q) ''CTV-7'' = team_spent_on lone_log ''CTV-7''"
    by (auto simp: lone_input_def lone_read l sample_task_def sample_contract_def)
  then show ?thesis using run spent by auto
qed
end
