(* ===== verification/Governor_Rules.thy ===== *)
theory Governor_Rules
  imports Lifecycle Team_Log
begin

text \<open>
  The rules of a tick that start no session and ask the governor as itself
  (crates/runtime/src/orchestrator/rules.rs, requests.rs and design.rs): a spent task, a rejected one,
  a block past its limit, a cancelled dependency, the design plans returned as often as they may be,
  the judgment of a contract, and the hand-over of a task its agent has no room for. A rule takes the
  project through the door and gives its report with the project it leaves. The tick reads the board
  once and gives it to each rule. The dollars of a report's words are written by the parameter \<open>usd\<close>.
\<close>

section \<open>A tick\<close>

datatype tick_report = Acted string string \<comment> \<open>the task, what was done\<close>

datatype tick_rules = AllRules | PlanningRules | RefiningRules

record tick_scope =
  scope_task :: "string option"
  scope_rules :: tick_rules

type_synonym rule_answer = "tick_report option door"

definition rule_runs :: "tick_rules \<Rightarrow> nat \<Rightarrow> bool" where
  "rule_runs set_of_rules n \<longleftrightarrow>
     (case set_of_rules of AllRules \<Rightarrow> True | PlanningRules \<Rightarrow> n \<in> {8..10} | RefiningRules \<Rightarrow> n \<in> {9, 10})"

definition is_in_scope :: "tick_scope \<Rightarrow> (string \<Rightarrow> bool) \<Rightarrow> board_row \<Rightarrow> bool" where
  "is_in_scope sc busy r \<longleftrightarrow>
     (case scope_task sc of None \<Rightarrow> True | Some i \<Rightarrow> b_task r = i) \<and> \<not> busy (b_task r)"

definition waiting_on_nobody :: "board_row list \<Rightarrow> task_status \<Rightarrow> string list \<Rightarrow> board_row list" where
  "waiting_on_nobody b st held =
     filter (\<lambda>r. b_status r = st \<and> \<not> b_waiting_on_human r \<and> b_task r \<notin> set held) b"

definition held_for_the_owner :: "log \<Rightarrow> string list" where
  "held_for_the_owner l = (if autopilot_in l then filter_map flagged_task (flags_of l) else [])"

text \<open>The loops of a tick: the first report of a rule on the rows it is given.\<close>

fun first_report :: "('x \<Rightarrow> rule_answer) \<Rightarrow> 'x list \<Rightarrow> rule_answer" where
  "first_report f [] = answer None"
| "first_report f (x # xs) =
     door_then (f x) (\<lambda>r. case r of Some _ \<Rightarrow> answer r | None \<Rightarrow> first_report f xs)"

section \<open>Asking the governor\<close>

definition refused_since_entering :: "log \<Rightarrow> string \<Rightarrow> task_status \<Rightarrow> task_status \<Rightarrow> bool" where
  "refused_since_entering l i from to =
     list_ex (\<lambda>e. case body e of TransitionRefused b \<Rightarrow> refused_from b = from \<and> refused_to b = to | _ \<Rightarrow> False)
       (takeWhile (\<lambda>e. \<not> is_move_into from e) (rev (history_of l i)))"

definition governor_request :: "string \<Rightarrow> task_status \<Rightarrow> transition_request" where
  "governor_request i to =
     \<lparr>asked_task = i, asked_to = to, asked_actor = GovernorActor, asked_agent = None\<rparr>"

definition governor_moves_with ::
  "world \<Rightarrow> team \<Rightarrow> string \<Rightarrow> task_status \<Rightarrow> transition_ask \<Rightarrow> transition_outcome door" where
  "governor_moves_with w t i to ask = request w (governor_request i to) ask t"

definition governor_moves :: "world \<Rightarrow> team \<Rightarrow> string \<Rightarrow> task_status \<Rightarrow> transition_outcome door" where
  "governor_moves w t i to = governor_moves_with w t i to no_ask"

definition seen_refused :: "string \<Rightarrow> task_status \<Rightarrow> task_status \<Rightarrow> bool door" where
  "seen_refused i from to = reading (\<lambda>p. Inr (refused_since_entering (log_of p) i from to))"

text \<open>The report of a move the governor made, and none of one it refused.\<close>

definition acted_if_moved :: "string \<Rightarrow> string \<Rightarrow> transition_outcome \<Rightarrow> tick_report option" where
  "acted_if_moved i what outcome = (case outcome of MovedTo _ \<Rightarrow> Some (Acted i what) | RefusedFor _ \<Rightarrow> None)"

section \<open>The rules\<close>

definition rejected_rule :: "world \<Rightarrow> team \<Rightarrow> board_row \<Rightarrow> rule_answer" where
  "rejected_rule w t r =
     door_then (seen_refused (b_task r) Rejected Escalated) (\<lambda>refused.
     if refused then answer None
     else door_then (governor_moves w t (b_task r) InProgress) (\<lambda>outcome.
       case outcome of
         MovedTo _ \<Rightarrow> answer (Some (Acted (b_task r) ''returned it to its assignee for another iteration''))
       | RefusedFor _ \<Rightarrow>
           door_then (governor_moves w t (b_task r) Escalated) (\<lambda>outcome.
             answer (acted_if_moved (b_task r) ''escalated it: it was rejected as often as it may be'' outcome))))"

text \<open>The team's hours as \<open>i64::try_from\<close> reads them, in nanoseconds. The team's schema stops them
  at 720, far below where chrono refuses to make a duration of them.\<close>

definition rule_hours :: "team \<Rightarrow> nat" where
  "rule_hours t = min (blocked_limit_hours (team_policy t)) (2 ^ 63 - 1)"

definition rule_limit :: "team \<Rightarrow> duration" where
  "rule_limit t = rule_hours t * 3600 * 1000000000"

definition blocked_rule :: "world \<Rightarrow> team \<Rightarrow> board_row \<Rightarrow> rule_answer" where
  "blocked_rule w t r =
     door_then (reading (\<lambda>p. Inr (last_move_into (history_of (log_of p) (b_task r)) Blocked))) (\<lambda>entered.
     case map_option recorded_at entered of
       None \<Rightarrow> answer None
     | Some blocked_at \<Rightarrow>
         door_then (read_clock w) (\<lambda>now.
         door_then (seen_refused (b_task r) Blocked Escalated) (\<lambda>refused.
         if now - blocked_at < int (rule_limit t) \<or> refused then answer None
         else door_then (governor_moves w t (b_task r) Escalated) (\<lambda>outcome.
           answer (acted_if_moved (b_task r)
             (''escalated it: blocked for '' @ decimal (rule_hours t) @ '' hours or more'') outcome)))))"

definition spent_words :: "(f64 \<Rightarrow> string) \<Rightarrow> budget_state \<Rightarrow> string option" where
  "spent_words usd s =
     (if list_ex (\<lambda>e. scope e = TaskUsd) (check_budgets s)
      then Some (''spent $'' @ usd (task_spent_usd s) @ '' of $'' @ usd (task_max_usd s))
      else if list_ex (\<lambda>e. scope e = TaskSessions) (check_budgets s)
      then Some (''spent '' @ decimal (unat (task_sessions s)) @ '' of ''
             @ decimal (unat (task_max_sessions s)) @ '' sessions'')
      else None)"

definition budget_read :: "world \<Rightarrow> team \<Rightarrow> task_contract \<Rightarrow> date_time \<Rightarrow> budget_state door" where
  "budget_read w t contract now =
     reading (\<lambda>p. stored (budget_state_of (sum_usd_of w) (float_add_of w) (log_of p) (tables_of p) t
       (assignee_role contract) (assignee contract) (Some contract) no_session now))"

definition escalate_if_spent :: "world \<Rightarrow> (f64 \<Rightarrow> string) \<Rightarrow> team \<Rightarrow> board_row \<Rightarrow> rule_answer" where
  "escalate_if_spent w usd t r =
     door_then (reading (\<lambda>p. read_contract (files_of p) (b_task r))) (\<lambda>contract.
     door_then (read_clock w) (\<lambda>now.
     door_then (budget_read w t contract now) (\<lambda>state.
     case spent_words usd state of
       None \<Rightarrow> answer None
     | Some words \<Rightarrow>
         door_then (seen_refused (b_task r) (b_status r) Escalated) (\<lambda>refused.
         if refused then answer None
         else door_then (governor_moves_with w t (b_task r) Escalated (no_ask\<lparr>ask_reason := Some words\<rparr>))
           (\<lambda>outcome. answer (acted_if_moved (b_task r)
              ''escalated it: its dollars or sessions are spent'' outcome))))))"

definition sent_back_unheard :: "log \<Rightarrow> bool" where
  "sent_back_unheard history =
     (case last_move_into history Refining of
        None \<Rightarrow> False
      | Some back \<Rightarrow> (case body back of
            TaskTransitioned b \<Rightarrow> move_requested_by b = ''human''
              \<and> \<not> list_ex (\<lambda>e. seq back < seq e \<and> body e = SessionStarted Refine) history
          | _ \<Rightarrow> False))"

definition in_the_budgets_sight :: "(string \<Rightarrow> bool) \<Rightarrow> board_row \<Rightarrow> bool" where
  "in_the_budgets_sight busy r \<longleftrightarrow>
     \<not> is_terminal (b_status r) \<and> b_status r \<notin> {Escalated, Ready, Assigned, Blocked}
     \<and> \<not> b_waiting_on_human r \<and> \<not> busy (b_task r)"

definition budget_rule ::
  "world \<Rightarrow> (f64 \<Rightarrow> string) \<Rightarrow> tick_scope \<Rightarrow> (string \<Rightarrow> bool) \<Rightarrow> team \<Rightarrow> board_row list \<Rightarrow> rule_answer" where
  "budget_rule w usd sc busy t b =
     (if scope_rules sc \<noteq> AllRules \<or> scope_task sc \<noteq> None then answer None
      else first_report (\<lambda>r.
        door_then (reading (\<lambda>p. Inr (history_of (log_of p) (b_task r)))) (\<lambda>history.
        if b_status r = Refining \<and> sent_back_unheard history then answer None
        else escalate_if_spent w usd t r)) (filter (in_the_budgets_sight busy) b))"

definition dependency_cancelled_rule ::
  "world \<Rightarrow> team \<Rightarrow> board_row list \<Rightarrow> board_row \<Rightarrow> rule_answer" where
  "dependency_cancelled_rule w t b r =
     door_then (reading (\<lambda>p. read_contract (files_of p) (b_task r))) (\<lambda>contract.
     case List.find (\<lambda>d. list_ex (\<lambda>other. b_task other = d \<and> b_status other = Cancelled) b)
            (dependencies contract) of
       None \<Rightarrow> answer None
     | Some d \<Rightarrow>
         door_then (governor_moves_with w t (b_task r) Refining
             (no_ask\<lparr>ask_reason := Some (d @ '' was cancelled'')\<rparr>)) (\<lambda>outcome.
           answer (acted_if_moved (b_task r) (''sent it back to refining: '' @ d @ '' was cancelled'') outcome)))"

text \<open>Rules 3 and 4 of the tick, and the dependencies between rules 7 and 8.\<close>

definition tick_rejected ::
  "world \<Rightarrow> tick_scope \<Rightarrow> (string \<Rightarrow> bool) \<Rightarrow> string list \<Rightarrow> string list \<Rightarrow> team \<Rightarrow> board_row list \<Rightarrow> rule_answer" where
  "tick_rejected w sc busy held workable t b =
     (if rule_runs (scope_rules sc) 3
      then first_report (rejected_rule w t)
        (filter (\<lambda>r. b_task r \<in> set workable)
          (filter (is_in_scope sc busy) (waiting_on_nobody b Rejected held)))
      else answer None)"

definition tick_blocked ::
  "world \<Rightarrow> tick_scope \<Rightarrow> (string \<Rightarrow> bool) \<Rightarrow> string list \<Rightarrow> team \<Rightarrow> board_row list \<Rightarrow> rule_answer" where
  "tick_blocked w sc busy held t b =
     (if rule_runs (scope_rules sc) 4
      then first_report (blocked_rule w t)
        (filter (is_in_scope sc busy) (waiting_on_nobody b Blocked held))
      else answer None)"

definition tick_cancelled ::
  "world \<Rightarrow> tick_scope \<Rightarrow> (string \<Rightarrow> bool) \<Rightarrow> string list \<Rightarrow> team \<Rightarrow> board_row list \<Rightarrow> rule_answer" where
  "tick_cancelled w sc busy held t b =
     (if scope_rules sc = AllRules
      then first_report (dependency_cancelled_rule w t b)
        (filter (is_in_scope sc busy) (waiting_on_nobody b Ready held))
      else answer None)"

section \<open>Design plans, judging and handing over\<close>

definition design_escalate :: "world \<Rightarrow> team \<Rightarrow> board_row \<Rightarrow> rule_answer" where
  "design_escalate w t r =
     door_then (seen_refused (b_task r) (b_status r) Escalated) (\<lambda>refused.
     if refused then answer None
     else door_then (governor_moves w t (b_task r) Escalated) (\<lambda>outcome.
       answer (acted_if_moved (b_task r)
         ''escalated it: its design plan was returned as often as it may be'' outcome)))"

text \<open>The words of the refusal that \<open>judge\<close> adds to its report are left out.\<close>

definition judge_contract :: "world \<Rightarrow> team \<Rightarrow> board_row \<Rightarrow> tick_report door" where
  "judge_contract w t r =
     door_then (governor_moves w t (b_task r) Ready) (\<lambda>ready.
       case ready of
         MovedTo _ \<Rightarrow> answer (Acted (b_task r) ''judged its contract ready'')
       | RefusedFor _ \<Rightarrow>
           door_then (governor_moves w t (b_task r) Escalated) (\<lambda>up.
             answer (Acted (b_task r) (case up of
                 MovedTo _ \<Rightarrow> ''escalated its contract to the human''
               | RefusedFor _ \<Rightarrow> ''judged its contract, which is not ready''))))"

definition has_room :: "team \<Rightarrow> board_row list \<Rightarrow> agent \<Rightarrow> string option \<Rightarrow> bool" where
  "has_room t b a epic \<longleftrightarrow>
     int (unat (open_tasks b (agent_id a) epic)) < max 0 (wip_limit_per_agent (team_policy t))"

fun first_hand_over :: "world \<Rightarrow> team \<Rightarrow> board_row \<Rightarrow> agent \<Rightarrow> agent list \<Rightarrow> rule_answer" where
  "first_hand_over w t r from_whom [] = answer None"
| "first_hand_over w t r from_whom (a # others) =
     door_then (reassign w (b_task r) (agent_id a) t) (\<lambda>outcome.
       case outcome of
         Reassigned _ \<Rightarrow> answer (Some (Acted (b_task r)
           (''handed it to '' @ agent_id a @ '': '' @ agent_id from_whom @ '' has no room'')))
       | NotReassigned _ \<Rightarrow> first_hand_over w t r from_whom others)"

definition active_named :: "team \<Rightarrow> string option \<Rightarrow> agent option" where
  "active_named t who =
     (case who of None \<Rightarrow> None | Some i \<Rightarrow> List.find (\<lambda>a. agent_id a = i) (active_members t))"

definition resume_one :: "world \<Rightarrow> team \<Rightarrow> board_row list \<Rightarrow> board_row \<Rightarrow> rule_answer" where
  "resume_one w t b r =
     (case active_named t (b_assignee r) of
        None \<Rightarrow> answer None
      | Some from_whom \<Rightarrow>
          door_then (reading (\<lambda>p. read_contract (files_of p) (b_task r))) (\<lambda>contract.
          if lane contract \<noteq> None then answer None
          else first_hand_over w t r from_whom
            (filter (\<lambda>a. agent_role a = assignee_role contract \<and> agent_id a \<noteq> agent_id from_whom
                       \<and> has_room t b a (b_parent r)) (active_members t))))"

definition resume_elsewhere ::
  "world \<Rightarrow> tick_scope \<Rightarrow> (string \<Rightarrow> bool) \<Rightarrow> string list \<Rightarrow> team \<Rightarrow> board_row list \<Rightarrow> rule_answer" where
  "resume_elsewhere w sc busy workable t b =
     first_report (resume_one w t b)
       (filter (is_in_scope sc busy)
         (filter (\<lambda>r. b_status r \<in> {Assigned, InProgress} \<and> row_counts_towards_wip r
                    \<and> b_kind r \<noteq> Epic \<and> b_task r \<notin> set workable) b))"

end
