(* ===== verification/Governor_Answers.thy ===== *)
theory Governor_Answers
  imports Governor_Rules
begin

text \<open>
  What the governor answers the rules of a tick. Each rule ends in a move whose row of the table is open
  when the rule asks for it (a rejected task is first asked back to work, and escalated when that is
  refused at its limit), so a rule that reports nothing has recorded nothing.
\<close>

section \<open>What the governor answers\<close>

lemma governor_request_simps [simp]:
  "asked_task (governor_request i to) = i" "asked_to (governor_request i to) = to"
  "asked_actor (governor_request i to) = GovernorActor" "asked_agent (governor_request i to) = None"
  by (simp_all add: governor_request_def)

lemma governor_decides: "asked_actor rq = GovernorActor \<Longrightarrow> decide w p rq ask t x = evaluate_transition (engine w) rq x"
  by (simp add: decide_def refused_before_the_governor_def)

definition governor_answer :: "world \<Rightarrow> string \<Rightarrow> task_status \<Rightarrow> transition_context \<Rightarrow> transition_outcome" where
  "governor_answer w i to x =
     (case evaluate_transition (engine w) (governor_request i to) x of
        Inr d \<Rightarrow> MovedTo d | Inl no \<Rightarrow> RefusedFor no)"

lemma governor_moves_cases:
  assumes "current p" and "to \<noteq> Verifying" and run: "governor_moves_with w t i to ask p = (Inr outcome, q)"
  obtains x where "context_at w p (clock_at w (ticks p)) (governor_request i to) (tidied ask) t = Inr x"
    and "outcome = governor_answer w i to x"
    and "record_decided w (governor_request i to) (tidied ask) x
      (evaluate_transition (engine w) (governor_request i to) x) (p\<lparr>ticks := ticks p + 1\<rparr>) = (Inr outcome, q)"
proof -
  let ?rq = "governor_request i to"
  have tidy: "tidy_first w ?rq ask t p = (Inr (), p)" using assms(2) by (simp add: tidy_first_def)
  have run: "request w ?rq ask t p = (Inr outcome, q)" using run by (simp add: governor_moves_with_def)
  have "\<exists>x. context_at w p (clock_at w (ticks p)) ?rq (tidied ask) t = Inr x"
  proof (cases "context_at w p (clock_at w (ticks p)) ?rq (tidied ask) t")
    case (Inl e)
    have b: "board_of w (p\<lparr>ticks := n\<rparr>) = board_of w p" for n by (simp add: board_of_def)
    have parts: "awaits_the_product_plan_of w (p\<lparr>ticks := n\<rparr>) = awaits_the_product_plan_of w p" for n
      unfolding awaits_the_product_plan_of_def b by (simp cong: if_cong)
    have "context_at w (p\<lparr>ticks := n\<rparr>) now ?rq a t = context_at w p now ?rq a t" for n now a
      unfolding context_at_def readiness_parts_def parts b by (simp cong: option.case_cong)
    then have "request w ?rq ask t p = (Inl e, p\<lparr>ticks := ticks p + 1\<rparr>)"
      using Inl assms(2) by (simp add: request_def Let_def door_then_reading door_then_def [of "answer ()"])
    then show ?thesis using run by simp
  qed blast
  then obtain x where x: "context_at w p (clock_at w (ticks p)) ?rq (tidied ask) t = Inr x" by blast
  have decided: "record_decided w ?rq (tidied ask) x (evaluate_transition (engine w) ?rq x) (p\<lparr>ticks := ticks p + 1\<rparr>)
      = (Inr outcome, q)"
    using request_runs [OF tidy x] run governor_decides by simp
  have "current (p\<lparr>ticks := ticks p + 1\<rparr>)" using assms(1) by simp
  from record_decided_cases [OF this decided] have "outcome = governor_answer w i to x"
    by cases (auto simp: governor_answer_def)
  with x show ?thesis using decided by (rule that)
qed

lemma governor_moved_iff:
  "(\<exists>d. governor_answer w i to x = MovedTo d) \<longleftrightarrow> is_ok (evaluate_transition (engine w) (governor_request i to) x)"
  by (auto simp: governor_answer_def is_ok_iff split: sum.split)

lemma governor_passes:
  assumes "task_id (ctx_contract x) = i" and "r \<in> set (find_transitions (status (ctx_contract x)) to)"
    and "row_actor r = GovernorActor" and "check_gate (engine w) (row_gate r) GovernorActor to x = Inr ()"
  shows "\<exists>d. governor_answer w i to x = MovedTo d"
proof -
  have "check_row (engine w) (governor_request i to) x r = Inr ()"
    using assms(4) by (simp add: check_row_to)
  then have "\<exists>r \<in> set (rows_of (governor_request i to) x). check_row (engine w) (governor_request i to) x r = Inr ()"
    using assms(2,3) by auto
  then show ?thesis
    unfolding governor_moved_iff passes_iff using assms(1) by (simp add: may_ask_unnamed)
qed

text \<open>A row of the board is its task's, and stands where the log says.\<close>

lemma board_row_standing:
  assumes "current p" and "board_of w p = Inr b" and "r \<in> set b"
  shows "standing_in (log_of p) (b_task r) = Some (row_standing r)"
proof -
  have "board (sum_usd_of w) (tables_of p) = Inr b"
    using assms(2) by (simp add: board_of_def stored_def map_err_def split: sum.splits)
  then obtain row c where row: "row \<in> set (task_rows (tables_of p))" "projection_of_row c row = Inr r"
    unfolding board_def using assms(3) each_ok_in by fastforce
  then have "row_task row = b_task r" "standing_of row = row_standing r"
    using projection_of_row_Inr [OF row(2)] by (simp_all add: row_standing_def)
  then have "standing_at (tables_of p) (b_task r) = Some (row_standing r)"
    using row_in_distinct [OF current_kept [OF assms(1)] row(1)] by (simp add: standing_at_def)
  then show ?thesis using current_standing [OF assms(1)] by simp
qed

text \<open>What a request about a row of the board is judged on.\<close>

lemma context_parts:
  assumes "context_at w p now rq ask t = Inr x"
  defines "i \<equiv> asked_task rq" and "history \<equiv> history_of (log_of p) (asked_task rq)"
  shows "\<exists>b own file. board_of w p = Inr b \<and> known_row b i = Inr own \<and> read_contract (files_of p) i = Inr file
      \<and> ctx_contract x = as_on_the_board own file
      \<and> stored (budget_state_of (sum_usd_of w) (float_add_of w) (log_of p) (tables_of p) t
           (assignee_role file) (b_assignee own) (Some (as_on_the_board own file)) no_session now) = Inr (ctx_budget x)
      \<and> dependency_statuses (ctx_readiness x)
          = filter_map (\<lambda>d. map_option (\<lambda>s. (d, s)) (status_on b d)) (dependencies file)"
    and "ctx_blocked_at x = map_option recorded_at (last_move_into history Blocked)"
    and "ctx_now x = now" and "ctx_blocked_limit x = hours_limit t"
    and "extra_iterations x = extra_tries history" and "design_plan_returns x = design_returns history"
  using assms(1) unfolding i_def history_def context_at_def readiness_parts_def
  by (auto simp: Let_def and_then_Inr_iff case_prod_beta as_on_the_board_def)


definition task_is_spent :: "world \<Rightarrow> project \<Rightarrow> string \<Rightarrow> bool" where
  "task_is_spent w p i \<longleftrightarrow>
     (case read_contract (files_of p) i of Inl _ \<Rightarrow> False
      | Inr contract \<Rightarrow> (case task_budget_of (sum_usd_of w) (float_add_of w) (log_of p) (tables_of p) contract of
            Inl _ \<Rightarrow> False
          | Inr own \<Rightarrow> \<not> float_less (task_spent own) (task_usd_limit own)
              \<or> unat (task_session_limit own) \<le> unat (task_ran own)))"

lemma task_budget_on_the_board:
  "task_budget_of sum_usd float_add l tb (as_on_the_board own c) = task_budget_of sum_usd float_add l tb c"
  by (simp add: task_budget_of_def as_on_the_board_def)

lemma budget_state_spent:
  assumes "read_contract (files_of p) i = Inr c" and "contract = c \<or> contract = as_on_the_board own c"
    and "stored (budget_state_of (sum_usd_of w) (float_add_of w) (log_of p) (tables_of p) t who agent_i
           (Some contract) ledger now) = Inr s"
  shows "task_is_spent w p i \<longleftrightarrow> scope_exhausted s TaskUsd \<or> scope_exhausted s TaskSessions"
proof -
  have same: "task_budget_of (sum_usd_of w) (float_add_of w) (log_of p) (tables_of p) contract
      = task_budget_of (sum_usd_of w) (float_add_of w) (log_of p) (tables_of p) c"
    using assms(2) task_budget_on_the_board by auto
  show ?thesis
    using assms(1,3)
    by (auto simp: task_is_spent_def budget_state_of_def stored_def map_err_def and_then_Inr_iff same
        split: sum.splits)
qed

lemma exhausted_reported:
  "scope_exhausted s k \<Longrightarrow> \<lparr>scope = k, consequence = scope_consequence k\<rparr> \<in> set (check_budgets s)"
  by (simp add: check_budgets_iff)

lemma reported_iff: "list_ex (\<lambda>e. scope e = k) (check_budgets s) \<longleftrightarrow> scope_exhausted s k"
  by (auto simp: list_ex_iff check_budgets_iff intro!: bexI [of _ "\<lparr>scope = k, consequence = scope_consequence k\<rparr>"])

lemma spent_words_None:
  "spent_words usd s = None \<longleftrightarrow> \<not> scope_exhausted s TaskUsd \<and> \<not> scope_exhausted s TaskSessions"
  by (simp add: spent_words_def reported_iff)

lemma spent_escalates:
  assumes "scope_exhausted (ctx_budget x) TaskUsd \<or> scope_exhausted (ctx_budget x) TaskSessions"
  shows "governor_escalation_reason x \<noteq> None"
proof -
  have "\<exists>e \<in> set (check_budgets (ctx_budget x)). consequence e = EscalateTask"
    using assms
  proof
    assume "scope_exhausted (ctx_budget x) TaskUsd"
    from exhausted_reported [OF this] show ?thesis by (rule bexI [rotated]) simp
  next
    assume "scope_exhausted (ctx_budget x) TaskSessions"
    from exhausted_reported [OF this] show ?thesis by (rule bexI [rotated]) simp
  qed
  then have "List.find (\<lambda>e. consequence e = EscalateTask) (check_budgets (ctx_budget x)) \<noteq> None"
    by (auto simp: find_None_iff)
  then show ?thesis by (auto simp: governor_escalation_reason_def)
qed

lemma judged_standing:
  assumes "current p" and "standing_in (log_of p) i = Some s"
    and "context_at w p now (governor_request i to) ask t = Inr x"
  shows "status (ctx_contract x) = stands s" and "task_id (ctx_contract x) = i"
    and "iteration_field (ctx_contract x) = ucast (tries s)"
    and "\<exists>c. read_contract (files_of p) i = Inr c \<and> contract_budget (ctx_contract x) = contract_budget c"
    and "task_is_spent w p i \<Longrightarrow> governor_escalation_reason x \<noteq> None"
proof -
  obtain b own c where own: "board_of w p = Inr b" "known_row b i = Inr own"
    and c: "read_contract (files_of p) i = Inr c" "ctx_contract x = as_on_the_board own c"
    and budget: "stored (budget_state_of (sum_usd_of w) (float_add_of w) (log_of p) (tables_of p) t
           (assignee_role c) (b_assignee own) (Some (as_on_the_board own c)) no_session now) = Inr (ctx_budget x)"
    using context_parts(1) [OF assms(3)] by auto
  have same: "row_standing own = s"
    using known_row_standing [OF assms(1) own] assms(2) by simp
  show "status (ctx_contract x) = stands s" "iteration_field (ctx_contract x) = ucast (tries s)"
    using same c(2) by (auto simp: as_on_the_board_def row_standing_def)
  show "task_id (ctx_contract x) = i"
    using read_contract_id [OF c(1)] c(2) by (simp add: as_on_the_board_def)
  show "\<exists>c. read_contract (files_of p) i = Inr c \<and> contract_budget (ctx_contract x) = contract_budget c"
    using c by (simp add: as_on_the_board_def)
  show "task_is_spent w p i \<Longrightarrow> governor_escalation_reason x \<noteq> None"
    using budget_state_spent [OF c(1) disjI2 [OF refl] budget] spent_escalates by blast
qed

text \<open>A dependency the board shows cancelled is one the governor sees cancelled.\<close>

lemma judged_dependency:
  assumes "current p" and "board_of w p = Inr b"
    and "context_at w p now (governor_request i to) ask t = Inr x"
    and "read_contract (files_of p) i = Inr c" and "d \<in> set (dependencies c)"
    and "other \<in> set b" and "b_task other = d" and "b_status other = Cancelled"
  shows "(d, Cancelled) \<in> set (dependency_statuses (ctx_readiness x))"
proof -
  have deps: "dependency_statuses (ctx_readiness x)
      = filter_map (\<lambda>d. map_option (\<lambda>s. (d, s)) (status_on b d)) (dependencies c)"
    using context_parts(1) [OF assms(3)] assms(2,4) by auto
  obtain found where found: "row_of b d = Some found"
    using assms(6,7) by (cases "row_of b d") (auto simp: row_of_def find_None_iff)
  then have "found \<in> set b" "b_task found = d" by (auto simp: row_of_def dest: find_Some_in)
  then have "row_standing found = row_standing other"
    using board_row_standing [OF assms(1,2), of found] board_row_standing [OF assms(1,2,6)] assms(7) by simp
  then have "status_on b d = Some Cancelled" using found assms(8) by (simp add: status_on_def row_standing_def)
  then show ?thesis using assms(5) deps by (force simp: set_filter_map)
qed

section \<open>A rule that reports nothing\<close>

text \<open>All a rule has done that reports nothing: it read the clock.\<close>

definition only_ticked :: "project \<Rightarrow> project \<Rightarrow> bool" where
  "only_ticked p q \<longleftrightarrow> log_of q = log_of p \<and> tables_of q = tables_of p \<and> files_of q = files_of p
     \<and> ticks p \<le> ticks q"

lemma only_ticked_refl [simp, intro]: "only_ticked p p"
  by (simp add: only_ticked_def)

lemma only_ticked_next [simp, intro]: "only_ticked p (p\<lparr>ticks := Suc (ticks p)\<rparr>)"
  by (simp add: only_ticked_def)

lemma only_ticked_trans: "only_ticked p q \<Longrightarrow> only_ticked q r \<Longrightarrow> only_ticked p r"
  by (simp add: only_ticked_def)

lemma only_ticked_keeps:
  assumes "only_ticked p q"
  shows "log_of q = log_of p" "tables_of q = tables_of p" "files_of q = files_of p" "ticks p \<le> ticks q"
    "current q = current p" "board_of w q = board_of w p" "task_is_spent w q i = task_is_spent w p i"
proof -
  show same: "log_of q = log_of p" "tables_of q = tables_of p" "files_of q = files_of p" "ticks p \<le> ticks q"
    using assms by (simp_all add: only_ticked_def)
  show "current q = current p" using current_cong same(1,2) by metis
  show "board_of w q = board_of w p" "task_is_spent w q i = task_is_spent w p i"
    unfolding board_of_def task_is_spent_def same by (rule refl)+
qed

lemma first_report_None:
  assumes "first_report f xs p = (Inr None, q)" and "only_ticked p0 p"
    and "\<And>x u v. x \<in> set xs \<Longrightarrow> only_ticked p0 u \<Longrightarrow> f x u = (Inr None, v) \<Longrightarrow> only_ticked u v \<and> P x"
  shows "only_ticked p0 q \<and> (\<forall>x \<in> set xs. P x)"
  using assms
proof (induction xs arbitrary: p)
  case (Cons x xs)
  obtain u where u: "f x p = (Inr None, u)" "first_report f xs u = (Inr None, q)"
    using Cons.prems(1) by (auto simp: door_then_def split: prod.splits sum.splits option.splits)
  have "only_ticked p u \<and> P x" using Cons.prems(3) [OF _ Cons.prems(2) u(1)] by simp
  moreover have "only_ticked p0 u" using Cons.prems(2) calculation only_ticked_trans by blast
  from Cons.IH [OF u(2) this] Cons.prems(3) have "only_ticked p0 q \<and> (\<forall>x \<in> set xs. P x)"
    by (meson list.set_intros(2))
  ultimately show ?case by simp
qed simp

lemma seen_refused_then [simp]:
  "door_then (seen_refused i from to) f p = f (refused_since_entering (log_of p) i from to) p"
  by (simp add: seen_refused_def door_then_reading)

lemma acted_if_moved_None [simp]: "acted_if_moved i what (MovedTo d) \<noteq> None" "acted_if_moved i what (RefusedFor no) = None"
  by (simp_all add: acted_if_moved_def)

text \<open>A move the governor answers with a refusal is one whose rows are shut.\<close>

lemma unmoved_means_shut:
  assumes "current p" and "to \<noteq> Verifying"
    and "door_then (governor_moves_with w t i to ask) (\<lambda>outcome. answer (acted_if_moved i what outcome)) p = (Inr None, q)"
    and "\<And>x. context_at w p (clock_at w (ticks p)) (governor_request i to) (tidied ask) t = Inr x
          \<Longrightarrow> \<exists>d. governor_answer w i to x = MovedTo d"
  shows False
proof -
  obtain outcome u where run: "governor_moves_with w t i to ask p = (Inr outcome, u)"
    "acted_if_moved i what outcome = None"
    using assms(3) by (auto simp: door_then_def split: prod.splits sum.splits)
  from governor_moves_cases [OF assms(1,2) run(1)] obtain x
    where x: "context_at w p (clock_at w (ticks p)) (governor_request i to) (tidied ask) t = Inr x"
      "outcome = governor_answer w i to x" .
  obtain d where "outcome = MovedTo d" using assms(4) [OF x(1)] x(2) by blast
  then show False using run(2) by simp
qed

lemma rule_limit_covers: "int (hours_limit t) \<le> int (rule_limit t)"
  by (auto simp: hours_limit_def rule_limit_def rule_hours_def min_def)


lemma governor_moves_refused:
  assumes "current p" and "governor_moves_with w t i to ask p = (Inr (RefusedFor no), q)"
  shows "only_noted p i q \<and> files_of q = files_of p"
  using assms(1) assms(2) [unfolded governor_moves_with_def] by (cases rule: request_cases) auto

lemma filter_map_map: "filter_map g (map f xs) = filter_map (\<lambda>x. g (f x)) xs"
  by (induction xs) (simp_all split: option.split)

lemma extra_tries_bodies:
  "extra_tries h = foldl saturating_add 0 (map u32_of
     (filter_map (\<lambda>b. case b of EscalationResolved _ _ _ n \<Rightarrow> n | _ \<Rightarrow> None) (map body h)))"
  unfolding filter_map_map extra_tries_def by (rule refl)

lemma noted_extra_tries:
  assumes "only_noted p i q"
  shows "extra_tries (history_of (log_of q) j) = extra_tries (history_of (log_of p) j)"
proof -
  obtain ns where ns: "recorded p i ns q" "list_all door_note ns" using assms by (auto simp: only_noted_def)
  have "filter_map (\<lambda>b. case b of EscalationResolved _ _ _ n \<Rightarrow> n | _ \<Rightarrow> None) ns = []"
    using ns(2) by (auto simp: filter_map_Nil_iff list_all_iff split: event_body.split)
  then show ?thesis using recorded_history [OF ns(1), of j] by (simp add: extra_tries_bodies)
qed

section \<open>What the governor never refuses\<close>

lemma governor_rows:
  "row (Is Rejected) (Is InProgress) GovernorActor IterationBelowLimit \<in> set (find_transitions Rejected InProgress)"
  "row (Is Rejected) (Is Escalated) GovernorActor IterationLimitReached \<in> set (find_transitions Rejected Escalated)"
  "row (Is Blocked) (Is Escalated) GovernorActor BlockedAgeGate \<in> set (find_transitions Blocked Escalated)"
  "row (Is Ready) (Is Refining) GovernorActor DependencyCancelled \<in> set (find_transitions Ready Refining)"
  "\<not> is_terminal st \<Longrightarrow> st \<noteq> Escalated \<Longrightarrow>
     row Any (Is Escalated) GovernorActor GovernorEscalation \<in> set (find_transitions st Escalated)"
  by (simp_all add: find_transitions_iff TRANSITION_TABLE_def leaves_def)

lemma iteration_limit_same:
  assumes "iteration_field (ctx_contract x) = iteration_field (ctx_contract y)"
    and "contract_budget (ctx_contract x) = contract_budget (ctx_contract y)"
    and "extra_iterations x = extra_iterations y"
  shows "iteration (ctx_contract x) = iteration (ctx_contract y) \<and> iteration_limit x = iteration_limit y"
  using assms by (simp add: iteration_def iteration_limit_def max_iterations_def)

lemma rejected_rule_None:
  assumes p: "current p" "board_of w p = Inr b" "r \<in> set b" "b_status r = Rejected"
    and run: "rejected_rule w t r p = (Inr None, q)"
  shows "refused_since_entering (log_of p) (b_task r) Rejected Escalated \<and> only_ticked p q"
proof (rule ccontr)
  let ?i = "b_task r"
  note standing = board_row_standing [OF p(1-3)]
  assume contra: "\<not> ?thesis"
  have "\<not> refused_since_entering (log_of p) ?i Rejected Escalated"
  proof
    assume "refused_since_entering (log_of p) ?i Rejected Escalated"
    then show False using run contra by (auto simp: rejected_rule_def)
  qed
  then have "door_then (governor_moves_with w t ?i InProgress no_ask) (\<lambda>outcome. case outcome of
        MovedTo _ \<Rightarrow> answer (Some (Acted ?i ''returned it to its assignee for another iteration''))
      | RefusedFor _ \<Rightarrow> door_then (governor_moves_with w t ?i Escalated no_ask) (\<lambda>outcome.
          answer (acted_if_moved ?i ''escalated it: it was rejected as often as it may be'' outcome))) p = (Inr None, q)"
    using run by (simp add: rejected_rule_def governor_moves_def)
  then obtain no u where u: "governor_moves_with w t ?i InProgress no_ask p = (Inr (RefusedFor no), u)"
    and up: "door_then (governor_moves_with w t ?i Escalated no_ask) (\<lambda>outcome.
        answer (acted_if_moved ?i ''escalated it: it was rejected as often as it may be'' outcome)) u = (Inr None, q)"
    by (cases rule: door_then_cases) (auto split: transition_outcome.splits)
  from governor_moves_cases [OF p(1) _ u] obtain x where
    x: "context_at w p (clock_at w (ticks p)) (governor_request ?i InProgress) (tidied no_ask) t = Inr x"
    and refused: "RefusedFor no = governor_answer w ?i InProgress x" by auto
  note at_x = judged_standing [OF p(1) standing x]
  have shut: "unat (iteration_limit x) \<le> unat (iteration (ctx_contract x))"
  proof (rule ccontr)
    assume "\<not> ?thesis"
    then have "check_gate (engine w) IterationBelowLimit GovernorActor InProgress x = Inr ()"
      by (simp add: gate_opens)
    then show False
      using governor_passes [OF at_x(2), of "row (Is Rejected) (Is InProgress) GovernorActor IterationBelowLimit" InProgress w]
        governor_rows(1) at_x(1) p(4) refused by (auto simp: row_standing_def)
  qed
  note noted = governor_moves_refused [OF p(1) u]
  have u_current: "current u" using noted by (auto simp: only_noted_def dest: recorded_current)
  show False
  proof (rule unmoved_means_shut [OF u_current _ up])
    fix y assume y: "context_at w u (clock_at w (ticks u)) (governor_request ?i Escalated) (tidied no_ask) t = Inr y"
    have "standing_in (log_of u) ?i = Some (row_standing r)"
      using standing only_noted_standing noted by metis
    note at_y = judged_standing [OF u_current this y]
    have "extra_iterations y = extra_iterations x"
      using context_parts(5) [OF x] context_parts(5) [OF y] noted_extra_tries noted by auto
    then have "iteration (ctx_contract y) = iteration (ctx_contract x) \<and> iteration_limit y = iteration_limit x"
      using at_x(3,4) at_y(3,4) noted by (intro iteration_limit_same) auto
    then have "check_gate (engine w) IterationLimitReached GovernorActor Escalated y = Inr ()"
      using shut by (simp add: gate_opens)
    then show "\<exists>d. governor_answer w ?i Escalated y = MovedTo d"
      using governor_passes [OF at_y(2), of "row (Is Rejected) (Is Escalated) GovernorActor IterationLimitReached" Escalated w]
        governor_rows(2) at_y(1) p(4) by (auto simp: row_standing_def)
  qed simp
qed


lemma blocked_rule_None:
  assumes p: "current p" "board_of w p = Inr b" "r \<in> set b" "b_status r = Blocked" and "mono (clock_at w)"
    and run: "blocked_rule w t r p = (Inr None, q)"
    and old: "last_move_into (history_of (log_of p) (b_task r)) Blocked = Some e"
      "int (rule_limit t) \<le> clock_at w (ticks p) - recorded_at e"
  shows "refused_since_entering (log_of p) (b_task r) Blocked Escalated"
proof (rule ccontr)
  let ?i = "b_task r" and ?p = "p\<lparr>ticks := ticks p + 1\<rparr>"
  assume "\<not> ?thesis"
  then have run: "door_then (governor_moves_with w t ?i Escalated no_ask) (\<lambda>outcome. answer (acted_if_moved ?i
      (''escalated it: blocked for '' @ decimal (rule_hours t) @ '' hours or more'') outcome)) ?p = (Inr None, q)"
    using run old by (simp add: blocked_rule_def governor_moves_def door_then_reading)
  have "current ?p" using p(1) by simp
  then show False
  proof (rule unmoved_means_shut [OF _ _ run])
    fix x assume x: "context_at w ?p (clock_at w (ticks ?p)) (governor_request ?i Escalated) (tidied no_ask) t = Inr x"
    have "standing_in (log_of ?p) ?i = Some (row_standing r)" using board_row_standing [OF p(1-3)] by simp
    note at_x = judged_standing [OF \<open>current ?p\<close> this x]
    have "clock_at w (ticks p) \<le> clock_at w (ticks ?p)" using assms(5) by (auto intro: monoD)
    moreover have "0 \<le> int (rule_limit t)" by simp
    ultimately have "recorded_at e \<le> ctx_now x" "int (ctx_blocked_limit x) \<le> ctx_now x - recorded_at e"
      using context_parts(3,4) [OF x] old(2) rule_limit_covers [of t] by linarith+
    moreover have "ctx_blocked_at x = Some (recorded_at e)"
      using context_parts(2) [OF x] old(1) by simp
    ultimately have "check_gate (engine w) BlockedAgeGate GovernorActor Escalated x = Inr ()"
      by (simp add: gate_opens)
    then show "\<exists>d. governor_answer w ?i Escalated x = MovedTo d"
      using governor_passes [OF at_x(2), of "row (Is Blocked) (Is Escalated) GovernorActor BlockedAgeGate" Escalated w]
        governor_rows(3) at_x(1) p(4) by (auto simp: row_standing_def)
  qed simp
qed

lemma blocked_rule_ticks:
  assumes p: "current p" "board_of w p = Inr b" "r \<in> set b" "b_status r = Blocked" and "mono (clock_at w)"
    and run: "blocked_rule w t r p = (Inr None, q)"
  shows "only_ticked p q"
proof (cases "last_move_into (history_of (log_of p) (b_task r)) Blocked")
  case None
  then show ?thesis using run by (simp add: blocked_rule_def door_then_reading)
next
  case (Some e)
  show ?thesis
  proof (cases "refused_since_entering (log_of p) (b_task r) Blocked Escalated
      \<or> clock_at w (ticks p) - recorded_at e < int (rule_limit t)")
    case True
    then show ?thesis using run Some by (auto simp: blocked_rule_def door_then_reading)
  next
    case False
    then show ?thesis using blocked_rule_None [OF p assms(5) run Some] by simp
  qed
qed

lemma escalate_if_spent_None:
  assumes p: "current p" "board_of w p = Inr b" "r \<in> set b" "\<not> is_terminal (b_status r)" "b_status r \<noteq> Escalated"
    and run: "escalate_if_spent w usd t r p = (Inr None, q)"
  shows "only_ticked p q \<and> (task_is_spent w p (b_task r) \<longrightarrow>
    refused_since_entering (log_of p) (b_task r) (b_status r) Escalated)"
proof -
  let ?i = "b_task r" and ?p = "p\<lparr>ticks := ticks p + 1\<rparr>"
  obtain c where c: "read_contract (files_of p) ?i = Inr c"
    using run by (cases "read_contract (files_of p) ?i") (simp_all add: escalate_if_spent_def door_then_reading)
  obtain s where s: "stored (budget_state_of (sum_usd_of w) (float_add_of w) (log_of p) (tables_of p) t
       (assignee_role c) (assignee c) (Some c) no_session (clock_at w (ticks p))) = Inr s"
    using run c by (cases "stored (budget_state_of (sum_usd_of w) (float_add_of w) (log_of p) (tables_of p) t
       (assignee_role c) (assignee c) (Some c) no_session (clock_at w (ticks p)))")
      (simp_all add: escalate_if_spent_def door_then_reading budget_read_def)
  have spent: "task_is_spent w p ?i \<longleftrightarrow> spent_words usd s \<noteq> None"
    using budget_state_spent [OF c disjI1 [OF refl] s] by (simp add: spent_words_None)
  show ?thesis
  proof (cases "spent_words usd s")
    case None
    then show ?thesis using run c s spent by (auto simp: escalate_if_spent_def door_then_reading budget_read_def)
  next
    case (Some words)
    let ?ask = "no_ask\<lparr>ask_reason := Some words\<rparr>"
    show ?thesis
    proof (cases "refused_since_entering (log_of p) ?i (b_status r) Escalated")
      case True
      then show ?thesis using run c s Some by (auto simp: escalate_if_spent_def door_then_reading budget_read_def)
    next
      case False
      then have run: "door_then (governor_moves_with w t ?i Escalated ?ask) (\<lambda>outcome. answer (acted_if_moved ?i
          ''escalated it: its dollars or sessions are spent'' outcome)) ?p = (Inr None, q)"
        using run c s Some by (simp add: escalate_if_spent_def door_then_reading budget_read_def)
      have "current ?p" using p(1) by simp
      then have False
      proof (rule unmoved_means_shut [OF _ _ run])
        fix x assume x: "context_at w ?p (clock_at w (ticks ?p)) (governor_request ?i Escalated) (tidied ?ask) t = Inr x"
        have "standing_in (log_of ?p) ?i = Some (row_standing r)" using board_row_standing [OF p(1-3)] by simp
        note at_x = judged_standing [OF \<open>current ?p\<close> this x]
        have "task_is_spent w ?p ?i" using spent Some only_ticked_keeps(7) [OF only_ticked_next] by simp
        then have "check_gate (engine w) GovernorEscalation GovernorActor Escalated x = Inr ()"
          using at_x(5) by (simp add: gate_opens)
        then show "\<exists>d. governor_answer w ?i Escalated x = MovedTo d"
          using governor_passes [OF at_x(2), of "row Any (Is Escalated) GovernorActor GovernorEscalation" Escalated w]
            governor_rows(5) [OF p(4,5)] at_x(1) by (simp add: row_standing_def)
      qed simp
      then show ?thesis ..
    qed
  qed
qed

lemma dependency_rule_None:
  assumes p: "current p" "board_of w p = Inr b" "r \<in> set b" "b_status r = Ready"
    and run: "dependency_cancelled_rule w t b r p = (Inr None, q)"
  shows "only_ticked p q \<and> (\<exists>c. read_contract (files_of p) (b_task r) = Inr c
    \<and> (\<forall>other \<in> set b. b_task other \<in> set (dependencies c) \<longrightarrow> b_status other \<noteq> Cancelled))"
proof -
  let ?i = "b_task r" and ?gone = "\<lambda>d. list_ex (\<lambda>other. b_task other = d \<and> b_status other = Cancelled) b"
  obtain c where c: "read_contract (files_of p) ?i = Inr c"
    using run by (cases "read_contract (files_of p) ?i") (simp_all add: dependency_cancelled_rule_def door_then_reading)
  show ?thesis
  proof (cases "List.find ?gone (dependencies c)")
    case None
    then have "only_ticked p q" using run c by (auto simp: dependency_cancelled_rule_def door_then_reading)
    then show ?thesis using None c by (auto simp: find_None_iff list_ex_iff)
  next
    case (Some d)
    let ?ask = "no_ask\<lparr>ask_reason := Some (d @ '' was cancelled'')\<rparr>"
    have run: "door_then (governor_moves_with w t ?i Refining ?ask) (\<lambda>outcome. answer (acted_if_moved ?i
        (''sent it back to refining: '' @ d @ '' was cancelled'') outcome)) p = (Inr None, q)"
      using run c Some by (simp add: dependency_cancelled_rule_def door_then_reading)
    obtain other where other: "d \<in> set (dependencies c)" "other \<in> set b" "b_task other = d" "b_status other = Cancelled"
      using find_Some_in [OF Some] by (auto simp: list_ex_iff)
    have False
    proof (rule unmoved_means_shut [OF p(1) _ run])
      fix x assume x: "context_at w p (clock_at w (ticks p)) (governor_request ?i Refining) (tidied ?ask) t = Inr x"
      note at_x = judged_standing [OF p(1) board_row_standing [OF p(1-3)] x]
      have "check_gate (engine w) DependencyCancelled GovernorActor Refining x = Inr ()"
        using judged_dependency [OF p(1,2) x c other] by (auto simp: gate_opens)
      then show "\<exists>d. governor_answer w ?i Refining x = MovedTo d"
        using governor_passes [OF at_x(2), of "row (Is Ready) (Is Refining) GovernorActor DependencyCancelled" Refining w]
          governor_rows(4) at_x(1) p(4) by (auto simp: row_standing_def)
    qed simp
    then show ?thesis ..
  qed
qed


section \<open>A tick's own rules\<close>

lemma budget_rule_None:
  assumes p: "current p" "board_of w p = Inr b"
    and run: "budget_rule w usd sc busy t b p = (Inr None, q)"
  shows "only_ticked p q \<and> (scope_rules sc = AllRules \<longrightarrow> scope_task sc = None \<longrightarrow>
    (\<forall>r \<in> set b. in_the_budgets_sight busy r \<longrightarrow> task_is_spent w p (b_task r) \<longrightarrow>
       refused_since_entering (log_of p) (b_task r) (b_status r) Escalated
       \<or> (b_status r = Refining \<and> sent_back_unheard (history_of (log_of p) (b_task r)))))"
proof (cases "scope_rules sc = AllRules \<and> scope_task sc = None")
  case True
  let ?rule = "\<lambda>r. door_then (reading (\<lambda>p. Inr (history_of (log_of p) (b_task r)))) (\<lambda>history.
        if b_status r = Refining \<and> sent_back_unheard history then answer None
        else escalate_if_spent w usd t r)"
  let ?P = "\<lambda>r. task_is_spent w p (b_task r) \<longrightarrow>
       refused_since_entering (log_of p) (b_task r) (b_status r) Escalated
       \<or> (b_status r = Refining \<and> sent_back_unheard (history_of (log_of p) (b_task r)))"
  have "first_report ?rule (filter (in_the_budgets_sight busy) b) p = (Inr None, q)"
    using run True by (simp add: budget_rule_def)
  then have "only_ticked p q \<and> (\<forall>r \<in> set (filter (in_the_budgets_sight busy) b). ?P r)"
  proof (rule first_report_None [OF _ only_ticked_refl])
    fix r u v assume r: "r \<in> set (filter (in_the_budgets_sight busy) b)" and u: "only_ticked p u"
      and rule: "?rule r u = (Inr None, v)"
    note same = only_ticked_keeps [OF u]
    show "only_ticked u v \<and> ?P r"
    proof (cases "b_status r = Refining \<and> sent_back_unheard (history_of (log_of p) (b_task r))")
      case False
      then have "escalate_if_spent w usd t r u = (Inr None, v)"
        using rule same(1) by (auto simp: door_then_reading split: if_splits)
      moreover have "current u" "board_of w u = Inr b" "r \<in> set b" "\<not> is_terminal (b_status r)" "b_status r \<noteq> Escalated"
        using p r same by (auto simp: in_the_budgets_sight_def)
      ultimately show ?thesis using escalate_if_spent_None same by metis
    qed (use rule same(1) in \<open>simp add: door_then_reading\<close>)
  qed
  then show ?thesis by auto
next
  case False
  then show ?thesis using run by (auto simp: budget_rule_def)
qed

lemma tick_rejected_None:
  assumes p: "current p" "board_of w p = Inr b"
    and run: "tick_rejected w sc busy held workable t b p = (Inr None, q)"
  shows "only_ticked p q \<and> (rule_runs (scope_rules sc) 3 \<longrightarrow>
    (\<forall>r \<in> set (waiting_on_nobody b Rejected held). is_in_scope sc busy r \<longrightarrow> b_task r \<in> set workable \<longrightarrow>
       refused_since_entering (log_of p) (b_task r) Rejected Escalated))"
proof (cases "rule_runs (scope_rules sc) 3")
  case True
  let ?rows = "filter (\<lambda>r. b_task r \<in> set workable) (filter (is_in_scope sc busy) (waiting_on_nobody b Rejected held))"
  have "first_report (rejected_rule w t) ?rows p = (Inr None, q)" using run True by (simp add: tick_rejected_def)
  then have "only_ticked p q \<and> (\<forall>r \<in> set ?rows. refused_since_entering (log_of p) (b_task r) Rejected Escalated)"
  proof (rule first_report_None [OF _ only_ticked_refl])
    fix r u v assume r: "r \<in> set ?rows" and u: "only_ticked p u" and rule: "rejected_rule w t r u = (Inr None, v)"
    note same = only_ticked_keeps [OF u]
    have "current u" "board_of w u = Inr b" "r \<in> set b" "b_status r = Rejected"
      using p r same by (auto simp: waiting_on_nobody_def)
    from rejected_rule_None [OF this rule]
    show "only_ticked u v \<and> refused_since_entering (log_of p) (b_task r) Rejected Escalated"
      using same(1) by simp
  qed
  then show ?thesis by auto
next
  case False
  then show ?thesis using run by (simp add: tick_rejected_def)
qed

lemma tick_blocked_None:
  assumes p: "current p" "board_of w p = Inr b" and mono: "mono (clock_at w)"
    and run: "tick_blocked w sc busy held t b p = (Inr None, q)"
  shows "only_ticked p q \<and> (rule_runs (scope_rules sc) 4 \<longrightarrow>
    (\<forall>r \<in> set (waiting_on_nobody b Blocked held). \<forall>e. is_in_scope sc busy r \<longrightarrow>
       last_move_into (history_of (log_of p) (b_task r)) Blocked = Some e \<longrightarrow>
       int (rule_limit t) \<le> clock_at w (ticks p) - recorded_at e \<longrightarrow>
       refused_since_entering (log_of p) (b_task r) Blocked Escalated))"
proof (cases "rule_runs (scope_rules sc) 4")
  case True
  let ?rows = "filter (is_in_scope sc busy) (waiting_on_nobody b Blocked held)"
  let ?P = "\<lambda>r. \<forall>e. last_move_into (history_of (log_of p) (b_task r)) Blocked = Some e \<longrightarrow>
       int (rule_limit t) \<le> clock_at w (ticks p) - recorded_at e \<longrightarrow>
       refused_since_entering (log_of p) (b_task r) Blocked Escalated"
  have "first_report (blocked_rule w t) ?rows p = (Inr None, q)" using run True by (simp add: tick_blocked_def)
  then have "only_ticked p q \<and> (\<forall>r \<in> set ?rows. ?P r)"
  proof (rule first_report_None [OF _ only_ticked_refl])
    fix r u v assume r: "r \<in> set ?rows" and u: "only_ticked p u" and rule: "blocked_rule w t r u = (Inr None, v)"
    note same = only_ticked_keeps [OF u]
    have at: "current u" "board_of w u = Inr b" "r \<in> set b" "b_status r = Blocked"
      using p r same by (auto simp: waiting_on_nobody_def)
    have "clock_at w (ticks p) \<le> clock_at w (ticks u)" using mono same(4) by (rule monoD)
    then have "?P r"
      using blocked_rule_None [OF at mono rule] same(1) by force
    then show "only_ticked u v \<and> ?P r" using blocked_rule_ticks [OF at mono rule] by blast
  qed
  then show ?thesis by auto
next
  case False
  then show ?thesis using run by (simp add: tick_blocked_def)
qed

lemma tick_cancelled_None:
  assumes p: "current p" "board_of w p = Inr b"
    and run: "tick_cancelled w sc busy held t b p = (Inr None, q)"
  shows "only_ticked p q \<and> (scope_rules sc = AllRules \<longrightarrow>
    (\<forall>r \<in> set (waiting_on_nobody b Ready held). is_in_scope sc busy r \<longrightarrow>
       (\<exists>c. read_contract (files_of p) (b_task r) = Inr c
          \<and> (\<forall>other \<in> set b. b_task other \<in> set (dependencies c) \<longrightarrow> b_status other \<noteq> Cancelled))))"
proof (cases "scope_rules sc = AllRules")
  case True
  let ?rows = "filter (is_in_scope sc busy) (waiting_on_nobody b Ready held)"
  let ?P = "\<lambda>r. \<exists>c. read_contract (files_of p) (b_task r) = Inr c
          \<and> (\<forall>other \<in> set b. b_task other \<in> set (dependencies c) \<longrightarrow> b_status other \<noteq> Cancelled)"
  have "first_report (dependency_cancelled_rule w t b) ?rows p = (Inr None, q)"
    using run True by (simp add: tick_cancelled_def)
  then have "only_ticked p q \<and> (\<forall>r \<in> set ?rows. ?P r)"
  proof (rule first_report_None [OF _ only_ticked_refl])
    fix r u v assume r: "r \<in> set ?rows" and u: "only_ticked p u"
      and rule: "dependency_cancelled_rule w t b r u = (Inr None, v)"
    note same = only_ticked_keeps [OF u]
    have "current u" "board_of w u = Inr b" "r \<in> set b" "b_status r = Ready"
      using p r same by (auto simp: waiting_on_nobody_def)
    from dependency_rule_None [OF this rule] show "only_ticked u v \<and> ?P r" using same(3) by simp
  qed
  then show ?thesis by auto
next
  case False
  then show ?thesis using run by (simp add: tick_cancelled_def)
qed

section \<open>Nothing is left\<close>

text \<open>
  C19: When the four rules that ask for themselves (a spent task, a rejected one, a block past its limit, a
  cancelled dependency) have run one after the other, for the whole board and on a clock that does not
  run backwards, and report nothing, they have recorded nothing, and left nothing. A task of the board
  that waits on nobody, has no session running and was refused no escalation since it entered its status
  is not out of room in a status the budget rule sees (but for a plan the owner sent back and nobody
  heard); and unless it is held for the owner it is not rejected while its agent may work it, not blocked
  past the team's limit, and not ready with a cancelled dependency.
\<close>

theorem idle_governor_leaves_nothing:
  assumes p: "current p" "board_of w p = Inr b" and mono: "mono (clock_at w)"
    and "scope_rules sc = AllRules" and "scope_task sc = None"
    and runs: "budget_rule w usd sc busy t b p = (Inr None, p1)"
      "tick_rejected w sc busy held workable t b p1 = (Inr None, p2)"
      "tick_blocked w sc busy held t b p2 = (Inr None, p3)"
      "tick_cancelled w sc busy held t b p3 = (Inr None, q)"
    and r: "r \<in> set b" "\<not> b_waiting_on_human r" "\<not> busy (b_task r)"
    and unasked: "\<not> refused_since_entering (log_of p) (b_task r) (b_status r) Escalated"
  shows "log_of q = log_of p \<and> tables_of q = tables_of p \<and> files_of q = files_of p
    \<and> (task_is_spent w p (b_task r) \<longrightarrow> is_terminal (b_status r) \<or> b_status r \<in> {Escalated, Ready, Assigned, Blocked}
        \<or> (b_status r = Refining \<and> sent_back_unheard (history_of (log_of p) (b_task r))))
    \<and> (b_task r \<notin> set held \<longrightarrow>
        (case b_status r of
           Rejected \<Rightarrow> b_task r \<notin> set workable
         | Blocked \<Rightarrow> (\<forall>e. last_move_into (history_of (log_of p) (b_task r)) Blocked = Some e \<longrightarrow>
             clock_at w (ticks p) - recorded_at e < int (rule_limit t))
         | Ready \<Rightarrow> (\<exists>c. read_contract (files_of p) (b_task r) = Inr c
             \<and> (\<forall>other \<in> set b. b_task other \<in> set (dependencies c) \<longrightarrow> b_status other \<noteq> Cancelled))
         | _ \<Rightarrow> True))"
proof -
  note one = budget_rule_None [OF p runs(1)]
  note same1 = only_ticked_keeps [OF conjunct1 [OF one]]
  have p1: "current p1" "board_of w p1 = Inr b" using p same1 by simp_all
  note two = tick_rejected_None [OF p1 runs(2)]
  note same2 = only_ticked_keeps [OF conjunct1 [OF two]]
  have p2: "current p2" "board_of w p2 = Inr b" using p1 same2 by simp_all
  note three = tick_blocked_None [OF p2 mono runs(3)]
  note same3 = only_ticked_keeps [OF conjunct1 [OF three]]
  have p3: "current p3" "board_of w p3 = Inr b" using p2 same3 by simp_all
  note four = tick_cancelled_None [OF p3 runs(4)]
  note same4 = only_ticked_keeps [OF conjunct1 [OF four]]
  have everything: "rule_runs (scope_rules sc) 3" "rule_runs (scope_rules sc) 4" "is_in_scope sc busy r"
    using assms(4,5) r(3) by (simp_all add: rule_runs_def is_in_scope_def)
  have "log_of q = log_of p \<and> tables_of q = tables_of p \<and> files_of q = files_of p"
    using same1 same2 same3 same4 by simp
  moreover have "task_is_spent w p (b_task r) \<longrightarrow> is_terminal (b_status r) \<or> b_status r \<in> {Escalated, Ready, Assigned, Blocked}
        \<or> (b_status r = Refining \<and> sent_back_unheard (history_of (log_of p) (b_task r)))"
    using one assms(4,5) r unasked by (auto simp: in_the_budgets_sight_def)
  moreover have "b_task r \<notin> set workable" if "b_task r \<notin> set held" "b_status r = Rejected"
    using two everything r unasked same1 that by (auto simp: waiting_on_nobody_def)
  moreover have "clock_at w (ticks p) - recorded_at e < int (rule_limit t)"
    if "b_task r \<notin> set held" "b_status r = Blocked"
      "last_move_into (history_of (log_of p) (b_task r)) Blocked = Some e" for e
  proof (rule ccontr)
    assume "\<not> ?thesis"
    moreover have "clock_at w (ticks p) \<le> clock_at w (ticks p2)" using mono same1(4) same2(4) by (auto intro: monoD)
    ultimately have "int (rule_limit t) \<le> clock_at w (ticks p2) - recorded_at e" by linarith
    then show False
      using three everything r unasked same1(1) same2(1) that by (auto simp: waiting_on_nobody_def)
  qed
  moreover have "\<exists>c. read_contract (files_of p) (b_task r) = Inr c
             \<and> (\<forall>other \<in> set b. b_task other \<in> set (dependencies c) \<longrightarrow> b_status other \<noteq> Cancelled)"
    if "b_task r \<notin> set held" "b_status r = Ready"
    using four assms(4) everything r same1 same2 same3 that by (auto simp: waiting_on_nobody_def)
  ultimately show ?thesis by (auto split: task_status.split)
qed

text \<open>A project with a task blocked a moment ago and one that is ready and depends on it.\<close>

definition blocking_move :: move_body where
  "blocking_move = \<lparr>move_from = InProgress, move_to = Blocked, move_actor = AssigneeActor,
     move_requested_by = ''agent-1'', move_gate = BlockerWritten, move_effects = [StampBlockedAtItem],
     move_assignee = Some ''agent-1'', move_reviewer = None, move_iteration = 0, move_blocker = None,
     move_blocker_resolution = None, move_rejection = None, move_reason = None, move_changed = None\<rparr>"

definition waiting_log :: log where
  "waiting_log = [sample_event 1 (TaskCreated (summary_at InProgress) False None None),
     sample_event 2 (TaskTransitioned blocking_move),
     (sample_event 3 (TaskCreated (summary_at Ready) False None None))
       \<lparr>ids := \<lparr>about_task = Some ''CTV-8'', by_agent = None, in_session = None\<rparr>\<rparr>]"

definition waiting_project :: project where
  "waiting_project = \<lparr>log_of = waiting_log,
     tables_of = empty_tables\<lparr>task_rows := [(new_row ''CTV-7'' (summary_at Blocked) 2)\<lparr>row_assignee := Some ''agent-1''\<rparr>,
       new_row ''CTV-8'' (summary_at Ready) 3], cursor := 3\<rparr>,
     files_of = [''CTV-7'' \<mapsto> sample_task Blocked,
       ''CTV-8'' \<mapsto> (sample_task Ready)\<lparr>task_id := ''CTV-8'', dependencies := [''CTV-7'']\<rparr>], ticks = 5\<rparr>"

lemma waiting_current: "current waiting_project"
proof -
  have numbered: "well_numbered waiting_log"
    by (simp add: waiting_log_def sample_event_def well_numbered_def SEQ_MAX_def upt_rec)
  have "replay waiting_log = Inr (tables_of waiting_project)"
    by (simp add: waiting_log_def blocking_move_def sample_event_def replay_def run_defs waiting_project_def
        summary_at_def is_intervention_def)
  then show ?thesis using numbered is_replay_iff_whole by (auto simp: current_def waiting_project_def)
qed

lemma waiting_board:
  "\<exists>one two. board_of sample_world waiting_project = Inr [one, two]
    \<and> b_task one = ''CTV-7'' \<and> b_status one = Blocked \<and> \<not> b_waiting_on_human one
    \<and> b_task two = ''CTV-8'' \<and> b_status two = Ready \<and> \<not> b_waiting_on_human two"
  by (simp add: board_of_def board_def stored_def map_err_def waiting_project_def projection_of_row_def
      u32_try_def new_row_def sample_summary_def summary_at_def cost_on_def
      empty_tables_def sample_world_def by_number_def number_in_def waits_def is_digit_ascii_def code_point_def)

theorem idle_governor_leaves_nothing_witness:
  "\<exists>one two p3 q e. board_of sample_world waiting_project = Inr [one, two] \<and> b_status one = Blocked \<and> b_status two = Ready
    \<and> tick_blocked sample_world \<lparr>scope_task = None, scope_rules = AllRules\<rparr> (\<lambda>_. False) [] sample_team [one, two]
        waiting_project = (Inr None, p3)
    \<and> tick_cancelled sample_world \<lparr>scope_task = None, scope_rules = AllRules\<rparr> (\<lambda>_. False) [] sample_team [one, two]
        p3 = (Inr None, q)
    \<and> log_of q = waiting_log \<and> ticks q = ticks waiting_project + 1
    \<and> last_move_into waiting_log Blocked = Some e
    \<and> clock_at sample_world (ticks waiting_project) - recorded_at e < int (rule_limit sample_team)"
proof -
  let ?p = waiting_project and ?sc = "\<lparr>scope_task = None, scope_rules = AllRules\<rparr>" and ?idle = "\<lambda>_. False"
  let ?q = "waiting_project\<lparr>ticks := 6\<rparr>"
  obtain one two where b: "board_of sample_world ?p = Inr [one, two]" "b_task one = ''CTV-7''" "b_status one = Blocked"
    "\<not> b_waiting_on_human one" "b_task two = ''CTV-8''" "b_status two = Ready" "\<not> b_waiting_on_human two"
    using waiting_board by blast
  have read: "read_contract (files_of ?q) ''CTV-8'' = Inr ((sample_task Ready)\<lparr>task_id := ''CTV-8'', dependencies := [''CTV-7'']\<rparr>)"
    by (simp add: read_contract_def waiting_project_def)
  have l: "log_of ?p = waiting_log" "ticks ?p = 5" by (simp_all add: waiting_project_def)
  have limit: "rule_limit sample_team = 86400000000000"
    by (simp add: rule_limit_def rule_hours_def sample_team_def sample_policy_def)
  have entered: "history_of waiting_log ''CTV-7'' = [sample_event 1 (TaskCreated (summary_at InProgress) False None None),
      sample_event 2 (TaskTransitioned blocking_move)]"
    "last_move_into (history_of waiting_log ''CTV-7'') Blocked = Some (sample_event 2 (TaskTransitioned blocking_move))"
    "last_move_into waiting_log Blocked = Some (sample_event 2 (TaskTransitioned blocking_move))"
    "recorded_at (sample_event 2 (TaskTransitioned blocking_move)) = 0"
    by (simp_all add: history_of_def waiting_log_def sample_event_def last_move_into_def is_move_into_def blocking_move_def)
  have fresh: "clock_at sample_world 5 - 0 < int (rule_limit sample_team)" by (simp add: limit sample_world_def)
  have runs: "budget_rule sample_world usd ?sc ?idle sample_team [one, two] ?p = (Inr None, ?p)"
    "tick_rejected sample_world ?sc ?idle [] [] sample_team [one, two] ?p = (Inr None, ?p)"
    "tick_blocked sample_world ?sc ?idle [] sample_team [one, two] ?p = (Inr None, ?q)"
    "tick_cancelled sample_world ?sc ?idle [] sample_team [one, two] ?q = (Inr None, ?q)" for usd
  proof -
    show "budget_rule sample_world usd ?sc ?idle sample_team [one, two] ?p = (Inr None, ?p)"
      "tick_rejected sample_world ?sc ?idle [] [] sample_team [one, two] ?p = (Inr None, ?p)"
      using b by (simp_all add: budget_rule_def in_the_budgets_sight_def tick_rejected_def rule_runs_def waiting_on_nobody_def
          is_in_scope_def)
    have "blocked_rule sample_world sample_team one ?p = (Inr None, ?q)"
      using b fresh by (simp add: blocked_rule_def door_then_reading l entered(2,4))
    then show "tick_blocked sample_world ?sc ?idle [] sample_team [one, two] ?p = (Inr None, ?q)"
      using b by (simp add: tick_blocked_def rule_runs_def waiting_on_nobody_def is_in_scope_def door_then_def)
    show "tick_cancelled sample_world ?sc ?idle [] sample_team [one, two] ?q = (Inr None, ?q)"
      using b read by (simp add: tick_cancelled_def rule_runs_def waiting_on_nobody_def is_in_scope_def
          dependency_cancelled_rule_def door_then_def reading_def)
  qed
  have "mono (clock_at sample_world)" by (simp add: sample_world_def mono_def)
  moreover have "\<not> refused_since_entering (log_of ?p) (b_task one) (b_status one) Escalated"
    using b(2,3) by (simp add: refused_since_entering_def l entered(1) sample_event_def is_move_into_def blocking_move_def)
  ultimately have "clock_at sample_world (ticks ?p) - recorded_at (sample_event 2 (TaskTransitioned blocking_move))
      < int (rule_limit sample_team)"
    using idle_governor_leaves_nothing [OF waiting_current b(1) _ _ _ runs, of one] b(2-4) entered(2) l by auto
  then show ?thesis using b(1,3,6) runs(3,4) entered(3) l by (intro exI [of _ one] exI [of _ two]) auto
qed

end
