(* ===== verification/Judging.thy ===== *)
theory Judging
  imports Governor_Answers
begin

text \<open>
  Rule 9's judgment of a contract (crates/runtime/src/orchestrator/requests.rs, \<open>judge\<close>): the governor
  is asked for ready, and for escalated when that is refused. The lemmas say what the first refusal
  records, and that the second question is judged on the same contract, board and budget, with one
  failed attempt more.
\<close>

section \<open>What a refusal records\<close>

lemma each_append_records:
  assumes "current p" and "each_do (\<lambda>x. append_for w rq ask (f x)) xs p = (Inr (), q)"
  shows "recorded p (asked_task rq) (map f xs) q \<and> files_of q = files_of p"
  using assms
proof (induction xs arbitrary: p)
  case (Cons x xs)
  obtain u where u: "append_for w rq ask (f x) p = (Inr (), u)"
    "each_do (\<lambda>x. append_for w rq ask (f x)) xs u = (Inr (), q)"
    using Cons.prems(2) by (auto simp: door_then_Inr)
  have one: "recorded p (asked_task rq) [f x] u" "files_of u = files_of p"
    using append_about_records [OF Cons.prems(1) u(1) [unfolded append_for_def]] by auto
  from Cons.IH [OF recorded_current [OF one(1)] u(2)] one recorded_trans show ?case by fastforce
qed simp

text \<open>The projections are those of the whole log, as a tick has them once it caught up.\<close>

definition caught_up :: "project \<Rightarrow> bool" where
  "caught_up p \<longleftrightarrow> well_numbered (log_of p) \<and> replay (log_of p) = Inr (tables_of p)"

lemma caught_up_current: "caught_up p \<Longrightarrow> current p"
  by (auto simp: caught_up_def current_def is_replay_iff_whole)

lemma caught_up_ticks [simp]: "caught_up (p\<lparr>ticks := n\<rparr>) = caught_up p"
  by (simp add: caught_up_def)

lemma append_about_catches_up:
  assumes "current p" and "append_about w i who sess b p = (Inr (), q)"
  shows "caught_up q"
proof -
  let ?ids = "\<lparr>about_task = Some i, by_agent = who, in_session = sess\<rparr>" and ?now = "clock_at w (ticks p)"
  let ?stop = "append_refused w (Suc (ticks p)) ?ids b"
  have l: "well_numbered (log_of p)" using assms(1) by (simp add: current_def)
  obtain e where e: "append ?stop (log_of p) ?now ?ids b = Inr e"
    using assms(2) by (auto simp: append_about_def door_then_log split: sum.splits)
  with append_well_numbered [OF l e] obtain t where "well_numbered (log_of p @ [e])"
    "apply_event (log_of p @ [e]) e (tables_of p) = Inr t" "replay (log_of p @ [e]) = Inr t"
    using apply_event_shows_all [OF assms(1)] by blast
  then show ?thesis using assms(2) e
    by (auto simp: append_about_def door_then_log project_event_def caught_up_def split: option.splits)
qed

definition refusal_body :: "transition_request \<Rightarrow> transition_context \<Rightarrow> transition_refusal \<Rightarrow> event_body" where
  "refusal_body rq x no = TransitionRefused
     \<lparr>refused_from = status (ctx_contract x), refused_to = asked_to rq, refused_actor = asked_actor rq,
      refused_requested_by = requested_by_of rq, refusal = no\<rparr>"

lemma refused_records:
  assumes "current p" and "record_decided w rq ask x (Inl no) p = (Inr a, q)"
  shows "recorded p (asked_task rq)
      (map (\<lambda>(gate, passes, failures). ContractEvaluated gate passes failures) (evaluations (Inl no)) @ [refusal_body rq x no]) q
    \<and> files_of q = files_of p \<and> caught_up q"
proof -
  let ?f = "\<lambda>(gate, passes, failures). ContractEvaluated gate passes failures"
  have "door_then (each_do (\<lambda>e. append_for w rq ask (?f e)) (evaluations (Inl no))) (\<lambda>_.
      door_then (append_for w rq ask (refusal_body rq x no)) (\<lambda>_. answer (RefusedFor no))) p = (Inr a, q)"
    using assms(2) by (simp add: record_decided_def refusal_body_def case_prod_unfold)
  then obtain u where u: "each_do (\<lambda>e. append_for w rq ask (?f e)) (evaluations (Inl no)) p = (Inr (), u)"
    "append_for w rq ask (refusal_body rq x no) u = (Inr (), q)"
    by (auto simp: door_then_Inr)
  note one = each_append_records [OF assms(1) u(1)]
  have "recorded u (asked_task rq) [refusal_body rq x no] q" "files_of q = files_of u"
    using append_about_records [OF recorded_current [OF conjunct1 [OF one]] u(2) [unfolded append_for_def]] by auto
  moreover have "caught_up q"
    using append_about_catches_up [OF recorded_current [OF conjunct1 [OF one]] u(2) [unfolded append_for_def]] .
  ultimately show ?thesis using one recorded_trans by auto
qed

section \<open>What a verdict leaves alone\<close>

text \<open>A verdict is an evaluation or a refusal. It changes no row of the board and no cost, and nothing a
  later verdict on the same task reads but the count of the failed ones.\<close>

fun is_verdict :: "event_body \<Rightarrow> bool" where
  "is_verdict (ContractEvaluated _ _ _) = True"
| "is_verdict (TransitionRefused _) = True"
| "is_verdict _ = False"

lemma verdict_applies: "is_verdict (body e) \<Longrightarrow> apply_in_order e t = Inr t' \<Longrightarrow>
  task_rows t' = task_rows t \<and> cost_records t' = cost_records t"
  by (cases "body e") (auto simp: apply_in_order_def apply_to_def and_then_Inr_iff split: if_splits option.splits)

lemma verdicts_apply:
  "\<forall>e \<in> set es. is_verdict (body e) \<Longrightarrow> apply_all es t = Inr t' \<Longrightarrow>
     task_rows t' = task_rows t \<and> cost_records t' = cost_records t"
proof (induction es arbitrary: t)
  case (Cons e es)
  then obtain u where "apply_in_order e t = Inr u" "apply_all es u = Inr t'"
    by (auto simp: and_then_Inr_iff)
  with Cons verdict_applies [of e t u] show ?case by fastforce
qed simp

lemma recorded_verdicts:
  assumes "caught_up p" and "caught_up q" and "recorded p i bs q" and "list_all is_verdict bs"
  obtains es where "log_of q = log_of p @ es" and "map body es = bs"
    and "\<forall>e \<in> set es. is_verdict (body e) \<and> about_task (ids e) = Some i"
    and "task_rows (tables_of q) = task_rows (tables_of p)" and "cost_records (tables_of q) = cost_records (tables_of p)"
proof -
  obtain es where es: "log_of q = log_of p @ es" "map body es = bs" "\<forall>e \<in> set es. about_task (ids e) = Some i"
    using assms(3) by (auto simp: recorded_def)
  then have verdicts: "\<forall>e \<in> set es. is_verdict (body e)" using assms(4) by (auto simp: list_all_iff)
  have "apply_all es (tables_of p) = Inr (tables_of q)"
    using assms(1,2) es(1) by (simp add: caught_up_def replay_def apply_all_append)
  from verdicts_apply [OF verdicts this] show ?thesis using that [OF es(1,2)] es(3) verdicts by blast
qed

lemma verdicts_skipped:
  assumes "\<forall>e \<in> set es. is_verdict (body e)"
  shows "extra_tries (h @ es) = extra_tries h" "design_returns (h @ es) = design_returns h"
    "is_the_product_plan_in (h @ es) = is_the_product_plan_in h" "product_plan_tasks (h @ es) = product_plan_tasks h"
    "new_project (h @ es) = new_project h" "room_granted f (h @ es) = room_granted f h"
    "sent_back_refines (h @ es) = sent_back_refines h" "refused_sessions (h @ es) = refused_sessions h"
    "refining_began (h @ es) = refining_began h"
proof -
  have none: "filter_map g es = []" if "\<And>e. is_verdict (body e) \<Longrightarrow> g e = None" for g :: "event \<Rightarrow> 'x option"
    using assms that by (auto simp: filter_map_Nil_iff)
  have no: "filter P es = []" if "\<And>e. is_verdict (body e) \<Longrightarrow> \<not> P e" for P
    using assms that by (auto simp: filter_empty_conv)
  have verdict: "(\<exists>g s d. body e = ContractEvaluated g s d) \<or> (\<exists>b. body e = TransitionRefused b)"
    if "is_verdict (body e)" for e
    using that by (cases "body e") auto
  show "extra_tries (h @ es) = extra_tries h"
    unfolding extra_tries_def by (subst filter_map_append, subst none) (auto dest: verdict)
  show "design_returns (h @ es) = design_returns h"
    unfolding design_returns_def by (subst filter_append, subst no) (auto dest: verdict)
  have "\<not> is_the_product_plan_in es"
    using assms by (auto simp: is_the_product_plan_in_def list_ex_iff dest!: bspec verdict)
  then show "is_the_product_plan_in (h @ es) = is_the_product_plan_in h"
    by (simp add: is_the_product_plan_in_def)
  show "product_plan_tasks (h @ es) = product_plan_tasks h"
    unfolding product_plan_tasks_def
    by (subst filter_append, subst no) (auto simp: is_the_product_plan_in_def dest: verdict)
  have "find_map g (h @ es) = find_map g h" if "\<And>e. is_verdict (body e) \<Longrightarrow> g e = None" for g :: "event \<Rightarrow> 'x option"
  proof -
    have "find_map g es = None" using assms that by (simp add: find_map_None_iff)
    then show ?thesis by (induction h) (simp_all split: option.split)
  qed
  then show "new_project (h @ es) = new_project h"
    unfolding new_project_def by (rule meta_mp) (auto dest: verdict)
  show "room_granted f (h @ es) = room_granted f h"
    unfolding room_granted_def by (subst filter_map_append, subst none) (auto dest: verdict)
  have paid: "paid_sessions (h @ es) = paid_sessions h"
    unfolding paid_sessions_def by (subst filter_append, subst no) (auto dest: verdict)
  have "foldl (free_step paid) acc es = acc" for paid acc
    using assms by (induction es) (auto simp: free_step_def dest!: verdict)
  then show "sent_back_refines (h @ es) = sent_back_refines h"
    by (simp add: sent_back_refines_def paid)
  show "refused_sessions (h @ es) = refused_sessions h"
    unfolding refused_sessions_def by (subst filter_append, subst no) (auto dest: verdict)
  show "refining_began (h @ es) = refining_began h"
    unfolding refining_began_def by (subst filter_append, subst no) (auto simp: is_move_into_def dest: verdict)
qed


section \<open>What the next verdict reads\<close>

lemma same_costs:
  assumes "cost_records t' = cost_records t" and "task_rows t' = task_rows t"
  shows "spent_by_task f t' i = spent_by_task f t i" "cost_on f t' i = cost_on f t i"
proof -
  have "works_on t' = works_on t" using assms(2) by (simp add: works_on_def fun_eq_iff)
  then show "spent_by_task f t' i = spent_by_task f t i" "cost_on f t' i = cost_on f t i"
    using assms(1) by (simp_all add: spent_by_task_def costs_by_task_def cost_on_def)
qed

lemma context_reads:
  assumes "context_at w p now rq ask t = Inr x"
  shows "\<exists>b own c. board_of w p = Inr b \<and> known_row b (asked_task rq) = Inr own
      \<and> read_contract (files_of p) (asked_task rq) = Inr c \<and> ctx_contract x = as_on_the_board own c
      \<and> (\<exists>above awaits listed. parent_state_of (float_sub_of w) (files_of p) b (as_on_the_board own c) = Inr above
          \<and> awaits_the_product_plan_of w p = Inr awaits \<and> repos_on_file w = Inr listed
          \<and> ctx_readiness x =
             \<lparr>dependency_statuses = filter_map (\<lambda>d. map_option (\<lambda>s. (d, s)) (status_on b d))
                (dependencies (as_on_the_board own c)),
              active_agents_by_role = active_agents_by_role_of t, parent_of = above, rules = team_rules_of t,
              awaits_the_product_plan = awaits,
              is_the_product_plan = is_the_product_plan_in (history_of (log_of p) (task_id (as_on_the_board own c))),
              repos = listed, ready_solo = is_solo t\<rparr>)"
    and "readiness_attempt_limit x = readiness_attempts t"
    and "readiness_failed_attempts x = readiness_failures_in (history_of (log_of p) (asked_task rq))"
    and "permission_denied x = ask_denied ask" and "preview_failed x = (ask_preview_failed ask \<noteq> None)"
    and "criterion_unrunnable x = (ask_unrunnable ask \<noteq> None)"
  using assms unfolding context_at_def readiness_parts_def
  by (auto simp: Let_def and_then_Inr_iff case_prod_beta tidied_def)

lemma verdicts_keep:
  assumes p: "caught_up p" and q: "caught_up q" and bs: "recorded p i bs q" "list_all is_verdict bs"
    and files: "files_of q = files_of p"
  shows "board_of w q = board_of w p" "awaits_the_product_plan_of w q = awaits_the_product_plan_of w p"
    "task_is_spent w q j = task_is_spent w p j" "standing_in (log_of q) = standing_in (log_of p)"
    "extra_tries (history_of (log_of q) j) = extra_tries (history_of (log_of p) j)"
    "design_returns (history_of (log_of q) j) = design_returns (history_of (log_of p) j)"
    "is_the_product_plan_in (history_of (log_of q) j) = is_the_product_plan_in (history_of (log_of p) j)"
proof -
  obtain es where es: "log_of q = log_of p @ es" "map body es = bs"
    "\<forall>e \<in> set es. is_verdict (body e) \<and> about_task (ids e) = Some i"
    and tables: "task_rows (tables_of q) = task_rows (tables_of p)" "cost_records (tables_of q) = cost_records (tables_of p)"
    using recorded_verdicts [OF p q bs] .
  from es(3) have verdicts: "\<forall>e \<in> set es. is_verdict (body e)" by simp
  define later where "later = history_of es j"
  have h: "history_of (log_of q) j = history_of (log_of p) j @ later"
    using es(1) by (simp add: history_of_def later_def)
  have "\<forall>e \<in> set later. is_verdict (body e)" using verdicts by (simp add: later_def history_of_def)
  note skipped = verdicts_skipped [OF this] and skipped_all = verdicts_skipped [OF verdicts]
  show board: "board_of w q = board_of w p"
    using tables same_costs(2) [OF tables(2,1)] by (simp add: board_of_def board_def)
  show "awaits_the_product_plan_of w q = awaits_the_product_plan_of w p"
    unfolding awaits_the_product_plan_of_def board es(1) skipped_all(4,5) by (rule refl)
  have "task_budget_of f g (log_of q) (tables_of q) c = task_budget_of f g (log_of p) (tables_of p) c"
    if "task_id c = j" for f g c
    using h that skipped same_costs(1) [OF tables(2,1)] by (simp add: task_budget_of_def Let_def)
  then show "task_is_spent w q j = task_is_spent w p j"
    using files read_contract_id by (auto simp: task_is_spent_def split: sum.splits)
  have "door_note v" if "is_verdict v" for v using that by (cases v) simp_all
  then have "list_all door_note bs" using bs(2) by (auto simp: list_all_iff)
  then show "standing_in (log_of q) = standing_in (log_of p)"
    using only_noted_standing bs(1) by (auto simp: only_noted_def)
  show "extra_tries (history_of (log_of q) j) = extra_tries (history_of (log_of p) j)"
    "design_returns (history_of (log_of q) j) = design_returns (history_of (log_of p) j)"
    "is_the_product_plan_in (history_of (log_of q) j) = is_the_product_plan_in (history_of (log_of p) j)"
    using h skipped by simp_all
qed

lemma verdicts_keep_context:
  assumes p: "caught_up p" and q: "caught_up q" and bs: "recorded p (asked_task rq) bs q" "list_all is_verdict bs"
    and files: "files_of q = files_of p"
    and x: "context_at w p now rq ask t = Inr x" and y: "context_at w q now' rq' ask' t = Inr y"
    and "asked_task rq' = asked_task rq"
  shows "ctx_contract y = ctx_contract x" "ctx_readiness y = ctx_readiness x"
    "iteration_limit y = iteration_limit x" "design_plan_returns y = design_plan_returns x"
proof -
  note keep = verdicts_keep [OF p q bs files]
  show contract: "ctx_contract y = ctx_contract x" and "ctx_readiness y = ctx_readiness x"
    using context_reads(1) [OF x] context_reads(1) [OF y] keep(1,2,7) files assms(8) by auto
  show "iteration_limit y = iteration_limit x" "design_plan_returns y = design_plan_returns x"
    using context_parts(5,6) [OF x] context_parts(5,6) [OF y] keep(5,6) assms(8) contract
    by (simp_all add: iteration_limit_def)
qed

section \<open>The attempts of a contract\<close>

definition attempts_failed :: "log \<Rightarrow> nat" where
  "attempts_failed history =
     length (filter failed_readiness (filter (\<lambda>e. refining_began history < seq e) history))"

lemma unat_u32_of: "unat (u32_of n) = min n (2 ^ 32 - 1)"
  by (auto simp: u32_of_def unat_of_nat unat_minus_1 take_bit_nat_eq_self)

lemma readiness_failures_count: "unat (readiness_failures_in h) = min (attempts_failed h) (2 ^ 32 - 1)"
  by (simp add: readiness_failures_in_def attempts_failed_def unat_u32_of Let_def)

lemma refining_began_le:
  assumes "\<And>e. e \<in> set h \<Longrightarrow> seq e \<le> n"
  shows "refining_began h \<le> n"
proof -
  have "fold max ns m \<le> n" if "\<And>k. k \<in> set ns \<Longrightarrow> k \<le> n" "m \<le> n" for ns and m :: nat
    using that by (induction ns arbitrary: m) auto
  from this [of "map seq (filter (\<lambda>e. (case body e of RequestTriaged _ \<Rightarrow> True | _ \<Rightarrow> False)
      \<or> is_move_into Refining e) h)" 0] show ?thesis
    unfolding refining_began_def using assms by force
qed

lemma well_numbered_seq_le: "well_numbered l \<Longrightarrow> e \<in> set l \<Longrightarrow> seq e \<le> length l"
  by (auto simp: in_set_conv_nth well_numbered_nth)

lemma well_numbered_later: "well_numbered (l @ es) \<Longrightarrow> e \<in> set es \<Longrightarrow> length l < seq e"
proof -
  assume w: "well_numbered (l @ es)" and "e \<in> set es"
  then obtain k where "k < length es" "e = (l @ es) ! (length l + k)"
    by (auto simp: in_set_conv_nth nth_append)
  then show ?thesis using well_numbered_nth [OF w, of "length l + k"] by simp
qed

text \<open>A verdict adds the failed readiness evaluations in it.\<close>

lemma attempts_after:
  assumes p: "caught_up p" and q: "caught_up q" and bs: "recorded p i bs q" "list_all is_verdict bs"
  shows "attempts_failed (history_of (log_of q) i) = attempts_failed (history_of (log_of p) i)
    + length (filter (\<lambda>b. case b of ContractEvaluated EvaluatedReady ok _ \<Rightarrow> \<not> ok | _ \<Rightarrow> False) bs)"
proof -
  obtain es where es: "log_of q = log_of p @ es" "map body es = bs"
    "\<forall>e \<in> set es. is_verdict (body e) \<and> about_task (ids e) = Some i"
    using recorded_verdicts [OF p q bs] .
  let ?h = "history_of (log_of p) i"
  have all: "history_of es i = es" using es(3) by (simp add: history_of_def filter_id_conv)
  have h: "history_of (log_of q) i = ?h @ es" using es(1) all by (simp add: history_of_def)
  have began: "refining_began (?h @ es) = refining_began ?h" using verdicts_skipped(9) es(3) by blast
  have "refining_began ?h \<le> length (log_of p)"
    using p well_numbered_seq_le by (intro refining_began_le) (auto simp: history_of_def caught_up_def)
  then have "filter (\<lambda>e. refining_began ?h < seq e) es = es"
    using q es(1) well_numbered_later by (fastforce simp: filter_id_conv caught_up_def)
  moreover have "length (filter failed_readiness es)
      = length (filter (\<lambda>b. case b of ContractEvaluated EvaluatedReady ok _ \<Rightarrow> \<not> ok | _ \<Rightarrow> False) bs)"
    unfolding es(2) [symmetric] filter_map by (simp add: failed_readiness_def [abs_def] comp_def)
  ultimately show ?thesis by (simp add: attempts_failed_def h began)
qed

section \<open>Judging a contract\<close>

lemma governor_moves_refused_records:
  assumes "caught_up p" and "to \<noteq> Verifying"
    and "governor_moves_with w t i to ask p = (Inr (RefusedFor no), q)"
  obtains x where "context_at w p (clock_at w (ticks p)) (governor_request i to) (tidied ask) t = Inr x"
    and "evaluate_transition (engine w) (governor_request i to) x = Inl no"
    and "recorded p i (map (\<lambda>(gate, passes, failures). ContractEvaluated gate passes failures) (evaluations (Inl no))
          @ [refusal_body (governor_request i to) x no]) q"
    and "files_of q = files_of p" and "caught_up q"
proof -
  have p: "current p" using caught_up_current [OF assms(1)] .
  from governor_moves_cases [OF p assms(2,3)] obtain x where
    x: "context_at w p (clock_at w (ticks p)) (governor_request i to) (tidied ask) t = Inr x"
      "RefusedFor no = governor_answer w i to x"
      "record_decided w (governor_request i to) (tidied ask) x
        (evaluate_transition (engine w) (governor_request i to) x) (p\<lparr>ticks := ticks p + 1\<rparr>) = (Inr (RefusedFor no), q)" .
  have no: "evaluate_transition (engine w) (governor_request i to) x = Inl no"
    using x(2) by (simp add: governor_answer_def split: sum.splits)
  have "current (p\<lparr>ticks := ticks p + 1\<rparr>)" using p by simp
  from refused_records [OF this x(3) [unfolded no]] show ?thesis
    using that [OF x(1) no] by (simp add: recorded_def)
qed

lemma governor_moves_moved:
  assumes "current p" and "standing_in (log_of p) i = Some s"
    and "governor_moves_with w t i to ask p = (Inr (MovedTo d), q)"
  shows "map_option stands (standing_at (tables_of q) i) = Some to \<and> current q"
  using assms(1) assms(3) [unfolded governor_moves_with_def]
proof (cases rule: request_cases)
  case (moved d' x)
  have judged: "judged w p (governor_request i to) (tidied ask) t x (Inr d)" using moved(1,4) by auto
  then obtain row where "d = decision (governor_request i to) x row" using judged_decision by metis
  moreover have "current q" using moved(2) recorded_current by (auto simp: move_recorded_def)
  ultimately show ?thesis
    using move_recorded_standing [OF moved(2)] assms(2) moved(4) current_standing by auto
qed simp_all

lemma ready_rows:
  "filter (\<lambda>r. row_actor r = GovernorActor) (find_transitions Refining Ready)
    = [row (Is Refining) (Is Ready) GovernorActor DefinitionOfReady]"
  "filter (\<lambda>r. row_actor r = GovernorActor) (find_transitions Refining Escalated)
    = [row (Is Refining) (Is Escalated) GovernorActor ReadinessExhausted,
       row (Is Refining) (Is Escalated) GovernorActor ContractRequiresHuman,
       row Any (Is Escalated) GovernorActor GovernorEscalation]"
  by (simp_all add: find_transitions_def TRANSITION_TABLE_def leaves_def)

lemma governor_ready:
  assumes "task_id (ctx_contract x) = i" and "status (ctx_contract x) = Refining"
  shows "(\<exists>d. evaluate_transition g (governor_request i Ready) x = Inr d)
      \<longleftrightarrow> evaluate_readiness g (ctx_contract x) (ctx_readiness x) = Inr ()"
    and "evaluate_transition g (governor_request i Ready) x = Inl no \<Longrightarrow>
      \<exists>details. no = GateFailed [\<lparr>failed_gate = DefinitionOfReady, failed_details = details\<rparr>]"
proof -
  let ?rq = "governor_request i Ready"
  have rows: "rows_of ?rq x = [row (Is Refining) (Is Ready) GovernorActor DefinitionOfReady]"
    using assms(2) ready_rows(1) by simp
  show "(\<exists>d. evaluate_transition g ?rq x = Inr d)
      \<longleftrightarrow> evaluate_readiness g (ctx_contract x) (ctx_readiness x) = Inr ()"
    unfolding is_ok_iff [symmetric] passes_iff rows
    using assms(1) by (simp add: may_ask_unnamed check_row_to gate_opens)
  assume no: "evaluate_transition g ?rq x = Inl no"
  have "find_transitions (status (ctx_contract x)) Ready \<noteq> []" using rows by auto
  then have "try_rows g ?rq x [] (rows_of ?rq x) = Inl no"
    using no assms(1) rows by (simp add: evaluate_transition_cases may_ask_unnamed split: if_splits)
  then show "\<exists>details. no = GateFailed [\<lparr>failed_gate = DefinitionOfReady, failed_details = details\<rparr>]"
    unfolding rows try_rows_Inl_iff by (auto simp: gate_failures_def split: sum.splits)
qed

lemma not_exhausted_no_reason:
  assumes "stored (budget_state_of (sum_usd_of w) (float_add_of w) l tb t who agent_i (Some c) ledger now) = Inr s"
    and "\<not> scope_exhausted s TaskUsd" "\<not> scope_exhausted s TaskSessions"
  shows "List.find (\<lambda>e. consequence e = EscalateTask) (check_budgets s) = None"
  using assms(2,3) by (auto simp: find_None_iff check_budgets_iff elim: scope_consequence.elims)

lemma escalation_reason_unasked:
  assumes "current p" and "standing_in (log_of p) i = Some s"
    and "context_at w p now (governor_request i to) no_ask t = Inr x"
  shows "governor_escalation_reason x \<noteq> None \<longleftrightarrow>
    task_is_spent w p i \<or> unat (iteration_limit x) \<le> unat (design_plan_returns x)"
proof -
  obtain b own c where c: "read_contract (files_of p) i = Inr c"
    and budget: "stored (budget_state_of (sum_usd_of w) (float_add_of w) (log_of p) (tables_of p) t
           (assignee_role c) (b_assignee own) (Some (as_on_the_board own c)) no_session now) = Inr (ctx_budget x)"
    using context_parts(1) [OF assms(3)] by auto
  have quiet: "\<not> permission_denied x" "\<not> preview_failed x" "\<not> criterion_unrunnable x"
    using context_reads(4-6) [OF assms(3)] by (simp_all add: no_ask_def)
  show ?thesis
  proof (cases "task_is_spent w p i")
    case True
    then show ?thesis using judged_standing(5) [OF assms] by simp
  next
    case False
    then have "List.find (\<lambda>e. consequence e = EscalateTask) (check_budgets (ctx_budget x)) = None"
      using budget_state_spent [OF c disjI2 [OF refl] budget] not_exhausted_no_reason [OF budget] by blast
    then show ?thesis using quiet False by (auto simp: governor_escalation_reason_def word_le_nat_alt)
  qed
qed

text \<open>The designer's plans: past the task's tries the governor is not refused.\<close>

lemma design_escalate_None:
  assumes p: "current p" "standing_in (log_of p) (b_task r) = Some s" "stands s = b_status r"
    and "\<not> is_terminal (b_status r)" "b_status r \<noteq> Escalated"
    and c: "read_contract (files_of p) (b_task r) = Inr c"
      "saturating_add (max_iterations c) (extra_tries (history_of (log_of p) (b_task r)))
        \<le> design_returns (history_of (log_of p) (b_task r))"
    and run: "design_escalate w t r p = (Inr None, q)"
  shows "refused_since_entering (log_of p) (b_task r) (b_status r) Escalated"
proof (rule ccontr)
  let ?i = "b_task r"
  assume "\<not> ?thesis"
  then have run: "door_then (governor_moves_with w t ?i Escalated no_ask) (\<lambda>outcome. answer (acted_if_moved ?i
      ''escalated it: its design plan was returned as often as it may be'' outcome)) p = (Inr None, q)"
    using run by (simp add: design_escalate_def governor_moves_def)
  have tidy: "tidied no_ask = no_ask" by (simp add: tidied_def no_ask_def trimmed_def)
  show False
  proof (rule unmoved_means_shut [OF p(1) _ run])
    fix x assume "context_at w p (clock_at w (ticks p)) (governor_request ?i Escalated) (tidied no_ask) t = Inr x"
    then have x: "context_at w p (clock_at w (ticks p)) (governor_request ?i Escalated) no_ask t = Inr x" by (simp add: tidy)
    note at_x = judged_standing [OF p(1,2) x]
    have "max_iterations (ctx_contract x) = max_iterations c" using at_x(4) c(1) by (simp add: max_iterations_def)
    then have "unat (iteration_limit x) \<le> unat (design_plan_returns x)"
      using c(2) context_parts(5,6) [OF x] by (simp add: iteration_limit_def word_le_nat_alt)
    then have "check_gate (engine w) GovernorEscalation GovernorActor Escalated x = Inr ()"
      using escalation_reason_unasked [OF p(1,2) x] by (simp add: gate_opens)
    then show "\<exists>d. governor_answer w ?i Escalated x = MovedTo d"
      using governor_passes [OF at_x(2), of "row Any (Is Escalated) GovernorActor GovernorEscalation" Escalated w]
        governor_rows(5) [OF assms(4,5)] at_x(1) p(3) by simp
  qed simp
qed

lemma governor_gives_up:
  assumes "task_id (ctx_contract x) = i" and "status (ctx_contract x) = Refining"
    and "evaluate_readiness (engine w) (ctx_contract x) (ctx_readiness x) \<noteq> Inr ()"
  shows "(\<exists>d. governor_answer w i Escalated x = MovedTo d) \<longleftrightarrow>
    unat (readiness_attempt_limit x) \<le> unat (readiness_failed_attempts x) \<or> governor_escalation_reason x \<noteq> None"
proof -
  have rows: "rows_of (governor_request i Escalated) x
    = [row (Is Refining) (Is Escalated) GovernorActor ReadinessExhausted,
       row (Is Refining) (Is Escalated) GovernorActor ContractRequiresHuman,
       row Any (Is Escalated) GovernorActor GovernorEscalation]"
    using assms(2) ready_rows(2) by simp
  show ?thesis unfolding governor_moved_iff passes_iff rows
    using assms by (simp add: may_ask_unnamed check_row_to gate_opens)
qed


definition gives_up :: "world \<Rightarrow> team \<Rightarrow> project \<Rightarrow> string \<Rightarrow> transition_context \<Rightarrow> bool" where
  "gives_up w t p i x \<longleftrightarrow>
     unat (readiness_attempts t) \<le> min (attempts_failed (history_of (log_of p) i) + 1) (2 ^ 32 - 1)
     \<or> task_is_spent w p i \<or> unat (iteration_limit x) \<le> unat (design_plan_returns x)"

definition judged_words :: "bool \<Rightarrow> bool \<Rightarrow> string" where
  "judged_words ready up =
     (if ready then ''judged its contract ready''
      else if up then ''escalated its contract to the human'' else ''judged its contract, which is not ready'')"

lemma refused_last:
  assumes "recorded p i (bs @ [TransitionRefused b]) q" and "refused_from b = from" and "refused_to b = to"
  shows "refused_since_entering (log_of q) i from to"
proof -
  obtain es where es: "log_of q = log_of p @ es" "map body es = bs @ [TransitionRefused b]"
    "\<forall>e \<in> set es. about_task (ids e) = Some i"
    using assms(1) by (auto simp: recorded_def)
  then obtain us e where "es = us @ [e]" "body e = TransitionRefused b"
    by (cases es rule: rev_cases) auto
  then show ?thesis using es(1,3) assms(2,3) by (simp add: refused_since_entering_def history_of_def is_move_into_def)
qed

lemma judge_contract_runs:
  assumes p: "caught_up p" and standing: "standing_in (log_of p) i = Some s" "stands s = Refining"
    and i: "b_task r = i" and run: "judge_contract w t r p = (Inr report, q)"
  obtains x where "context_at w p (clock_at w (ticks p)) (governor_request i Ready) no_ask t = Inr x"
    and "report = Acted i (judged_words
        (evaluate_readiness (engine w) (ctx_contract x) (ctx_readiness x) = Inr ()) (gives_up w t p i x))"
    and "map_option stands (standing_at (tables_of q) i) = Some
        (if evaluate_readiness (engine w) (ctx_contract x) (ctx_readiness x) = Inr () then Ready
         else if gives_up w t p i x then Escalated else Refining)"
    and "evaluate_readiness (engine w) (ctx_contract x) (ctx_readiness x) \<noteq> Inr () \<Longrightarrow> \<not> gives_up w t p i x \<Longrightarrow>
        refused_since_entering (log_of q) i Refining Escalated"
proof -
  have current: "current p" using caught_up_current [OF p] .
  have tidy: "tidied no_ask = no_ask" by (simp add: tidied_def no_ask_def trimmed_def)
  obtain first u where first: "governor_moves_with w t i Ready no_ask p = (Inr first, u)"
    and then_up: "(case first of
         MovedTo _ \<Rightarrow> answer (Acted i ''judged its contract ready'')
       | RefusedFor _ \<Rightarrow> door_then (governor_moves_with w t i Escalated no_ask) (\<lambda>up.
             answer (Acted i (case up of MovedTo _ \<Rightarrow> ''escalated its contract to the human''
               | RefusedFor _ \<Rightarrow> ''judged its contract, which is not ready'')))) u = (Inr report, q)"
    using run i unfolding judge_contract_def governor_moves_def by (auto simp: door_then_Inr)
  show ?thesis
  proof (cases first)
    case (MovedTo d)
    from governor_moves_cases [OF current _ first] obtain x where
      x: "context_at w p (clock_at w (ticks p)) (governor_request i Ready) no_ask t = Inr x"
      "MovedTo d = governor_answer w i Ready x" using MovedTo tidy by auto
    note at_x = judged_standing [OF current standing(1) x(1)]
    have "\<exists>d. evaluate_transition (engine w) (governor_request i Ready) x = Inr d"
      using x(2) by (auto simp: governor_answer_def split: sum.splits)
    then have "evaluate_readiness (engine w) (ctx_contract x) (ctx_readiness x) = Inr ()"
      using governor_ready(1) at_x(1,2) standing(2) by simp
    then show ?thesis
      using that [OF x(1)] governor_moves_moved [OF current standing(1)] first then_up MovedTo
      by (auto simp: judged_words_def)
  next
    case (RefusedFor no)
    from governor_moves_refused_records [OF p _ first [unfolded RefusedFor]] obtain x where
      x: "context_at w p (clock_at w (ticks p)) (governor_request i Ready) no_ask t = Inr x"
      and shut: "evaluate_transition (engine w) (governor_request i Ready) x = Inl no"
      and bodies: "recorded p i (map (\<lambda>(gate, passes, failures). ContractEvaluated gate passes failures) (evaluations (Inl no))
          @ [refusal_body (governor_request i Ready) x no]) u"
      and u: "files_of u = files_of p" "caught_up u" using tidy by auto
    note at_x = judged_standing [OF current standing(1) x]
    have refining: "status (ctx_contract x) = Refining" using at_x(1) standing(2) by simp
    obtain details where no: "no = GateFailed [\<lparr>failed_gate = DefinitionOfReady, failed_details = details\<rparr>]"
      using governor_ready(2) [OF at_x(2) refining shut] by blast
    let ?bs = "[ContractEvaluated EvaluatedReady False details, refusal_body (governor_request i Ready) x no]"
    have bs: "recorded p i ?bs u" "list_all is_verdict ?bs"
      using bodies by (simp_all add: no refusal_body_def)
    have unready: "evaluate_readiness (engine w) (ctx_contract x) (ctx_readiness x) \<noteq> Inr ()"
      using governor_ready(1) [OF at_x(2) refining, of "engine w"] shut by auto
    note keep = verdicts_keep [OF p u(2) bs u(1)]
    obtain second where second: "governor_moves_with w t i Escalated no_ask u = (Inr second, q)"
      and report: "report = Acted i (case second of MovedTo _ \<Rightarrow> ''escalated its contract to the human''
               | RefusedFor _ \<Rightarrow> ''judged its contract, which is not ready'')"
      using then_up RefusedFor by (auto simp: door_then_Inr)
    have current_u: "current u" using caught_up_current [OF u(2)] .
    have standing_u: "standing_in (log_of u) i = Some s" using keep(4) standing(1) by simp
    from governor_moves_cases [OF current_u _ second] obtain y where
      y: "context_at w u (clock_at w (ticks u)) (governor_request i Escalated) no_ask t = Inr y"
      and second_is: "second = governor_answer w i Escalated y" using tidy by auto
    note at_y = judged_standing [OF current_u standing_u y]
    have same: "ctx_contract y = ctx_contract x" "ctx_readiness y = ctx_readiness x"
      "iteration_limit y = iteration_limit x" "design_plan_returns y = design_plan_returns x"
      using verdicts_keep_context [OF p u(2) _ bs(2) u(1) x y] bs(1) by simp_all
    have "unat (readiness_failed_attempts y) = min (attempts_failed (history_of (log_of p) i) + 1) (2 ^ 32 - 1)"
      using context_reads(3) [OF y] attempts_after [OF p u(2) bs]
      by (simp add: readiness_failures_count refusal_body_def)
    then have up: "(\<exists>d. second = MovedTo d) \<longleftrightarrow> gives_up w t p i x"
      unfolding second_is
      using governor_gives_up [of y i w] at_y(1,2) standing(2) unready same keep(3)
        escalation_reason_unasked [OF current_u standing_u y] context_reads(2) [OF y]
      by (simp add: gives_up_def)
    show ?thesis
    proof (cases second)
      case (MovedTo d)
      then show ?thesis
        using that [OF x] governor_moves_moved [OF current_u standing_u] second up unready report
        by (auto simp: judged_words_def)
    next
      case second_no: (RefusedFor again)
      from governor_moves_refused_records [OF u(2) _ second [unfolded second_no]] obtain z where
        z: "context_at w u (clock_at w (ticks u)) (governor_request i Escalated) no_ask t = Inr z"
        and ends: "recorded u i (map (\<lambda>(gate, passes, failures). ContractEvaluated gate passes failures) (evaluations (Inl again))
          @ [refusal_body (governor_request i Escalated) z again]) q" using tidy by auto
      have "z = y" using z y by simp
      then have "status (ctx_contract z) = Refining" using same(1) refining by simp
      then have "refused_since_entering (log_of q) i Refining Escalated"
        using refused_last [OF ends [unfolded refusal_body_def]] by simp
      moreover have "current q" using ends recorded_current by blast
      moreover have "standing_in (log_of q) i = Some s"
      proof -
        have "only_noted u i q" using governor_moves_refused [OF current_u second [unfolded second_no]] by simp
        then show ?thesis using only_noted_standing standing_u by metis
      qed
      ultimately show ?thesis
        using that [OF x] up unready report second_no current_standing standing(2)
        by (auto simp: judged_words_def)
    qed
  qed
qed

lemma refused_stays:
  assumes "refused_since_entering l i from to" and "\<forall>e \<in> set later. about_task (ids e) = Some i \<longrightarrow> \<not> is_move_into from e"
  shows "refused_since_entering (l @ later) i from to"
proof -
  have "\<forall>e \<in> set (rev (history_of later i)). \<not> is_move_into from e" using assms(2) by (simp add: history_of_def)
  then have "takeWhile (\<lambda>e. \<not> is_move_into from e) (rev (history_of later i) @ rev (history_of l i))
      = rev (history_of later i) @ takeWhile (\<lambda>e. \<not> is_move_into from e) (rev (history_of l i))"
    by (simp add: takeWhile_append)
  then show ?thesis using assms(1) by (simp add: refused_since_entering_def history_of_def)
qed

lemma refused_is_passed_over:
  assumes "refused_since_entering (log_of u) (b_task r) (b_status r) Escalated"
    and "escalate_if_spent w usd t r u = (a, v)"
  shows "log_of v = log_of u \<and> (\<forall>report. a \<noteq> Inr (Some report))"
  using assms
  by (auto simp: escalate_if_spent_def door_then_reading budget_read_def split: sum.splits option.splits)

section \<open>What a judgment comes to\<close>

text \<open>
  C17: A contract judged by the governor becomes ready exactly when it meets the Definition of Ready.
  Otherwise it escalates exactly when this was its last attempt (the failed evaluations since refining
  began, this one counted, reach the team's limit), its dollars or sessions are spent, or its design
  plans were returned as often as they may be; else it stays in refining. The report says which.
\<close>

theorem judgement_is_exact:
  assumes "caught_up p" and "standing_in (log_of p) i = Some s" and "stands s = Refining"
    and "b_task r = i" and "judge_contract w t r p = (Inr report, q)"
  shows "\<exists>x. context_at w p (clock_at w (ticks p)) (governor_request i Ready) no_ask t = Inr x
    \<and> report = Acted i (judged_words
        (evaluate_readiness (engine w) (ctx_contract x) (ctx_readiness x) = Inr ()) (gives_up w t p i x))
    \<and> map_option stands (standing_at (tables_of q) i) = Some
        (if evaluate_readiness (engine w) (ctx_contract x) (ctx_readiness x) = Inr () then Ready
         else if gives_up w t p i x then Escalated else Refining)"
  using judge_contract_runs [OF assms] by metis

text \<open>
  C20: A contract judged not ready is out of the budget rule's sight until it enters refining again:
  whatever it spends after the judgment, and whatever else is recorded, the rule makes no report and
  records nothing, because the escalation the judgment asked for, and was refused, counts as the
  budget's own.
\<close>

theorem judged_task_is_never_called_spent:
  assumes "caught_up p" and "standing_in (log_of p) i = Some s" and "stands s = Refining"
    and "b_task r = i" and "judge_contract w t r p = (Inr (Acted i ''judged its contract, which is not ready''), q)"
    and "log_of u = log_of q @ later"
    and "\<forall>e \<in> set later. about_task (ids e) = Some i \<longrightarrow> \<not> is_move_into Refining e"
    and "b_task later_row = i" and "b_status later_row = Refining"
    and "escalate_if_spent w' usd t' later_row u = (a, v)"
  shows "log_of v = log_of u \<and> (\<forall>report. a \<noteq> Inr (Some report))"
proof -
  from judge_contract_runs [OF assms(1-5)] obtain x where
    words: "Acted i ''judged its contract, which is not ready'' = Acted i (judged_words
        (evaluate_readiness (engine w) (ctx_contract x) (ctx_readiness x) = Inr ()) (gives_up w t p i x))"
    and silent: "evaluate_readiness (engine w) (ctx_contract x) (ctx_readiness x) \<noteq> Inr () \<Longrightarrow> \<not> gives_up w t p i x \<Longrightarrow>
        refused_since_entering (log_of q) i Refining Escalated"
    by metis
  have "refused_since_entering (log_of q) i Refining Escalated"
    using words by (intro silent) (auto simp: judged_words_def split: if_splits)
  then have "refused_since_entering (log_of u) (b_task later_row) (b_status later_row) Escalated"
    using refused_stays assms(6-9) by simp
  then show ?thesis using refused_is_passed_over assms(10) by blast
qed

section \<open>A contract that is not ready\<close>

definition unready_project :: project where
  "unready_project = (project_at Refining)\<lparr>files_of := [''CTV-7'' \<mapsto> (sample_task Refining)\<lparr>intent := []\<rparr>]\<rparr>"

definition bare_row :: board_row where
  "bare_row = \<lparr>b_task = ''CTV-7'', b_kind = Task, b_parent = None, b_title = [], b_status = Refining, b_risk = Low,
     b_triaged = True, b_locked = False, b_updated_seq = 1, b_cost_usd = Finite 0, b_assignee = None,
     b_reviewer = None, b_iteration = 0, b_awaiting_integration = False, b_waiting_on_human = False,
     b_awaiting_approval = False, b_verifications = 0, b_rejections = 0, b_interventions = 0, b_sprint = None,
     b_left_for_the_backlog = False, b_skips_sprints = False, b_counted_seq = None\<rparr>"

lemma unready_standing: "standing_in (log_of unready_project) ''CTV-7''
    = Some \<lparr>stands = Refining, holder = None, judge = None, tries = 0\<rparr>"
  using sample_agrees(2) [of Refining] by (simp add: unready_project_def)

lemma unready_caught_up: "caught_up unready_project"
  by (simp add: caught_up_def unready_project_def project_at_def summary_at_def sample_event_def replay_def run_defs
      well_numbered_def SEQ_MAX_def)

lemma unready_read: "read_contract (files_of unready_project) ''CTV-7'' = Inr ((sample_task Refining)\<lparr>intent := []\<rparr>)"
  by (simp add: read_contract_def unready_project_def sample_task_def)

lemma unready_readable:
  assumes "board_of sample_world p = board_of sample_world unready_project" and "files_of p = files_of unready_project"
    and "cost_records (tables_of p) = []" and "new_project (log_of p) = None" and "asked_task rq = ''CTV-7''"
  shows "\<exists>x. context_at sample_world p now rq ask t = Inr x"
proof -
  have "board_of sample_world unready_project = board_of sample_world (project_at Refining)"
    by (simp add: board_of_def unready_project_def)
  then obtain own where own: "board_of sample_world p = Inr [own]" "b_task own = ''CTV-7''" "b_parent own = None"
    using sample_board [of Refining] assms(1) by auto
  have held: "read_contract (files_of p) ''CTV-7'' = Inr ((sample_task Refining)\<lparr>intent := []\<rparr>)"
    using unready_read assms(2) by simp
  show ?thesis
    by (rule one_task_readable [OF own held])
      (simp_all add: assms(3-5) sample_task_def sample_contract_def task_private_folder_def private_folder_def)
qed

lemma unready_runs:
  "\<exists>report q. judge_contract sample_world sample_team bare_row unready_project = (Inr report, q)"
proof -
  let ?p = unready_project and ?i = "''CTV-7''"
  have tidy: "tidied no_ask = no_ask" by (simp add: tidied_def no_ask_def trimmed_def)
  have log: "length (log_of ?p) = 1" "cost_records (tables_of ?p) = []" "new_project (log_of ?p) = None"
    by (simp_all add: unready_project_def project_at_def empty_tables_def new_project_def sample_event_def)
  have moves: "\<exists>outcome q. governor_moves_with sample_world sample_team ?i to no_ask p = (Inr outcome, q)"
    if "to \<noteq> Verifying" "current p" "length (log_of p) + MOST_EVENTS \<le> SEQ_MAX"
      "board_of sample_world p = board_of sample_world ?p" "files_of p = files_of ?p"
      "cost_records (tables_of p) = []" "new_project (log_of p) = None" for to p
  proof -
    have "asked_task (governor_request ?i to) = ?i" by simp
    from unready_readable [OF that(4-7) this] obtain x where
      "context_at sample_world p (clock_at sample_world (ticks p)) (governor_request ?i to) (tidied no_ask) sample_team = Inr x"
      by blast
    moreover have "tidy_first sample_world (governor_request ?i to) no_ask sample_team p = (Inr (), p)"
      using that(1) by (simp add: tidy_first_def)
    ultimately show ?thesis
      using answered_request [OF that(2) _ _ that(3)] unfolding governor_moves_with_def by blast
  qed
  have big: "n + MOST_EVENTS \<le> SEQ_MAX" if "n \<le> 100" for n
    using that by (simp add: MOST_EVENTS_def SEQ_MAX_def TRANSITION_TABLE_def)
  obtain first u where first: "governor_moves_with sample_world sample_team ?i Ready no_ask ?p = (Inr first, u)"
    using moves [of Ready ?p] caught_up_current [OF unready_caught_up] big [of "length (log_of ?p)"] log by auto
  show ?thesis
  proof (cases first)
    case (MovedTo d)
    then show ?thesis using first by (simp add: judge_contract_def governor_moves_def bare_row_def door_then_def)
  next
    case (RefusedFor no)
    from governor_moves_refused_records [OF unready_caught_up _ first [unfolded RefusedFor]] obtain x where
      x: "context_at sample_world ?p (clock_at sample_world (ticks ?p)) (governor_request ?i Ready) no_ask sample_team = Inr x"
      and shut: "evaluate_transition (engine sample_world) (governor_request ?i Ready) x = Inl no"
      and bodies: "recorded ?p ?i (map (\<lambda>(gate, passes, failures). ContractEvaluated gate passes failures) (evaluations (Inl no))
          @ [refusal_body (governor_request ?i Ready) x no]) u"
      and u: "files_of u = files_of ?p" "caught_up u" using tidy by auto
    note at_x = judged_standing [OF caught_up_current [OF unready_caught_up] unready_standing x]
    obtain details where no: "no = GateFailed [\<lparr>failed_gate = DefinitionOfReady, failed_details = details\<rparr>]"
      using governor_ready(2) [OF at_x(2) _ shut] at_x(1) by auto
    let ?bs = "[ContractEvaluated EvaluatedReady False details, refusal_body (governor_request ?i Ready) x no]"
    have bs: "recorded ?p ?i ?bs u" "list_all is_verdict ?bs" using bodies by (simp_all add: no refusal_body_def)
    obtain es where es: "log_of u = log_of ?p @ es" "map body es = ?bs"
      "\<forall>e \<in> set es. is_verdict (body e) \<and> about_task (ids e) = Some ?i"
      "cost_records (tables_of u) = cost_records (tables_of ?p)"
      using recorded_verdicts [OF unready_caught_up u(2) bs] .
    have "length es = 2" using arg_cong [OF es(2), of length] by simp
    then have "length (log_of u) = 3" using es(1) log(1) by simp
    moreover have "new_project (log_of u) = None" using es(1,3) verdicts_skipped(5) log(3) by simp
    ultimately obtain second q where "governor_moves_with sample_world sample_team ?i Escalated no_ask u = (Inr second, q)"
      using moves [of Escalated u] caught_up_current [OF u(2)] big [of 3] es(4) log(2) u(1)
        verdicts_keep(1) [OF unready_caught_up u(2) bs u(1)] by auto
    then show ?thesis
      using first RefusedFor by (auto simp: judge_contract_def governor_moves_def bare_row_def door_then_def)
  qed
qed

lemma unready_judged:
  assumes "judge_contract sample_world sample_team bare_row unready_project = (Inr report, q)"
  shows "report = Acted ''CTV-7'' ''judged its contract, which is not ready''"
proof -
  let ?p = unready_project and ?i = "''CTV-7''"
  have task: "b_task bare_row = ?i" by (simp add: bare_row_def)
  from judge_contract_runs [OF unready_caught_up unready_standing _ task assms] obtain x where
    x: "context_at sample_world ?p (clock_at sample_world (ticks ?p)) (governor_request ?i Ready) no_ask sample_team = Inr x"
    and report: "report = Acted ?i (judged_words
        (evaluate_readiness (engine sample_world) (ctx_contract x) (ctx_readiness x) = Inr ())
        (gives_up sample_world sample_team ?p ?i x))" by auto
  obtain own where own: "ctx_contract x = as_on_the_board own ((sample_task Refining)\<lparr>intent := []\<rparr>)"
    using context_reads(1) [OF x] unready_read by auto
  then have "is_blank (intent (ctx_contract x))" by (simp add: as_on_the_board_def is_blank_iff)
  then have unready: "evaluate_readiness (engine sample_world) (ctx_contract x) (ctx_readiness x) \<noteq> Inr ()"
    using ready_checkD(1) ready_checks_None(1) by blast
  have h: "history_of (log_of ?p) ?i = log_of ?p" "log_of ?p = [sample_event 1 (TaskCreated (summary_at Refining) False None None)]"
    by (simp_all add: history_of_def unready_project_def project_at_def sample_event_def)
  have zero: "attempts_failed (log_of ?p) = 0" "extra_tries (log_of ?p) = 0" "design_returns (log_of ?p) = 0"
    by (simp_all add: h(2) attempts_failed_def failed_readiness_def sample_event_def extra_tries_def design_returns_def u32_of_def)
  have "contract_budget (ctx_contract x) = \<lparr>max_cost_usd = Finite 2, max_sessions = 4, max_iterations_field = 3\<rparr>"
    by (simp add: own as_on_the_board_def sample_task_def sample_contract_def)
  then have "iteration_limit x = 3" "design_plan_returns x = 0"
    using context_parts(5,6) [OF x] zero(2,3) h(1)
    by (simp_all add: iteration_limit_def max_iterations_def u32_saturating_def saturating_add_def)
  moreover have "\<not> task_is_spent sample_world ?p ?i"
  proof -
    have "cost_records (tables_of ?p) = []" by (simp add: unready_project_def project_at_def empty_tables_def)
    then have "spent_by_task f (tables_of ?p) ?i = Inr None" for f
      by (simp add: spent_by_task_def costs_by_task_def each_once_def)
    moreover have "0 < unat (saturating_add (saturating_add (u32_saturating (4 :: 64 word)) m) n)" for m n
      by (simp add: unat_saturating_add unat_u32_saturating min_def)
    ultimately show ?thesis
      by (simp add: task_is_spent_def unready_read task_budget_of_def Let_def case_prod_beta sample_task_def
          sample_contract_def and_then_def sample_world_def saturating_sub_def not_le)
  qed
  moreover have "readiness_attempts sample_team = 3"
    by (simp add: readiness_attempts_def sample_team_def sample_policy_def READINESS_ATTEMPT_LIMIT_def)
  ultimately have "\<not> gives_up sample_world sample_team ?p ?i x"
    using zero(1) h(1) by (simp add: gives_up_def)
  then show ?thesis using report unready by (simp add: judged_words_def)
qed

theorem judgement_is_exact_witness:
  "\<exists>report q. judge_contract sample_world sample_team bare_row unready_project = (Inr report, q)
    \<and> map_option stands (standing_at (tables_of q) ''CTV-7'') = Some Refining"
proof -
  have task: "b_task bare_row = ''CTV-7''" by (simp add: bare_row_def)
  obtain report q where run: "judge_contract sample_world sample_team bare_row unready_project = (Inr report, q)"
    using unready_runs by blast
  from judgement_is_exact [OF unready_caught_up unready_standing _ task run] unready_judged [OF run]
  have "map_option stands (standing_at (tables_of q) ''CTV-7'') = Some Refining"
    by (auto simp: judged_words_def split: if_splits)
  then show ?thesis using run by blast
qed

theorem judged_task_is_never_called_spent_witness:
  "\<exists>q u a v. judge_contract sample_world sample_team bare_row unready_project
      = (Inr (Acted ''CTV-7'' ''judged its contract, which is not ready''), q)
    \<and> escalate_if_spent sample_world (\<lambda>_. ''2.00'') sample_team bare_row u = (a, v)
    \<and> last_seq (log_of u) = last_seq (log_of q) + 1 \<and> log_of v = log_of u"
proof -
  have task: "b_task bare_row = ''CTV-7''" "b_status bare_row = Refining" by (simp_all add: bare_row_def)
  obtain report q where run: "judge_contract sample_world sample_team bare_row unready_project = (Inr report, q)"
    using unready_runs by blast
  note run = run [unfolded unready_judged [OF run]]
  let ?spent = "(sample_event (last_seq (log_of q) + 1) (CostRecorded Refine (Finite 9)))"
  let ?u = "q\<lparr>log_of := log_of q @ [?spent]\<rparr>"
  obtain a v where spent: "escalate_if_spent sample_world (\<lambda>_. ''2.00'') sample_team bare_row ?u = (a, v)" by fastforce
  have "log_of v = log_of ?u \<and> (\<forall>report. a \<noteq> Inr (Some report))"
    by (rule judged_task_is_never_called_spent [OF unready_caught_up unready_standing _ task(1) run _ _ task spent,
        of "[?spent]"])
      (simp_all add: is_move_into_def sample_event_def)
  moreover have "last_seq (log_of ?u) = last_seq (log_of q) + 1" by (simp add: last_seq_def sample_event_def)
  ultimately show ?thesis using run spent by blast
qed

end
