(* ===== verification/Resuming.thy ===== *)
theory Resuming
  imports Governor_Answers Assigning
begin

text \<open>
  The hand-over of a task whose wait cleared (crates/runtime/src/orchestrator/rules.rs,
  \<open>resume_elsewhere\<close>): a task its agent holds past its limit goes to a free peer, and nothing else
  changes hands.
\<close>

section \<open>Nothing recorded yet\<close>

definition quiet_since :: "project \<Rightarrow> project \<Rightarrow> bool" where
  "quiet_since p q \<longleftrightarrow> log_of q = log_of p \<and> files_of q = files_of p \<and> current q"

lemma quiet_since_trans: "quiet_since p q \<Longrightarrow> quiet_since q r \<Longrightarrow> quiet_since p r"
  by (simp add: quiet_since_def)

lemma not_reassigned_quiet:
  assumes "current p" and "reassign w i to t p = (Inr (NotReassigned ns), q)"
  shows "quiet_since p q"
  using assms by (cases rule: reassign_cases) (auto simp: quiet_since_def recorded_def)

text \<open>The loop over candidates: each before the one that takes the task was refused.\<close>

lemma first_hand_over_cases:
  assumes "current p" and "first_hand_over w t r from_whom candidates p = (Inr answered, q)"
  shows "(answered = None \<and> quiet_since p q)
    \<or> (\<exists>a \<in> set candidates. \<exists>u e. quiet_since p u \<and> reassign w (b_task r) (agent_id a) t u = (Inr (Reassigned e), q)
        \<and> answered = Some (Acted (b_task r)
            (''handed it to '' @ agent_id a @ '': '' @ agent_id from_whom @ '' has no room'')))"
  using assms
proof (induction candidates arbitrary: p)
  case Nil
  then show ?case by (auto simp: quiet_since_def)
next
  case (Cons a others)
  obtain outcome u where outcome: "reassign w (b_task r) (agent_id a) t p = (Inr outcome, u)"
    "(case outcome of
         Reassigned _ \<Rightarrow> answer (Some (Acted (b_task r)
           (''handed it to '' @ agent_id a @ '': '' @ agent_id from_whom @ '' has no room'')))
       | NotReassigned _ \<Rightarrow> first_hand_over w t r from_whom others) u = (Inr answered, q)"
    using Cons.prems(2) unfolding first_hand_over.simps door_then_Inr by blast
  show ?case
  proof (cases outcome)
    case (Reassigned e)
    moreover have "quiet_since p p" using Cons.prems(1) by (simp add: quiet_since_def)
    ultimately show ?thesis using outcome by auto
  next
    case (NotReassigned ns)
    then have quiet: "quiet_since p u" using not_reassigned_quiet [OF Cons.prems(1)] outcome(1) by simp
    then have "current u" by (simp add: quiet_since_def)
    from Cons.IH [OF this] outcome(2) NotReassigned show ?thesis
      using quiet_since_trans [OF quiet] by auto
  qed
qed

definition peers_with_room :: "team \<Rightarrow> board_row list \<Rightarrow> board_row \<Rightarrow> task_contract \<Rightarrow> agent list" where
  "peers_with_room t b r c =
     filter (\<lambda>a. agent_role a = assignee_role c \<and> Some (agent_id a) \<noteq> b_assignee r \<and> has_room t b a (b_parent r))
       (active_members t)"

lemma active_named_id: "active_named t who = Some a \<Longrightarrow> who = Some (agent_id a)"
  by (auto simp: active_named_def dest: find_Some_in split: option.splits)

lemma resume_one_cases:
  assumes "current p" and run: "resume_one w t b r p = (Inr answered, q)"
  shows "(answered = None \<and> quiet_since p q)
    \<or> (answered \<noteq> None \<and> (\<exists>c. read_contract (files_of p) (b_task r) = Inr c \<and> lane c = None
        \<and> (\<exists>a \<in> set (peers_with_room t b r c). \<exists>u e. quiet_since p u
            \<and> reassign w (b_task r) (agent_id a) t u = (Inr (Reassigned e), q))))"
proof (cases "active_named t (b_assignee r)")
  case None
  then show ?thesis using assms by (auto simp: resume_one_def quiet_since_def)
next
  case (Some from_whom)
  obtain c where c: "read_contract (files_of p) (b_task r) = Inr c"
    using run Some by (cases "read_contract (files_of p) (b_task r)") (simp_all add: resume_one_def door_then_reading)
  show ?thesis
  proof (cases "lane c = None")
    case True
    have "filter (\<lambda>a. agent_role a = assignee_role c \<and> agent_id a \<noteq> agent_id from_whom
        \<and> has_room t b a (b_parent r)) (active_members t) = peers_with_room t b r c"
      using active_named_id [OF Some] by (simp add: peers_with_room_def)
    then have "first_hand_over w t r from_whom (peers_with_room t b r c) p = (Inr answered, q)"
      using run Some c True by (simp add: resume_one_def door_then_reading)
    from first_hand_over_cases [OF assms(1) this] show ?thesis using c True by (elim disjE) blast+
  next
    case False
    then show ?thesis using run Some c assms(1) by (auto simp: resume_one_def door_then_reading quiet_since_def)
  qed
qed

lemma first_report_Some:
  assumes "first_report f xs p = (Inr (Some report), q)" and "quiet_since p0 p"
    and "\<And>x u v. x \<in> set xs \<Longrightarrow> quiet_since p0 u \<Longrightarrow> f x u = (Inr None, v) \<Longrightarrow> quiet_since u v"
  shows "\<exists>x \<in> set xs. \<exists>u. quiet_since p0 u \<and> f x u = (Inr (Some report), q)"
  using assms
proof (induction xs arbitrary: p)
  case (Cons x xs)
  obtain a u where a: "f x p = (Inr a, u)"
    "(case a of Some _ \<Rightarrow> answer a | None \<Rightarrow> first_report f xs) u = (Inr (Some report), q)"
    using Cons.prems(1) unfolding first_report.simps door_then_Inr by blast
  show ?case
  proof (cases a)
    case None
    then have "quiet_since p u" using Cons.prems(3) [OF list.set_intros(1) Cons.prems(2)] a(1) by simp
    then have "quiet_since p0 u" using Cons.prems(2) quiet_since_trans by blast
    moreover have "first_report f xs u = (Inr (Some report), q)" using a(2) None by simp
    ultimately have "\<exists>x \<in> set xs. \<exists>u. quiet_since p0 u \<and> f x u = (Inr (Some report), q)"
      using Cons.prems(3) by (intro Cons.IH) auto
    then show ?thesis by simp
  next
    case (Some other)
    then show ?thesis using a Cons.prems(2) by auto
  qed
qed simp

section \<open>A free peer\<close>

text \<open>
  C18: A task handed over because its wait cleared was past its agent's limit, in no lane and with no
  session running; it goes to an active agent of the contract's role with room for it, who did not hold
  it and reviews it only where the role may review its own work. Its holder is all that changes, and
  nobody else's task changes at all.
\<close>

theorem resumed_task_goes_to_a_free_peer:
  assumes p: "current p" "board_of w p = Inr b"
    and run: "resume_elsewhere w sc busy workable t b p = (Inr (Some report), q)"
  shows "\<exists>r \<in> set b. \<exists>c. \<exists>a \<in> set (active_members t).
    b_task r \<notin> set workable \<and> b_status r \<in> {Assigned, InProgress} \<and> \<not> busy (b_task r)
    \<and> read_contract (files_of p) (b_task r) = Inr c \<and> lane c = None
    \<and> agent_role a = assignee_role c \<and> Some (agent_id a) \<noteq> b_assignee r \<and> has_room t b a (b_parent r)
    \<and> (map_option trim (b_reviewer r) = Some (trim (agent_id a)) \<longrightarrow> may_review_itself c)
    \<and> standing_in (log_of q)
        = (standing_in (log_of p))(b_task r \<mapsto> (row_standing r)\<lparr>holder := Some (agent_id a)\<rparr>)"
proof -
  let ?rows = "filter (is_in_scope sc busy)
         (filter (\<lambda>r. b_status r \<in> {Assigned, InProgress} \<and> row_counts_towards_wip r
                    \<and> b_kind r \<noteq> Epic \<and> b_task r \<notin> set workable) b)"
  have here: "quiet_since p p" using p(1) by (simp add: quiet_since_def)
  have "\<exists>r \<in> set ?rows. \<exists>u. quiet_since p u \<and> resume_one w t b r u = (Inr (Some report), q)"
  proof (rule first_report_Some [OF run [unfolded resume_elsewhere_def] here])
    fix r u v assume "quiet_since p u" "resume_one w t b r u = (Inr None, v)"
    then show "quiet_since u v" using resume_one_cases [of u w t b r None v] by (auto simp: quiet_since_def)
  qed
  then obtain r u where r: "r \<in> set ?rows" and u: "quiet_since p u" and one: "resume_one w t b r u = (Inr (Some report), q)"
    by blast
  have "current u" using u by (simp add: quiet_since_def)
  from resume_one_cases [OF this one] obtain c a v e where
    c: "read_contract (files_of p) (b_task r) = Inr c" "lane c = None"
    and a: "a \<in> set (peers_with_room t b r c)"
    and v: "quiet_since p v" and handed: "reassign w (b_task r) (agent_id a) t v = (Inr (Reassigned e), q)"
    using u quiet_since_trans by (auto simp: quiet_since_def)
  have v_current: "current v" and same: "log_of v = log_of p" "files_of v = files_of p"
    using v by (simp_all add: quiet_since_def)
  have standing: "standing_in (log_of p) (b_task r) = Some (row_standing r)"
    using board_row_standing [OF p] r by simp
  from v_current handed show ?thesis
  proof (cases rule: reassign_cases)
    case (handed c' e' b' own)
    have own: "row_standing own = row_standing r"
      using known_row_standing [OF v_current handed(2,3)] standing same(1) by simp
    have "c' = c" using handed(1) c(1) same(2) by simp
    then have "map_option trim (b_reviewer r) = Some (trim (agent_id a)) \<longrightarrow> may_review_itself c"
      using check_reassignment_lets [OF handed(4)] own by (auto simp: row_standing_def)
    moreover have "standing_in (log_of q)
        = (standing_in (log_of p))(b_task r \<mapsto> (row_standing r)\<lparr>holder := Some (agent_id a)\<rparr>)"
      using standing_grows [OF handed(5)] standing same(1) by (auto simp: fun_eq_iff)
    ultimately show ?thesis
      using r c a by (auto simp: peers_with_room_def is_in_scope_def)
  qed simp_all
qed

lemma pair_board:
  "board_of sample_world pair_project =
     Inr [(held_row ''CTV-7'' 2)\<lparr>b_status := Assigned, b_title := ''Fix the parser'', b_triaged := False, b_reviewer := None\<rparr>,
          (held_row ''CTV-8'' 4)\<lparr>b_status := Assigned, b_title := ''Fix the parser'', b_triaged := False, b_reviewer := None\<rparr>]"
  by (simp add: board_of_def board_def stored_def map_err_def pair_project_def projection_of_row_def
        u32_try_def new_row_def sample_summary_def summary_at_def pair_row_def held_row_def cost_on_def
        empty_tables_def sample_world_def by_number_def number_in_def waits_def
        is_digit_ascii_def code_point_def)

theorem resumed_task_goes_to_a_free_peer_witness:
  "\<exists>b report q. board_of sample_world pair_project = Inr b
    \<and> resume_elsewhere sample_world \<lparr>scope_task = None, scope_rules = AllRules\<rparr> (\<lambda>_. False)
        (within_limit staffed_team b) staffed_team b pair_project = (Inr (Some report), q)
    \<and> map_option holder (standing_in (log_of q) ''CTV-8'') = Some (Some ''agent-5'')"
proof -
  let ?own = "(held_row ''CTV-8'' 4)\<lparr>b_status := Assigned, b_title := ''Fix the parser'', b_triaged := False, b_reviewer := None\<rparr>"
  let ?other = "(held_row ''CTV-7'' 2)\<lparr>b_status := Assigned, b_title := ''Fix the parser'', b_triaged := False, b_reviewer := None\<rparr>"
  let ?b = "[?other, ?own]" and ?sc = "\<lparr>scope_task = None, scope_rules = AllRules\<rparr>" and ?idle = "\<lambda>_. False"
  let ?a = "sample_agent ''agent-5'' SoftwareDeveloper Active"
  obtain e q where handed: "reassign sample_world ''CTV-8'' ''agent-5'' staffed_team pair_project = (Inr (Reassigned e), q)"
    using pair_reassigned by blast
  have limited: "within_limit staffed_team ?b = [''CTV-7'']"
    by (simp add: within_limit_def ungoverned_def held_in_order_def held_by_def rank_of_def limit_of_def
          held_row_def staffed_team_def sample_agent_def active_members_def sample_team_def sample_policy_def
          row_counts_towards_wip_def counted_status_def)
  have held: "read_contract (files_of pair_project) ''CTV-8'' = Inr ((sample_task Assigned)\<lparr>task_id := ''CTV-8''\<rparr>)"
    by (simp add: read_contract_def pair_project_def)
  have from_whom: "active_named staffed_team (Some ''agent-1'') = Some (sample_agent ''agent-1'' SoftwareDeveloper Active)"
    by (simp add: active_named_def staffed_team_def active_members_def sample_agent_def)
  have peers: "filter (\<lambda>a. agent_role a = SoftwareDeveloper \<and> agent_id a \<noteq> ''agent-1'' \<and> has_room staffed_team ?b a None)
      (active_members staffed_team) = [?a]"
    by (simp add: staffed_team_def active_members_def sample_agent_def has_room_def open_tasks_def held_row_def
        u32_of_def sample_team_def sample_policy_def)
  let ?c = "(sample_task Assigned)\<lparr>task_id := ''CTV-8''\<rparr>" and ?holder = "sample_agent ''agent-1'' SoftwareDeveloper Active"
  have own: "b_task ?own = ''CTV-8''" "b_assignee ?own = Some ''agent-1''" "b_parent ?own = None"
    and c: "assignee_role ?c = SoftwareDeveloper" "lane ?c = None"
    and ids: "agent_id ?holder = ''agent-1''" "agent_id ?a = ''agent-5''"
    by (simp_all add: held_row_def sample_task_def sample_contract_def sample_agent_def)
  have "first_hand_over sample_world staffed_team ?own ?holder [?a] pair_project
      = (Inr (Some (Acted ''CTV-8'' ''handed it to agent-5: agent-1 has no room'')), q)"
    using handed unfolding first_hand_over.simps own(1) ids by (simp add: door_then_def)
  then have one: "resume_one sample_world staffed_team ?b ?own pair_project
      = (Inr (Some (Acted ''CTV-8'' ''handed it to agent-5: agent-1 has no room'')), q)"
    using peers unfolding resume_one_def own from_whom option.case door_then_reading held sum.case c ids
    by (simp only: not_True_eq_False if_False simp_thms)
  have "filter (is_in_scope ?sc ?idle) (filter (\<lambda>r. b_status r \<in> {Assigned, InProgress} \<and> row_counts_towards_wip r
                    \<and> b_kind r \<noteq> Epic \<and> b_task r \<notin> set (within_limit staffed_team ?b)) ?b) = [?own]"
    unfolding limited by (simp add: held_row_def row_counts_towards_wip_def counted_status_def is_in_scope_def)
  then have run: "resume_elsewhere sample_world ?sc ?idle (within_limit staffed_team ?b) staffed_team ?b pair_project
      = (Inr (Some (Acted ''CTV-8'' ''handed it to agent-5: agent-1 has no room'')), q)"
    using one unfolding resume_elsewhere_def by (simp only: first_report.simps) (simp add: door_then_def)
  from resumed_task_goes_to_a_free_peer [OF pair_current pair_board run] limited held
  have "map_option holder (standing_in (log_of q) ''CTV-8'') = Some (Some ''agent-5'')"
    by (auto simp: held_row_def staffed_team_def active_members_def sample_agent_def sample_task_def sample_contract_def
        has_room_def open_tasks_def u32_of_def sample_team_def sample_policy_def)
  then show ?thesis using pair_board run by blast
qed

end
