(* ===== verification/Owner_Choices.thy ===== *)
theory Owner_Choices
  imports Autopilot_Choices Deciding
begin

text \<open>
  What the owner may do about a task that waits (crates/runtime/src/choices.rs): the choices of an
  escalation with the words on them, and the command line that makes each. Beside it stands what the
  team is offered under autopilot for the same wait. The dollars of a label are written by the parameter
  \<open>usd\<close>.
\<close>

section \<open>The offer\<close>

record offer =
  offer_task :: string
  offer_reason :: string
  offer_before :: "task_status option"
  offer_who :: string
  offer_manager :: string
  offer_sessions :: u64
  offer_usd :: f64
  offer_blocked_from :: "task_status option"

datatype choice_action =
    Resolve task_status "nat option" bool \<comment> \<open>where to, more tries, more room\<close>
  | Integrate
  | OpenPage string

record owner_choice =
  choice_label :: string
  choice_next :: string
  suggested :: bool
  choice_action :: choice_action

fun status_in_words :: "task_status \<Rightarrow> string" where
  "status_in_words Draft = ''Planning''"
| "status_in_words Refining = ''Planning''"
| "status_in_words Ready = ''To do''"
| "status_in_words Assigned = ''To do''"
| "status_in_words InProgress = ''In progress''"
| "status_in_words Rejected = ''Being reworked''"
| "status_in_words Verifying = ''Review''"
| "status_in_words Accepted = ''Done''"
| "status_in_words Cancelled = ''Cancelled''"
| "status_in_words Blocked = ''Stuck''"
| "status_in_words Escalated = ''Needs your help''"

definition an_owner_choice :: "string \<Rightarrow> string \<Rightarrow> choice_action \<Rightarrow> owner_choice" where
  "an_owner_choice label next does =
     \<lparr>choice_label = label, choice_next = next, suggested = False, choice_action = does\<rparr>"

definition cancel_choice :: "offer \<Rightarrow> owner_choice" where
  "cancel_choice x = an_owner_choice ''Cancel the task''
     (offer_task x @ '' stops for good. Its branch is kept, and nothing is merged.'')
     (Resolve Cancelled None False)"

definition rewrite_words :: "offer \<Rightarrow> string" where
  "rewrite_words x = offer_manager x @ '' rewrites the plan of '' @ offer_task x
     @ ''; it is assigned again once it is ready.''"

definition change_choice :: "offer \<Rightarrow> owner_choice" where
  "change_choice x = an_owner_choice ''Change the plan'' (rewrite_words x) (Resolve Refining None False)"

definition carry_on_choice :: "offer \<Rightarrow> string \<Rightarrow> owner_choice option" where
  "carry_on_choice x later =
     (case offer_before x of
        None \<Rightarrow> None
      | Some before \<Rightarrow>
          if before \<in> {Refining, Escalated} then None
          else Some (an_owner_choice ''Carry on''
            (offer_task x @ '' goes back to '' @ map to_lower_ascii (status_in_words before) @ '' and ''
              @ offer_who x @ '' '' @ later @ ''.'')
            (Resolve before None False)))"

definition answer_a_block :: "offer \<Rightarrow> owner_choice list" where
  "answer_a_block x =
     (let back = return_from_block (offer_blocked_from x) in
      [an_owner_choice ''Answer and carry on''
         (offer_who x @ '' reads your answer and carries on with '' @ offer_task x @ ''.'')
         (Resolve back None False)]
      @ (if back \<noteq> Refining
         then [an_owner_choice (''Ask '' @ offer_manager x @ '' to change the plan'') (rewrite_words x)
                 (Resolve Refining None False)] else [])
      @ [cancel_choice x])"

definition more_room :: "(f64 \<Rightarrow> string) \<Rightarrow> offer \<Rightarrow> owner_choice list" where
  "more_room usd x =
     (case offer_before x of
        None \<Rightarrow> []
      | Some before \<Rightarrow>
          [an_owner_choice ''Give it more room''
             (offer_who x @ '' carries on with '' @ offer_task x @ '', with up to ''
               @ decimal (unat (offer_sessions x)) @ '' more sessions and $'' @ usd (offer_usd x)
               @ '' more to spend.'')
             (Resolve before None True)])
     @ [cancel_choice x]"

definition fix_the_preview :: "offer \<Rightarrow> owner_choice list" where
  "fix_the_preview x =
     [an_owner_choice ''Fix how your app opens''
        (''You tell Catervas in Settings how to start your app; then come back to '' @ offer_task x
          @ '' and choose Carry on.'')
        (OpenPage ''/settings/your-app'')]
     @ (case carry_on_choice x ''opens your app again'' of None \<Rightarrow> [] | Some c \<Rightarrow> [c])
     @ [cancel_choice x]"

definition choices_of_reason :: "(f64 \<Rightarrow> string) \<Rightarrow> offer \<Rightarrow> owner_choice list" where
  "choices_of_reason usd x =
     (let i = offer_task x; who = offer_who x; pm = offer_manager x; reason = offer_reason x in
      if reason = ''iterations'' then
        [an_owner_choice ''Give 2 more tries'' (who @ '' picks up '' @ i @ '' again with 2 more tries.'')
           (Resolve InProgress (Some 2) False),
         an_owner_choice (''Ask '' @ pm @ '' to change the plan'') (rewrite_words x) (Resolve Refining None False),
         cancel_choice x]
      else if reason \<in> {''budget'', ''sessions''} then more_room usd x
      else if reason \<in> {''blocker_age'', BLOCKED} then answer_a_block x
      else if reason \<in> {''permission'', ''explicit_request''} then
        (case carry_on_choice x ''is told what you wrote'' of None \<Rightarrow> [] | Some c \<Rightarrow> [c])
        @ [change_choice x, cancel_choice x]
      else if reason = ''readiness_failures'' then
        [an_owner_choice (''Ask '' @ pm @ '' to try the plan again'')
           (pm @ '' writes the plan of '' @ i @ '' again with your note.'') (Resolve Refining None False),
         cancel_choice x]
      else if reason \<in> {''approval'', ''risk_gate''} then
        [an_owner_choice ''Review the plan''
           (''You read the plan of '' @ i @ '' and approve it or send it back.'')
           (OpenPage (''/tasks/'' @ i @ ''/plan'')),
         cancel_choice x]
      else if reason = ''integration'' then
        [an_owner_choice ''Open the pull request again''
           (''Catervas pushes the branch of '' @ i @ '' and opens its pull request again, for you to merge.'')
           Integrate]
      else if reason = ''preview'' then fix_the_preview x
      else [change_choice x, cancel_choice x])"

definition escalation_choices :: "(f64 \<Rightarrow> string) \<Rightarrow> offer \<Rightarrow> owner_choice list" where
  "escalation_choices usd x =
     (case choices_of_reason usd x of [] \<Rightarrow> [] | c # cs \<Rightarrow> c\<lparr>suggested := True\<rparr> # cs)"

section \<open>What the offer says\<close>

definition resolves :: "owner_choice \<Rightarrow> (task_status \<times> nat option \<times> bool) option" where
  "resolves c = (case choice_action c of Resolve s n room \<Rightarrow> Some (s, n, room) | _ \<Rightarrow> None)"

definition moves_to :: "decide_move option \<Rightarrow> (task_status \<times> nat option \<times> bool) option" where
  "moves_to m = (case m of Some (MoveTo s n room) \<Rightarrow> Some (s, n, room) | _ \<Rightarrow> None)"

lemma resolves_choice [simp]:
  "resolves (an_owner_choice l t (Resolve s n room)) = Some (s, n, room)"
  "resolves (an_owner_choice l t Integrate) = None"
  "resolves (an_owner_choice l t (OpenPage path)) = None"
  "resolves (c\<lparr>suggested := True\<rparr>) = resolves c"
  by (simp_all add: resolves_def an_owner_choice_def)

lemma moves_to_simps [simp]:
  "moves_to None = None" "moves_to (Some (MoveTo s n room)) = Some (s, n, room)"
  "moves_to (Some ReopenMove) = None" "moves_to (Some RetryFolderChangeMove) = None"
  "moves_to (Some ApprovePlanMove) = None" "moves_to (Some AcceptResultMove) = None"
  "moves_to (Some FlagMove) = None"
  by (simp_all add: moves_to_def)

lemma resolves_suggested [simp]:
  "List.map_filter resolves (escalation_choices usd x) = List.map_filter resolves (choices_of_reason usd x)"
  by (simp add: escalation_choices_def map_filter_simps split: list.split)

lemma choices_of_reason_not_empty: "choices_of_reason usd x \<noteq> []"
  by (simp add: choices_of_reason_def Let_def more_room_def answer_a_block_def fix_the_preview_def)

lemma wait_kinds:
  "wait_kind_of ''iterations'' = OutOfTries"
  "wait_kind_of ''budget'' = OutOfRoom"
  "wait_kind_of ''sessions'' = OutOfRoom"
  "wait_kind_of ''blocker_age'' = BlockWait"
  "wait_kind_of ''blocked'' = BlockWait"
  "wait_kind_of ''readiness_failures'' = NotReadyWait"
  "wait_kind_of ''integration'' = IntegrationWait"
  "wait_kind_of ''approval'' = ApprovalWait"
  "wait_kind_of ''risk_gate'' = ApprovalWait"
  "wait_kind_of ''acceptance'' = AcceptanceWait"
  "wait_kind_of ''permission'' = PermissionWait"
  "wait_kind_of ''explicit_request'' = PermissionWait"
  "wait_kind_of ''preview'' = PreviewWait"
  "wait_kind_of ''folder_change'' = FolderChangeWait"
  by (simp_all add: wait_kind_of_def)

lemma other_waits:
  assumes "r \<notin> {''iterations'', ''budget'', ''sessions'', ''blocker_age'', ''blocked'', ''readiness_failures'', ''integration'', ''approval'', ''risk_gate'', ''acceptance'', ''permission'', ''explicit_request'', ''preview'', ''folder_change''}"
  shows "wait_kind_of r = OtherWait"
    and "offer_reason x = r \<Longrightarrow> choices_of_reason usd x = [change_choice x, cancel_choice x]"
  using assms by (simp_all add: wait_kind_of_def choices_of_reason_def BLOCKED_def)

text \<open>
  C21: The owner and the team are offered the same ways out. For every reason a task waits for, an
  approval, an acceptance and a folder change apart, and while the team has grants left, the moves that
  the owner's choices make are, in the same order, the moves that the team may make under autopilot: to the
  same status, with the same tries and the same room.
\<close>

theorem team_is_offered_what_the_owner_is:
  assumes "wait_kind_of (offer_reason x) \<notin> {ApprovalWait, AcceptanceWait, FolderChangeWait}"
    and "spent_grants spent < TEAM_GRANTS_PER_TASK"
  shows "List.map_filter resolves (escalation_choices usd x) =
      List.map_filter (\<lambda>c. moves_to (move_of c (offer_before x) (offer_blocked_from x)))
        (choices_for (offer_reason x) (offer_before x) (offer_blocked_from x) spent)"
proof -
  let ?r = "offer_reason x"
  note defs = choices_of_reason_def choices_for_def wait_kinds Let_def BLOCKED_def more_room_def
    answer_a_block_def fix_the_preview_def cancel_choice_def change_choice_def carry_on_choice_def
    may_carry_on_def map_filter_simps not_le
  consider (w0) "?r = ''budget''"
    | (w1) "?r = ''sessions''"
    | (w2) "?r = ''blocker_age''"
    | (w3) "?r = ''blocked''"
    | (w4) "?r = ''permission''"
    | (w5) "?r = ''explicit_request''"
    | (w6) "?r = ''iterations''"
    | (w7) "?r = ''readiness_failures''"
    | (w8) "?r = ''integration''"
    | (w9) "?r = ''preview''"
    | (excluded) "?r \<in> {''approval'', ''risk_gate'', ''acceptance'', ''folder_change''}"
    | (other) "?r \<notin> {''iterations'', ''budget'', ''sessions'', ''blocker_age'', ''blocked'', ''readiness_failures'', ''integration'', ''approval'', ''risk_gate'', ''acceptance'', ''permission'', ''explicit_request'', ''preview'', ''folder_change''}"
    by fast
  then have "List.map_filter resolves (choices_of_reason usd x) =
      List.map_filter (\<lambda>c. moves_to (move_of c (offer_before x) (offer_blocked_from x)))
        (choices_for ?r (offer_before x) (offer_blocked_from x) spent)"
  proof cases
    case excluded
    then show ?thesis using assms(1) by (auto simp: wait_kinds)
  next
    case other
    then show ?thesis using assms
      by (simp add: other_waits choices_for_def cancel_choice_def change_choice_def map_filter_simps)
  qed (use assms in \<open>simp add: defs split: option.split\<close>)+
  then show ?thesis by simp
qed

lemma team_is_offered_what_the_owner_is_witness:
  "let x = \<lparr>offer_task = ''01ABC'', offer_reason = ''iterations'', offer_before = Some Rejected,
        offer_who = ''Ada'', offer_manager = ''Pia'', offer_sessions = 6, offer_usd = Finite 3,
        offer_blocked_from = None\<rparr> in
   List.map_filter resolves (escalation_choices (\<lambda>_. ''3.00'') x) =
      List.map_filter (\<lambda>c. moves_to (move_of c (offer_before x) (offer_blocked_from x)))
        (choices_for (offer_reason x) (offer_before x) (offer_blocked_from x)
          \<lparr>spent_grants = 0, spent_reopens = 0\<rparr>)
   \<and> List.map_filter resolves (escalation_choices (\<lambda>_. ''3.00'') x) =
       [(InProgress, Some 2, False), (Refining, None, False), (Cancelled, None, False)]"
  unfolding Let_def
  by (rule conjI, rule team_is_offered_what_the_owner_is)
    (simp_all add: wait_kinds TEAM_GRANTS_PER_TASK_def choices_of_reason_def cancel_choice_def map_filter_simps)

end
