(* ===== verification/Spec2Isabelle.thy ===== *)
theory Spec2Isabelle
  imports Transition Permissions Commands Assigning Attached Branches Call_Rates Lone_Agent Judging Resuming Owner_Choices
begin

text \<open>
  Catervas runs a team of AI agents on a repository. This development models the part of it that
  decides: the governor (crates/core/src/governor), which judges a move, a contract write, a tool call
  and a command, and the door (crates/runtime/src/transitions.rs), which gathers what the governor is
  asked, asks it, and records the answer in the event log, the board and the contract files.

  How the parts interact. A request to move a task reaches \<open>Door.request\<close>. \<open>Context\<close> gathers the
  governor's question from the log (\<open>Events\<close>), the board derived from it (\<open>Projections\<close>, \<open>Board\<close>,
  \<open>Cost\<close>), the contract files and the team (\<open>Team\<close>, \<open>Roster\<close>). \<open>Transition.evaluate_transition\<close>
  looks the move up in \<open>Transition_Table\<close> and opens its gate: \<open>Readiness\<close>, \<open>Done\<close>, \<open>Gates\<close>,
  \<open>Escalation\<close>. The answer is appended as events, the projections apply them, and the contract file
  is written. \<open>Permissions\<close> and \<open>Commands\<close> judge what a session does between two moves.

  Foundations.
  \<open>Prelude\<close>: results, text, saturating integers, 64-bit floats, the shared lemmas and collections.
  \<open>Texts\<close>: core/src/text.rs. \<open>Numbers\<close>: numbers as text and back, and the loop that counts a name up
  until nothing holds it, with the contract \<open>numbered_names\<close> of such names. \<open>Slugs\<close>: the two slugs.
  \<open>Samples\<close>: the concrete inputs of witnesses.

  The governor.
  \<open>Task_Status\<close>, \<open>Transition_Table\<close>: task\_status.rs and transition\_table.rs, the statuses and the rows.
  \<open>Contract\<close>: contract.rs. \<open>Checklist\<close>: the contract shared by the two definitions, a locale whose
  interpretations are \<open>Readiness\<close> (readiness.rs, thirty checks) and \<open>Done\<close> (done.rs, ten checks).
  \<open>Gates\<close>: gates.rs, the predicates and who may write what in a contract. \<open>Escalation\<close>, \<open>Budgets\<close>:
  escalation.rs and budget.rs. \<open>Transition\<close>: transition.rs, the one question before a move.
  \<open>Paths\<close>: paths.rs; its locale \<open>path_guard\<close> is met by the allowed and by the protected paths.
  \<open>Permissions\<close>, \<open>Commands\<close>: permissions.rs, a tool call, a connector call and a command.
  \<open>Folders\<close>, \<open>Attached\<close>: folders.rs. \<open>Team\<close>, \<open>Roster\<close>, \<open>Connectors\<close>: team.rs and team\_rules.rs.
  \<open>Branches\<close>: branch.rs, store/src/branches.rs and the numbers of new tasks.

  The door.
  \<open>Events\<close>: the log (protocol/src/event.rs, store/src/event\_log.rs) and what is read from a history.
  \<open>Projections\<close>: store/src/projections.rs, the tables as lists of rows. \<open>Cost\<close>: runtime/src/cost.rs.
  \<open>Board\<close>, \<open>Context\<close>, \<open>Door\<close>: the reading and the writing half of transitions.rs.
  \<open>Standings\<close>: the abstract specification, a task's standing as the fold of its own history, which
  the tables refine. \<open>Recording\<close>: what an operation does to a project. \<open>Answers\<close>: when a request is
  answered. \<open>Lifecycle\<close>: the step relation of the door's operations, its runs, and their invariants by
  rule induction. \<open>Assigning\<close>: who holds a task, and which of an agent's tasks may be worked.

  Autopilot, the team deciding in the owner's place.
  \<open>Autopilot_Choices\<close>, \<open>Call_Rates\<close>: core/src/autopilot.rs, the choices offered for each wait and what
  each does, and the hourly rate of paid calls. \<open>Folder_Docs\<close>, \<open>Team_Log\<close>: store/src/folder\_docs.rs and
  store/src/autopilot.rs, what the log says of proposed documents, folder changes, flags, the team's
  questions and what it spent of its limits. \<open>Deciding\<close>: runtime/src/tools/decide.rs, the tools of a
  decide session, over the door; with what a task waits for (ceremonies.rs, choices.rs). \<open>Team_Decisions\<close>:
  what a decision leaves, and that no run of steps records more decisions than the limits allow; its \<open>team_step\<close> adds the
  decide session's tools to the door's operations. \<open>Lone_Agent\<close>: a project of one agent, its witnesses.

  The rules of a tick. \<open>Governor_Rules\<close>: runtime/src/orchestrator/rules.rs, requests.rs and design.rs, the rules
  that start no session, each as a step through the door that gives its report. \<open>Governor_Answers\<close>: what the
  governor's own request says of the rows of the table, and that a tick with no report leaves no rejected,
  overdue or spent task that the governor would still move. \<open>Judging\<close>: the judgment of a contract and what
  its refusals hide from the budget rule. \<open>Resuming\<close>: the hand-over of a task its agent has no room for.
  \<open>Owner_Choices\<close>: runtime/src/choices.rs, the owner's choices of a wait, which are the team's.

  What the lemmas show. Of each gate and definition, when it passes, as an equivalence over the
  contract, and that a refusal names exactly the rules broken, in order. Of the governor, which of the
  questions refuses first, and what acceptance, readiness and rejection imply. Of the projections,
  that they equal a replay of the log however events are handed over, and that a board can be read. Of
  the door, that a move records what it says and a refusal changes nothing else; over any run, that a
  task's life follows the table, that files and log agree, that closed tasks stay closed and tries are
  counted. Of loops, that they return. Of permissions, what a call that passes cannot reach.

  Errors and state. A fallible function gives a \<open>result\<close>, the error on the left; a refusal's text is a
  constructor carrying what the text interpolates. An operation of the door takes the project (log,
  tables, files, clock readings) and gives its answer with the project it leaves, on an error too.
  The disk, the log and the database may refuse at every write: \<open>write_refused\<close>, \<open>append_refused\<close> and
  \<open>apply_refused\<close> of a \<open>world\<close> say which (a contract that no longer validates, an event new\_event or
  its schema refuses, a failed read or write), and an operation stops there as the code does. An event
  that was appended and not applied leaves the tables behind the log (\<open>left_behind\<close>), and the runs of
  \<open>Lifecycle\<close> and \<open>Team_Decisions\<close> end at such a step. The code's catch\_up, at the next
  tick or the next event, hands the tables the rest of the log, which \<open>projections_are_a_replay\<close> covers;
  a request made between the two reads tables behind the log, and no run contains one. An event is
  applied whole or not at all, as the transaction of projections.rs does it; a catch-up that fails
  halfway is not modelled.

  Bounds and fuel. Sequence numbers stop at \<open>SEQ_MAX\<close>, the largest signed 64-bit integer, and an
  append past it is an error. Counters are words of their width: a task's tries and the counts of
  rejections saturate or are read at 32 bits, the number of a branch is 32 bits, of an attached
  document 64. \<open>MOST_EVENTS\<close> in \<open>Answers\<close> bounds what one request appends (two for each row of the
  table and a few more), the room the log must have for an answer. Loops that count until a name is free
  are \<open>partial_function\<close>s, with the theorem that they return; the other recursions are structural.

  What is a parameter. The glob and regular expression engines, float addition and comparison, JSON
  text, and the readings of a \<open>world\<close> (git, the disk, the clock, the sandbox) are arguments. A theorem
  holds for every one of them, or names what it assumes and has a witness that meets it.

  Not modelled. The process around the door: sessions, the orchestrator, tools, the daemon and its
  sockets (crates/runtime, other than named above), which is I/O and scheduling; git and the scans of a
  repository (crates/store); the command line and the web app; the texts of role kits (crates/roles);
  generated schema types beyond the fields read here; the importers of other services' exports and
  the words in which the governor speaks. The mutex that orders two requests is the model's step:
  an operation is one step, and interleavings are sequences of steps.
\<close>

end
